theory Spec2Isabelle
  imports Complex_Main "HOL-Library.Word" "HOL-Library.Char_ord" "HOL-Library.List_Lexorder"
begin

section \<open>Data model\<close>

text \<open>
  The embedding follows \<^verbatim>\<open>AggregatedStats.cpp\<close>. \<^verbatim>\<open>uint64_t\<close> and \<^verbatim>\<open>uintptr_t\<close>
  (a 64-bit build) are 64-bit words and \<^verbatim>\<open>uint32_t\<close> is a 32-bit word, so every
  \<^verbatim>\<open>+=\<close> of the source wraps around as it does in C++.

  The headers that declare the source data are not among the sources; the records below
  hold the members that the operations modelled here read. Where two structures both have
  a member called \<^verbatim>\<open>Name\<close>, the record fields are \<open>Name\<close> (an agent), \<open>SkillName\<close> (a
  skill) and \<open>EntryName\<close> (an entry of a result table). Subgroups are only compared
  for equality, with each other and with zero, so they are natural numbers.

  The four time stamps are in milliseconds; \<^verbatim>\<open>GetCombatTime\<close> is the one operation that
  reads them, and it computes in \<^verbatim>\<open>float\<close>, which is modelled in its own section.
\<close>

type_synonym u64 = "64 word"
type_synonym u32 = "32 word"

record HealedAgent =
  Name :: string
  Subgroup :: nat
  IsMinion :: bool

record AgentStats =
  TotalHealing :: u64
  Ticks :: u64

text \<open>
  A \<^verbatim>\<open>std::map\<close> that the source iterates over is an association list, read from
  left to right in the order of the iteration; one that it only searches with
  \<^verbatim>\<open>find\<close> is a partial function. The association list of a \<^verbatim>\<open>std::map\<close> has its keys
  in ascending order, each key once. The theorems below hold for every association list, so
  they do not assume it.
\<close>

record SkillStats =
  SkillName :: string
  AgentsHealing :: "(u64 \<times> AgentStats) list"

record HealingStats =
  Agents :: "u64 \<rightharpoonup> HealedAgent"
  SkillsHealing :: "(u32 \<times> SkillStats) list"
  SubGroup :: nat
  EnteredCombatTime :: u64
  ExitedCombatTime :: u64
  LastHealEvent :: u64
  LastDamageEvent :: u64

text \<open>
  The enumerations, each with its \<^verbatim>\<open>Max\<close> enumerator, which the constructor's
  assertions and the \<^verbatim>\<open>default\<close> branches of the switches are about.
\<close>

datatype SortOrder =
  SortOrder_AscendingAlphabetical
  | SortOrder_DescendingAlphabetical
  | SortOrder_AscendingSize
  | SortOrder_DescendingSize
  | SortOrder_Max

datatype DataSource =
  DataSource_Skills
  | DataSource_Agents
  | DataSource_Totals
  | DataSource_Max

datatype GroupFilter =
  GroupFilter_Group
  | GroupFilter_Squad
  | GroupFilter_AllExcludingMinions
  | GroupFilter_All
  | GroupFilter_Max

text \<open>
  \<^verbatim>\<open>CombatEndCondition\<close> is declared in a header that is not among the sources. The one
  operation that reads it, \<^verbatim>\<open>GetCombatTime\<close>, compares it with the enumerators
  \<^verbatim>\<open>CombatExit\<close> and \<^verbatim>\<open>LastHealEvent\<close>; \<open>CombatEndCondition_Other\<close> stands for every other
  value of the enumeration.
\<close>

datatype CombatEndCondition =
  CombatEndCondition_CombatExit
  | CombatEndCondition_LastHealEvent
  | CombatEndCondition_Other

record HealWindowOptions =
  ExcludeGroup :: bool
  ExcludeOffGroup :: bool
  ExcludeOffSquad :: bool
  ExcludeMinions :: bool
  ExcludeUnmapped :: bool
  SortOrderChoice :: SortOrder
  DataSourceChoice :: DataSource
  CombatEndConditionChoice :: CombatEndCondition

text \<open>
  \<^verbatim>\<open>SkillTable::GlobalState.IsSkillIndirectHealing\<close> and the constant
  \<^verbatim>\<open>IndirectHealingSkillId\<close> are declared in \<^verbatim>\<open>Skills.h\<close>, which is not among the
  sources: every function that uses one of them takes them as a parameter. The skill
  table is global state of the program; it is taken to be the same at every call on one
  object.
\<close>

record SkillTable =
  IsSkillIndirectHealing :: "u32 \<Rightarrow> string \<Rightarrow> bool"
  IndirectHealingSkillId :: u32

datatype error = AssertionFailed

record AggregatedStatsEntry =
  Id :: u64
  EntryName :: string
  Healing :: u64
  Hits :: u64
  Casts :: "u64 option"

record AggregatedVector =
  Entries :: "AggregatedStatsEntry list"
  HighestHealing :: u64

text \<open>
  The object itself: the source data, the options, the debug flag and the caches. A
  \<^verbatim>\<open>unique_ptr\<close> that is null is \<open>None\<close>.
\<close>

record AggregatedStats =
  mySourceData :: HealingStats
  myOptions :: HealWindowOptions
  myDebugMode :: bool
  myTotal :: "AggregatedStatsEntry option"
  myAllAgents :: "(u64 \<times> AgentStats) list option"
  myFilteredAgents :: "AggregatedVector option"
  mySkills :: "AggregatedVector option"
  myGroupFilterTotals :: "AggregatedVector option"
  myAgentsDetailed :: "u64 \<rightharpoonup> AggregatedVector"
  mySkillsDetailed :: "u32 \<rightharpoonup> AggregatedVector"

section \<open>Construction, tables and the filter\<close>

text \<open>
  The constructor: the member initialisers leave every cache empty, and the body holds the
  two assertions.
\<close>

definition constructed :: "HealingStats \<Rightarrow> HealWindowOptions \<Rightarrow> bool \<Rightarrow> AggregatedStats" where
  "constructed pSourceData pOptions pDebugMode =
     \<lparr>mySourceData = pSourceData, myOptions = pOptions, myDebugMode = pDebugMode,
      myTotal = None, myAllAgents = None, myFilteredAgents = None, mySkills = None,
      myGroupFilterTotals = None, myAgentsDetailed = Map.empty,
      mySkillsDetailed = Map.empty\<rparr>"

definition AggregatedStats_new ::
  "HealingStats \<Rightarrow> HealWindowOptions \<Rightarrow> bool \<Rightarrow> error + AggregatedStats" where
  "AggregatedStats_new pSourceData pOptions pDebugMode =
     (if \<not> (SortOrderChoice pOptions \<noteq> SortOrder_Max) then Inl AssertionFailed
      else if \<not> (DataSourceChoice pOptions \<noteq> DataSource_Max) then Inl AssertionFailed
      else Inr (constructed pSourceData pOptions pDebugMode))"

definition AggregatedVector_new :: AggregatedVector where
  "AggregatedVector_new = \<lparr>Entries = [], HighestHealing = 0\<rparr>"

definition Add ::
  "AggregatedVector \<Rightarrow> u64 \<Rightarrow> string \<Rightarrow> u64 \<Rightarrow> u64 \<Rightarrow> u64 option \<Rightarrow> AggregatedVector" where
  "Add v pId pName pHealing pHits pCasts =
     \<lparr>Entries = Entries v @
        [\<lparr>Id = pId, EntryName = pName, Healing = pHealing, Hits = pHits, Casts = pCasts\<rparr>],
      HighestHealing = max (HighestHealing v) pHealing\<rparr>"

text \<open>
  \<^verbatim>\<open>FilterInternal\<close>: the iterator is the result of the lookup, \<open>None\<close> for
  \<^verbatim>\<open>Agents.end()\<close>. \<open>True\<close> means that the agent is excluded.
\<close>

definition FilterInternal :: "HealingStats \<Rightarrow> HealedAgent option \<Rightarrow> HealWindowOptions \<Rightarrow> bool" where
  "FilterInternal src pAgent pFilter =
     (case pAgent of
        None \<Rightarrow> (if ExcludeUnmapped pFilter then True else False)
      | Some a \<Rightarrow>
          if IsMinion a \<and> ExcludeMinions pFilter then True
          else if Subgroup a = 0 \<and> SubGroup src \<noteq> 0 \<and> ExcludeOffSquad pFilter then True
          else if Subgroup a \<noteq> 0 \<and> SubGroup src \<noteq> Subgroup a \<and> ExcludeOffGroup pFilter then True
          else if Subgroup a = SubGroup src \<and> ExcludeGroup pFilter then True
          else False)"

text \<open>The two overloads of \<^verbatim>\<open>Filter\<close>: by agent id and by iterator.\<close>

definition Filter :: "HealingStats \<Rightarrow> HealWindowOptions \<Rightarrow> u64 \<Rightarrow> bool" where
  "Filter src opts pAgentId = FilterInternal src (Agents src pAgentId) opts"

definition Filter_it :: "HealingStats \<Rightarrow> HealWindowOptions \<Rightarrow> HealedAgent option \<Rightarrow> bool" where
  "Filter_it src opts pAgent = FilterInternal src pAgent opts"

section \<open>Sorting\<close>

text \<open>
  \<^verbatim>\<open>std::sort\<close> returns some permutation of its input that is ordered by the
  comparator; which one, among equal keys, is not fixed. The model is an insertion sort.
  Nothing below depends on the order among equal keys.
\<close>

fun insert_sorted :: "('a \<Rightarrow> 'a \<Rightarrow> bool) \<Rightarrow> 'a \<Rightarrow> 'a list \<Rightarrow> 'a list" where
  "insert_sorted lt x [] = [x]"
| "insert_sorted lt x (y # ys) =
     (if lt y x then y # insert_sorted lt x ys else x # y # ys)"

fun std_sort :: "('a \<Rightarrow> 'a \<Rightarrow> bool) \<Rightarrow> 'a list \<Rightarrow> 'a list" where
  "std_sort lt [] = []"
| "std_sort lt (x # xs) = insert_sorted lt x (std_sort lt xs)"

definition Sort :: "SortOrder \<Rightarrow> AggregatedStatsEntry list \<Rightarrow> error + AggregatedStatsEntry list" where
  "Sort order pVector =
     (case order of
        SortOrder_AscendingAlphabetical \<Rightarrow>
          Inr (std_sort (\<lambda>pLeft pRight. EntryName pLeft < EntryName pRight) pVector)
      | SortOrder_DescendingAlphabetical \<Rightarrow>
          Inr (std_sort (\<lambda>pLeft pRight. EntryName pLeft > EntryName pRight) pVector)
      | SortOrder_AscendingSize \<Rightarrow>
          Inr (std_sort (\<lambda>pLeft pRight. Healing pLeft < Healing pRight) pVector)
      | SortOrder_DescendingSize \<Rightarrow>
          Inr (std_sort (\<lambda>pLeft pRight. Healing pLeft > Healing pRight) pVector)
      | SortOrder_Max \<Rightarrow> Inl AssertionFailed)"

section \<open>Display names\<close>

text \<open>
  \<^verbatim>\<open>std::to_string\<close> and the \<^verbatim>\<open>%llu\<close> and \<^verbatim>\<open>%u\<close> conversions of
  \<^verbatim>\<open>snprintf\<close> print a number in decimal; \<^verbatim>\<open>snprintf\<close> into a buffer of 1024 bytes
  keeps the first 1023 characters. The \<^verbatim>\<open>LOG\<close> calls only write to the log.
\<close>

function to_string :: "nat \<Rightarrow> string" where
  "to_string n =
     (if n < 10 then [char_of (48 + n)]
      else to_string (n div 10) @ [char_of (48 + n mod 10)])"
  by pat_completeness auto
termination
  by (relation "measure id") auto

declare to_string.simps [simp del]

definition agentName :: "bool \<Rightarrow> u64 \<Rightarrow> HealedAgent option \<Rightarrow> string" where
  "agentName debugMode agentId mapAgent =
     (if debugMode = False then
        (case mapAgent of
           Some a \<Rightarrow> Name a
         | None \<Rightarrow> to_string (unat agentId))
      else
        take 1023
          (case mapAgent of
             Some a \<Rightarrow>
               to_string (unat agentId) @ '' ; '' @ to_string (Subgroup a) @ '' ; ''
                 @ to_string (if IsMinion a then 1 else 0) @ '' ; '' @ Name a
           | None \<Rightarrow> to_string (unat agentId) @ '' ; (UNMAPPED)''))"

definition skillName :: "bool \<Rightarrow> bool \<Rightarrow> u32 \<Rightarrow> string \<Rightarrow> string" where
  "skillName debugMode isIndirectHealing skillId name =
     (if debugMode = False then name
      else take 1023
             ((if isIndirectHealing then ''(INDIRECT) ; '' else '''')
                @ to_string (unat skillId) @ '' ; '' @ name))"

section \<open>The merged agents\<close>

text \<open>
  \<^verbatim>\<open>GetAllAgents\<close> fills a \<^verbatim>\<open>std::map\<close> keyed by agent id: \<^verbatim>\<open>emplace\<close> inserts a
  new key at its place in the ascending order of the keys, and where the key is already
  there the source adds the record to the stored one.
\<close>

fun emplace_add :: "u64 \<Rightarrow> AgentStats \<Rightarrow> (u64 \<times> AgentStats) list \<Rightarrow> (u64 \<times> AgentStats) list" where
  "emplace_add agentId agent [] =
     [(agentId, \<lparr>TotalHealing = TotalHealing agent, Ticks = Ticks agent\<rparr>)]"
| "emplace_add agentId agent ((k, v) # rest) =
     (if agentId = k then
        (k, v\<lparr>TotalHealing := TotalHealing v + TotalHealing agent,
              Ticks := Ticks v + Ticks agent\<rparr>) # rest
      else if agentId < k then
        (agentId, \<lparr>TotalHealing = TotalHealing agent, Ticks = Ticks agent\<rparr>) # (k, v) # rest
      else (k, v) # emplace_add agentId agent rest)"

fun GetAllAgents_agents ::
  "(u64 \<times> AgentStats) list \<Rightarrow> (u64 \<times> AgentStats) list \<Rightarrow> (u64 \<times> AgentStats) list" where
  "GetAllAgents_agents [] allAgents = allAgents"
| "GetAllAgents_agents ((agentId, agent) # rest) allAgents =
     GetAllAgents_agents rest (emplace_add agentId agent allAgents)"

fun GetAllAgents_skills ::
  "(u32 \<times> SkillStats) list \<Rightarrow> (u64 \<times> AgentStats) list \<Rightarrow> (u64 \<times> AgentStats) list" where
  "GetAllAgents_skills [] allAgents = allAgents"
| "GetAllAgents_skills ((skillId, skill) # rest) allAgents =
     GetAllAgents_skills rest (GetAllAgents_agents (AgentsHealing skill) allAgents)"

definition GetAllAgents_build :: "HealingStats \<Rightarrow> (u64 \<times> AgentStats) list" where
  "GetAllAgents_build src = GetAllAgents_skills (SkillsHealing src) []"

definition GetAllAgents :: "AggregatedStats \<Rightarrow> (u64 \<times> AgentStats) list \<times> AggregatedStats" where
  "GetAllAgents s =
     (case myAllAgents s of
        Some allAgents \<Rightarrow> (allAgents, s)
      | None \<Rightarrow>
          (let allAgents = GetAllAgents_build (mySourceData s)
           in (allAgents, s\<lparr>myAllAgents := Some allAgents\<rparr>)))"

section \<open>The views\<close>

text \<open>
  Every view has the same shape: return the cached table if there is one; otherwise run
  the loops (the \<open>_build\<close> function), sort the entries, store the table and return it.
  \<open>sorted_vector\<close> is the call \<^verbatim>\<open>Sort(v.Entries)\<close>, which leaves
  \<^verbatim>\<open>HighestHealing\<close> as it is.
\<close>

definition sorted_vector :: "SortOrder \<Rightarrow> AggregatedVector \<Rightarrow> error + AggregatedVector" where
  "sorted_vector order v =
     (case Sort order (Entries v) of
        Inl e \<Rightarrow> Inl e
      | Inr es \<Rightarrow> Inr (v\<lparr>Entries := es\<rparr>))"

subsection \<open>GetAgents\<close>

fun GetAgents_loop ::
  "HealingStats \<Rightarrow> HealWindowOptions \<Rightarrow> bool \<Rightarrow> (u64 \<times> AgentStats) list
     \<Rightarrow> AggregatedVector \<Rightarrow> AggregatedVector" where
  "GetAgents_loop src opts dbg [] v = v"
| "GetAgents_loop src opts dbg ((agentId, agent) # rest) v =
     (let mapAgent = Agents src agentId
      in if Filter_it src opts mapAgent = True then GetAgents_loop src opts dbg rest v
         else GetAgents_loop src opts dbg rest
                (Add v agentId (agentName dbg agentId mapAgent)
                   (TotalHealing agent) (Ticks agent) None))"

definition GetAgents_build ::
  "HealingStats \<Rightarrow> HealWindowOptions \<Rightarrow> bool \<Rightarrow> (u64 \<times> AgentStats) list \<Rightarrow> AggregatedVector" where
  "GetAgents_build src opts dbg allAgents =
     GetAgents_loop src opts dbg allAgents AggregatedVector_new"

definition GetAgents :: "AggregatedStats \<Rightarrow> error + (AggregatedVector \<times> AggregatedStats)" where
  "GetAgents s =
     (case myFilteredAgents s of
        Some v \<Rightarrow> Inr (v, s)
      | None \<Rightarrow>
          (case GetAllAgents s of
             (allAgents, s1) \<Rightarrow>
               (case sorted_vector (SortOrderChoice (myOptions s1))
                       (GetAgents_build (mySourceData s1) (myOptions s1) (myDebugMode s1)
                          allAgents) of
                  Inl e \<Rightarrow> Inl e
                | Inr v \<Rightarrow> Inr (v, s1\<lparr>myFilteredAgents := Some v\<rparr>))))"

subsection \<open>GetSkills\<close>

fun GetSkills_agents ::
  "HealingStats \<Rightarrow> HealWindowOptions \<Rightarrow> (u64 \<times> AgentStats) list \<Rightarrow> u64 \<times> u64 \<Rightarrow> u64 \<times> u64" where
  "GetSkills_agents src opts [] (totalHealing, ticks) = (totalHealing, ticks)"
| "GetSkills_agents src opts ((agentId, agent) # rest) (totalHealing, ticks) =
     (if Filter src opts agentId = True then GetSkills_agents src opts rest (totalHealing, ticks)
      else GetSkills_agents src opts rest
             (totalHealing + TotalHealing agent, ticks + Ticks agent))"

text \<open>
  The loop over the skills carries the table and the two running sums
  \<^verbatim>\<open>totalIndirectHealing\<close> and \<^verbatim>\<open>totalIndirectTicks\<close>.
\<close>

fun GetSkills_loop ::
  "SkillTable \<Rightarrow> HealingStats \<Rightarrow> HealWindowOptions \<Rightarrow> bool \<Rightarrow> (u32 \<times> SkillStats) list
     \<Rightarrow> AggregatedVector \<times> u64 \<times> u64 \<Rightarrow> AggregatedVector \<times> u64 \<times> u64" where
  "GetSkills_loop tbl src opts dbg [] st = st"
| "GetSkills_loop tbl src opts dbg ((skillId, skill) # rest)
       (v, totalIndirectHealing, totalIndirectTicks) =
     (case GetSkills_agents src opts (AgentsHealing skill) (0, 0) of
        (totalHealing, ticks) \<Rightarrow>
          if IsSkillIndirectHealing tbl skillId (SkillName skill) = True then
            (if dbg = False then
               GetSkills_loop tbl src opts dbg rest
                 (v, totalIndirectHealing + totalHealing, totalIndirectTicks + ticks)
             else
               GetSkills_loop tbl src opts dbg rest
                 (Add v (ucast skillId) (skillName dbg True skillId (SkillName skill))
                    totalHealing ticks None,
                  totalIndirectHealing + totalHealing, totalIndirectTicks + ticks))
          else
            GetSkills_loop tbl src opts dbg rest
              (Add v (ucast skillId) (skillName dbg False skillId (SkillName skill))
                 totalHealing ticks None,
               totalIndirectHealing, totalIndirectTicks))"

definition add_indirect :: "SkillTable \<Rightarrow> AggregatedVector \<times> u64 \<times> u64 \<Rightarrow> AggregatedVector" where
  "add_indirect tbl st =
     (case st of
        (v, totalIndirectHealing, totalIndirectTicks) \<Rightarrow>
          if totalIndirectHealing \<noteq> 0 \<or> totalIndirectTicks \<noteq> 0 then
            Add v (ucast (IndirectHealingSkillId tbl)) ''Healing by Damage Dealt''
              totalIndirectHealing totalIndirectTicks None
          else v)"

definition GetSkills_build ::
  "SkillTable \<Rightarrow> HealingStats \<Rightarrow> HealWindowOptions \<Rightarrow> bool \<Rightarrow> AggregatedVector" where
  "GetSkills_build tbl src opts dbg =
     add_indirect tbl
       (GetSkills_loop tbl src opts dbg (SkillsHealing src) (AggregatedVector_new, 0, 0))"

definition GetSkills ::
  "SkillTable \<Rightarrow> AggregatedStats \<Rightarrow> error + (AggregatedVector \<times> AggregatedStats)" where
  "GetSkills tbl s =
     (case mySkills s of
        Some v \<Rightarrow> Inr (v, s)
      | None \<Rightarrow>
          (case sorted_vector (SortOrderChoice (myOptions s))
                  (GetSkills_build tbl (mySourceData s) (myOptions s) (myDebugMode s)) of
             Inl e \<Rightarrow> Inl e
           | Inr v \<Rightarrow> Inr (v, s\<lparr>mySkills := Some v\<rparr>)))"

subsection \<open>GetTotal\<close>

fun GetTotal_loop :: "AggregatedStatsEntry list \<Rightarrow> u64 \<times> u64 \<Rightarrow> u64 \<times> u64" where
  "GetTotal_loop [] (healing, hits) = (healing, hits)"
| "GetTotal_loop (entry # rest) (healing, hits) =
     GetTotal_loop rest (healing + Healing entry, hits + Hits entry)"

definition GetTotal_build :: "AggregatedVector \<Rightarrow> AggregatedStatsEntry" where
  "GetTotal_build skills =
     (case GetTotal_loop (Entries skills) (0, 0) of
        (healing, hits) \<Rightarrow>
          \<lparr>Id = 0, EntryName = ''__TOTAL__'', Healing = healing, Hits = hits, Casts = None\<rparr>)"

definition GetTotal ::
  "SkillTable \<Rightarrow> AggregatedStats \<Rightarrow> error + (AggregatedStatsEntry \<times> AggregatedStats)" where
  "GetTotal tbl s =
     (case myTotal s of
        Some t \<Rightarrow> Inr (t, s)
      | None \<Rightarrow>
          (case GetSkills tbl s of
             Inl e \<Rightarrow> Inl e
           | Inr (skills, s1) \<Rightarrow>
               (let t = GetTotal_build skills in Inr (t, s1\<lparr>myTotal := Some t\<rparr>))))"

subsection \<open>GetAgentDetails\<close>

fun GetAgentDetails_agents ::
  "SkillTable \<Rightarrow> bool \<Rightarrow> u64 \<Rightarrow> u32 \<Rightarrow> SkillStats \<Rightarrow> (u64 \<times> AgentStats) list
     \<Rightarrow> AggregatedVector \<times> u64 \<times> u64 \<Rightarrow> AggregatedVector \<times> u64 \<times> u64" where
  "GetAgentDetails_agents tbl dbg pAgentId skillId skill [] st = st"
| "GetAgentDetails_agents tbl dbg pAgentId skillId skill ((agentId, agent) # rest)
       (v, totalIndirectHealing, totalIndirectTicks) =
     (if agentId \<noteq> pAgentId then
        GetAgentDetails_agents tbl dbg pAgentId skillId skill rest
          (v, totalIndirectHealing, totalIndirectTicks)
      else if IsSkillIndirectHealing tbl skillId (SkillName skill) = True then
        (if dbg = False then
           GetAgentDetails_agents tbl dbg pAgentId skillId skill rest
             (v, totalIndirectHealing + TotalHealing agent, totalIndirectTicks + Ticks agent)
         else
           GetAgentDetails_agents tbl dbg pAgentId skillId skill rest
             (Add v (ucast skillId) (skillName dbg True skillId (SkillName skill))
                (TotalHealing agent) (Ticks agent) None,
              totalIndirectHealing + TotalHealing agent, totalIndirectTicks + Ticks agent))
      else
        GetAgentDetails_agents tbl dbg pAgentId skillId skill rest
          (Add v (ucast skillId) (skillName dbg False skillId (SkillName skill))
             (TotalHealing agent) (Ticks agent) None,
           totalIndirectHealing, totalIndirectTicks))"

fun GetAgentDetails_skills ::
  "SkillTable \<Rightarrow> bool \<Rightarrow> u64 \<Rightarrow> (u32 \<times> SkillStats) list
     \<Rightarrow> AggregatedVector \<times> u64 \<times> u64 \<Rightarrow> AggregatedVector \<times> u64 \<times> u64" where
  "GetAgentDetails_skills tbl dbg pAgentId [] st = st"
| "GetAgentDetails_skills tbl dbg pAgentId ((skillId, skill) # rest) st =
     GetAgentDetails_skills tbl dbg pAgentId rest
       (GetAgentDetails_agents tbl dbg pAgentId skillId skill (AgentsHealing skill) st)"

definition GetAgentDetails_build ::
  "SkillTable \<Rightarrow> HealingStats \<Rightarrow> bool \<Rightarrow> u64 \<Rightarrow> AggregatedVector" where
  "GetAgentDetails_build tbl src dbg pAgentId =
     add_indirect tbl
       (GetAgentDetails_skills tbl dbg pAgentId (SkillsHealing src) (AggregatedVector_new, 0, 0))"

definition GetAgentDetails ::
  "SkillTable \<Rightarrow> AggregatedStats \<Rightarrow> u64 \<Rightarrow> error + (AggregatedVector \<times> AggregatedStats)" where
  "GetAgentDetails tbl s pAgentId =
     (case myAgentsDetailed s pAgentId of
        Some v \<Rightarrow> Inr (v, s)
      | None \<Rightarrow>
          (case sorted_vector (SortOrderChoice (myOptions s))
                  (GetAgentDetails_build tbl (mySourceData s) (myDebugMode s) pAgentId) of
             Inl e \<Rightarrow> Inl e
           | Inr v \<Rightarrow> Inr (v, s\<lparr>myAgentsDetailed := (myAgentsDetailed s)(pAgentId \<mapsto> v)\<rparr>)))"

subsection \<open>GetSkillDetails\<close>

fun GetSkillDetails_loop ::
  "HealingStats \<Rightarrow> HealWindowOptions \<Rightarrow> bool \<Rightarrow> (u64 \<times> AgentStats) list
     \<Rightarrow> AggregatedVector \<Rightarrow> AggregatedVector" where
  "GetSkillDetails_loop src opts dbg [] v = v"
| "GetSkillDetails_loop src opts dbg ((agentId, agent) # rest) v =
     (let mapAgent = Agents src agentId
      in if Filter_it src opts mapAgent = True then GetSkillDetails_loop src opts dbg rest v
         else GetSkillDetails_loop src opts dbg rest
                (Add v agentId (agentName dbg agentId mapAgent)
                   (TotalHealing agent) (Ticks agent) None))"

text \<open>
  \<open>None\<close> is the early return of the source: the skill is not in
  \<^verbatim>\<open>SkillsHealing\<close>, and the empty vector that \<^verbatim>\<open>emplace\<close> has just stored is
  returned as it is, unsorted.
\<close>

definition GetSkillDetails_build ::
  "HealingStats \<Rightarrow> HealWindowOptions \<Rightarrow> bool \<Rightarrow> u32 \<Rightarrow> AggregatedVector option" where
  "GetSkillDetails_build src opts dbg pSkillId =
     (case map_of (SkillsHealing src) pSkillId of
        None \<Rightarrow> None
      | Some sourceData \<Rightarrow>
          Some (GetSkillDetails_loop src opts dbg (AgentsHealing sourceData)
                  AggregatedVector_new))"

definition GetSkillDetails ::
  "AggregatedStats \<Rightarrow> u32 \<Rightarrow> error + (AggregatedVector \<times> AggregatedStats)" where
  "GetSkillDetails s pSkillId =
     (case mySkillsDetailed s pSkillId of
        Some v \<Rightarrow> Inr (v, s)
      | None \<Rightarrow>
          (case GetSkillDetails_build (mySourceData s) (myOptions s) (myDebugMode s) pSkillId of
             None \<Rightarrow>
               Inr (AggregatedVector_new,
                    s\<lparr>mySkillsDetailed := (mySkillsDetailed s)(pSkillId \<mapsto> AggregatedVector_new)\<rparr>)
           | Some built \<Rightarrow>
               (case sorted_vector (SortOrderChoice (myOptions s)) built of
                  Inl e \<Rightarrow> Inl e
                | Inr v \<Rightarrow>
                    Inr (v, s\<lparr>mySkillsDetailed := (mySkillsDetailed s)(pSkillId \<mapsto> v)\<rparr>))))"

subsection \<open>GetGroupFilterTotals\<close>

definition GROUP_FILTER_STRING :: "string list" where
  "GROUP_FILTER_STRING =
     [''Group'', ''Squad'', ''All (Excluding Summons)'', ''All (Including Summons)'']"

text \<open>
  \<^verbatim>\<open>static_cast<GroupFilter>(i)\<close>. The enumeration is declared in a header that is not
  among the sources; the static assertion on \<^verbatim>\<open>GROUP_FILTER_STRING\<close> makes
  \<^verbatim>\<open>GroupFilter::Max\<close> four, and the enumerators are numbered in the order of the
  strings.
\<close>

definition GroupFilter_cast :: "nat \<Rightarrow> GroupFilter" where
  "GroupFilter_cast i =
     (if i = 0 then GroupFilter_Group
      else if i = 1 then GroupFilter_Squad
      else if i = 2 then GroupFilter_AllExcludingMinions
      else if i = 3 then GroupFilter_All
      else GroupFilter_Max)"

text \<open>
  \<^verbatim>\<open>HealWindowOptions fakeOptions;\<close> is default-constructed, and the member
  initialisers are in a header that is not among the sources. Every case of the switch
  assigns all five flags before \<^verbatim>\<open>FilterInternal\<close> reads them, and nothing reads the
  other members of \<^verbatim>\<open>fakeOptions\<close>, so the values chosen here are never observed.
\<close>

definition HealWindowOptions_default :: HealWindowOptions where
  "HealWindowOptions_default =
     \<lparr>ExcludeGroup = False, ExcludeOffGroup = False, ExcludeOffSquad = False,
      ExcludeMinions = False, ExcludeUnmapped = False,
      SortOrderChoice = SortOrder_DescendingSize, DataSourceChoice = DataSource_Agents,
      CombatEndConditionChoice = CombatEndCondition_CombatExit\<rparr>"

definition fakeOptions_switch :: "GroupFilter \<Rightarrow> error + HealWindowOptions" where
  "fakeOptions_switch f =
     (case f of
        GroupFilter_Group \<Rightarrow>
          Inr (HealWindowOptions_default
                 \<lparr>ExcludeGroup := False, ExcludeOffGroup := True, ExcludeOffSquad := True,
                  ExcludeMinions := True, ExcludeUnmapped := True\<rparr>)
      | GroupFilter_Squad \<Rightarrow>
          Inr (HealWindowOptions_default
                 \<lparr>ExcludeGroup := False, ExcludeOffGroup := False, ExcludeOffSquad := True,
                  ExcludeMinions := True, ExcludeUnmapped := True\<rparr>)
      | GroupFilter_AllExcludingMinions \<Rightarrow>
          Inr (HealWindowOptions_default
                 \<lparr>ExcludeGroup := False, ExcludeOffGroup := False, ExcludeOffSquad := False,
                  ExcludeMinions := True, ExcludeUnmapped := True\<rparr>)
      | GroupFilter_All \<Rightarrow>
          Inr (HealWindowOptions_default
                 \<lparr>ExcludeGroup := False, ExcludeOffGroup := False, ExcludeOffSquad := False,
                  ExcludeMinions := False, ExcludeUnmapped := True\<rparr>)
      | GroupFilter_Max \<Rightarrow> Inl AssertionFailed)"

text \<open>
  The inner loop, over the indices \<open>i\<close> below \<^verbatim>\<open>GroupFilter::Max\<close>: it adds the agent
  to \<^verbatim>\<open>Entries[i]\<close> where the filter of index \<open>i\<close> lets the agent through. The
  vector has four entries when the loop runs, so \<^verbatim>\<open>Entries[i]\<close> is in range.
\<close>

fun GetGroupFilterTotals_filters ::
  "HealingStats \<Rightarrow> HealedAgent option \<Rightarrow> AgentStats \<Rightarrow> nat list
     \<Rightarrow> AggregatedStatsEntry list \<Rightarrow> error + AggregatedStatsEntry list" where
  "GetGroupFilterTotals_filters src mapAgent agent [] es = Inr es"
| "GetGroupFilterTotals_filters src mapAgent agent (i # rest) es =
     (case fakeOptions_switch (GroupFilter_cast i) of
        Inl e \<Rightarrow> Inl e
      | Inr fakeOptions \<Rightarrow>
          if FilterInternal src mapAgent fakeOptions = False then
            GetGroupFilterTotals_filters src mapAgent agent rest
              (es[i := (es ! i)\<lparr>Healing := Healing (es ! i) + TotalHealing agent,
                                Hits := Hits (es ! i) + Ticks agent\<rparr>])
          else GetGroupFilterTotals_filters src mapAgent agent rest es)"

fun GetGroupFilterTotals_agents ::
  "HealingStats \<Rightarrow> (u64 \<times> AgentStats) list \<Rightarrow> AggregatedStatsEntry list
     \<Rightarrow> error + AggregatedStatsEntry list" where
  "GetGroupFilterTotals_agents src [] es = Inr es"
| "GetGroupFilterTotals_agents src ((agentId, agent) # rest) es =
     (case GetGroupFilterTotals_filters src (Agents src agentId) agent [0..<4] es of
        Inl e \<Rightarrow> Inl e
      | Inr es' \<Rightarrow> GetGroupFilterTotals_agents src rest es')"

definition GetGroupFilterTotals_build ::
  "HealingStats \<Rightarrow> (u64 \<times> AgentStats) list \<Rightarrow> error + AggregatedVector" where
  "GetGroupFilterTotals_build src allAgents =
     (let v0 = foldl (\<lambda>v name. Add v 0 name 0 0 None) AggregatedVector_new GROUP_FILTER_STRING
      in case GetGroupFilterTotals_agents src allAgents (Entries v0) of
           Inl e \<Rightarrow> Inl e
         | Inr es \<Rightarrow>
             Inr \<lparr>Entries = es,
                  HighestHealing = foldl (\<lambda>h entry. max h (Healing entry)) (HighestHealing v0) es\<rparr>)"

definition GetGroupFilterTotals ::
  "AggregatedStats \<Rightarrow> error + (AggregatedVector \<times> AggregatedStats)" where
  "GetGroupFilterTotals s =
     (case myGroupFilterTotals s of
        Some v \<Rightarrow> Inr (v, s)
      | None \<Rightarrow>
          (case GetAllAgents s of
             (allAgents, s1) \<Rightarrow>
               (case GetGroupFilterTotals_build (mySourceData s1) allAgents of
                  Inl e \<Rightarrow> Inl e
                | Inr v \<Rightarrow> Inr (v, s1\<lparr>myGroupFilterTotals := Some v\<rparr>))))"

subsection \<open>GetStats and GetDetails\<close>

definition GetStats ::
  "SkillTable \<Rightarrow> AggregatedStats \<Rightarrow> DataSource \<Rightarrow> error + (AggregatedVector \<times> AggregatedStats)" where
  "GetStats tbl s pDataSource =
     (case pDataSource of
        DataSource_Skills \<Rightarrow> GetSkills tbl s
      | DataSource_Agents \<Rightarrow> GetAgents s
      | DataSource_Totals \<Rightarrow> GetGroupFilterTotals s
      | DataSource_Max \<Rightarrow> GetGroupFilterTotals s)"

text \<open>
  In \<^verbatim>\<open>GetDetails\<close> the case \<^verbatim>\<open>DataSource::Skills\<close> calls \<^verbatim>\<open>GetSkillDetails\<close> with
  the id cast to 32 bits, drops the result and falls through to the next case.
\<close>

definition GetDetails ::
  "SkillTable \<Rightarrow> AggregatedStats \<Rightarrow> DataSource \<Rightarrow> u64
     \<Rightarrow> error + (AggregatedVector \<times> AggregatedStats)" where
  "GetDetails tbl s pDataSource pId =
     (case pDataSource of
        DataSource_Skills \<Rightarrow>
          (case GetSkillDetails s (ucast pId) of
             Inl e \<Rightarrow> Inl e
           | Inr (ignored, s1) \<Rightarrow> GetAgentDetails tbl s1 pId)
      | DataSource_Agents \<Rightarrow> GetAgentDetails tbl s pId
      | DataSource_Totals \<Rightarrow> GetAgentDetails tbl s pId
      | DataSource_Max \<Rightarrow> GetAgentDetails tbl s pId)"

section \<open>GetCombatTime\<close>

text \<open>
  \<^verbatim>\<open>GetCombatTime\<close> computes in \<^verbatim>\<open>float\<close>, the binary32 format of IEEE 754: a significand
  of 24 bits, and every conversion and operation rounded to the nearest value of the
  format, a tie to the value whose significand is even (the rounding of the x86-64 builds
  of the program; C++ leaves to the implementation which of the two neighbouring values a
  conversion takes). A finite \<^verbatim>\<open>float\<close> is modelled as the rational number that it stands
  for.

  \<open>bit_length n\<close> is the number of binary digits of \<open>n\<close>. For \<open>0 < p\<close> and \<open>0 < q\<close>,
  \<open>exponent_of p q\<close> is the \<open>e\<close> with \<open>2 ^ e \<le> p / q < 2 ^ (e + 1)\<close>, \<open>nearest_even n d\<close> is
  the integer nearest to \<open>n / d\<close>, the even one of two that are equally near, and
  \<open>round_pos p q\<close> is the multiple of \<open>2 ^ (e - 23)\<close> nearest to \<open>p / q\<close>, which is the
  \<^verbatim>\<open>float\<close> nearest to \<open>p / q\<close>. The exponent is not bounded: what \<^verbatim>\<open>GetCombatTime\<close> rounds
  is zero or lies between \<open>2 ^ -10\<close> and \<open>2 ^ 64\<close>, far from the smallest and the largest
  normal number of the format.
\<close>

function bit_length :: "int \<Rightarrow> int" where
  "bit_length n = (if n \<le> 0 then 0 else bit_length (n div 2) + 1)"
  by pat_completeness auto
termination
  by (relation "measure nat") auto

declare bit_length.simps [simp del]

definition exponent_of :: "int \<Rightarrow> int \<Rightarrow> int" where
  "exponent_of p q =
     (let k = bit_length p - bit_length q
      in if (if 0 \<le> k then q * 2 ^ nat k \<le> p else q \<le> p * 2 ^ nat (- k)) then k else k - 1)"

definition nearest_even :: "int \<Rightarrow> int \<Rightarrow> int" where
  "nearest_even n d =
     (let k = n div d; r = n mod d
      in if 2 * r < d then k else if d < 2 * r then k + 1 else if even k then k else k + 1)"

definition round_pos :: "int \<Rightarrow> int \<Rightarrow> rat" where
  "round_pos p q =
     (let e = exponent_of p q
      in if 23 \<le> e
         then of_int (nearest_even p (q * 2 ^ nat (e - 23)) * 2 ^ nat (e - 23))
         else of_int (nearest_even (p * 2 ^ nat (23 - e)) q) / of_int (2 ^ nat (23 - e)))"

definition round_f32 :: "rat \<Rightarrow> rat" where
  "round_f32 x =
     (case quotient_of x of
        (a, b) \<Rightarrow>
          if a = 0 then 0 else if 0 < a then round_pos a b else - round_pos (- a) b)"

text \<open>
  The conversions of a \<^verbatim>\<open>uint64_t\<close> and of an \<^verbatim>\<open>int\<close> to \<^verbatim>\<open>float\<close>, and the subtraction
  and the division of two \<^verbatim>\<open>float\<close>s.
\<close>

definition f32_of_u64 :: "u64 \<Rightarrow> rat" where
  "f32_of_u64 w = round_f32 (of_nat (unat w))"

definition f32_of_int :: "int \<Rightarrow> rat" where
  "f32_of_int i = round_f32 (of_int i)"

definition f32_sub :: "rat \<Rightarrow> rat \<Rightarrow> rat" where
  "f32_sub a b = round_f32 (a - b)"

definition f32_div :: "rat \<Rightarrow> rat \<Rightarrow> rat" where
  "f32_div a b = round_f32 (a / b)"

text \<open>
  The local variable \<^verbatim>\<open>end\<close> after the three branches of \<^verbatim>\<open>GetCombatTime\<close>, and the
  operation itself: the assertion, and then
  \<^verbatim>\<open>(static_cast<float>(end) - mySourceData.EnteredCombatTime) / 1000\<close>, where the
  subtraction converts its right operand to \<^verbatim>\<open>float\<close> and the division converts the
  \<^verbatim>\<open>int\<close> 1000. The operation writes to no member of the object.
\<close>

definition GetCombatTime_end :: "AggregatedStats \<Rightarrow> u64" where
  "GetCombatTime_end s =
     (let endCondition = CombatEndConditionChoice (myOptions s)
      in if endCondition = CombatEndCondition_CombatExit
              \<and> ExitedCombatTime (mySourceData s) \<noteq> 0
         then ExitedCombatTime (mySourceData s)
         else if endCondition = CombatEndCondition_LastHealEvent
                   \<and> LastHealEvent (mySourceData s) \<noteq> 0
         then LastHealEvent (mySourceData s)
         else max (EnteredCombatTime (mySourceData s))
                (max (LastHealEvent (mySourceData s)) (LastDamageEvent (mySourceData s))))"

definition GetCombatTime :: "AggregatedStats \<Rightarrow> error + rat" where
  "GetCombatTime s =
     (let end' = GetCombatTime_end s
      in if \<not> (EnteredCombatTime (mySourceData s) \<le> end') then Inl AssertionFailed
         else Inr (f32_div
                     (f32_sub (f32_of_u64 end') (f32_of_u64 (EnteredCombatTime (mySourceData s))))
                     (f32_of_int 1000)))"

section \<open>What a view holds, and the invariant of the caches\<close>

text \<open>
  The value each operation computes when its cache is empty, as a function of the source
  data, the options and the debug flag. The snapshot is never changed, so a cache slot
  that is filled holds exactly this value: that is the invariant \<open>cache_ok\<close>, which
  also records the two assertions of the constructor.
\<close>

definition agents_view :: "HealingStats \<Rightarrow> HealWindowOptions \<Rightarrow> bool \<Rightarrow> error + AggregatedVector" where
  "agents_view src opts dbg =
     sorted_vector (SortOrderChoice opts)
       (GetAgents_build src opts dbg (GetAllAgents_build src))"

definition skills_view ::
  "SkillTable \<Rightarrow> HealingStats \<Rightarrow> HealWindowOptions \<Rightarrow> bool \<Rightarrow> error + AggregatedVector" where
  "skills_view tbl src opts dbg =
     sorted_vector (SortOrderChoice opts) (GetSkills_build tbl src opts dbg)"

definition total_view ::
  "SkillTable \<Rightarrow> HealingStats \<Rightarrow> HealWindowOptions \<Rightarrow> bool \<Rightarrow> error + AggregatedStatsEntry" where
  "total_view tbl src opts dbg =
     (case skills_view tbl src opts dbg of
        Inl e \<Rightarrow> Inl e
      | Inr skills \<Rightarrow> Inr (GetTotal_build skills))"

definition agent_details_view ::
  "SkillTable \<Rightarrow> HealingStats \<Rightarrow> HealWindowOptions \<Rightarrow> bool \<Rightarrow> u64 \<Rightarrow> error + AggregatedVector" where
  "agent_details_view tbl src opts dbg pAgentId =
     sorted_vector (SortOrderChoice opts) (GetAgentDetails_build tbl src dbg pAgentId)"

definition skill_details_view ::
  "HealingStats \<Rightarrow> HealWindowOptions \<Rightarrow> bool \<Rightarrow> u32 \<Rightarrow> error + AggregatedVector" where
  "skill_details_view src opts dbg pSkillId =
     (case GetSkillDetails_build src opts dbg pSkillId of
        None \<Rightarrow> Inr AggregatedVector_new
      | Some built \<Rightarrow> sorted_vector (SortOrderChoice opts) built)"

definition group_filter_totals_view :: "HealingStats \<Rightarrow> error + AggregatedVector" where
  "group_filter_totals_view src = GetGroupFilterTotals_build src (GetAllAgents_build src)"

definition holds :: "'a option \<Rightarrow> (error + 'a) \<Rightarrow> bool" where
  "holds slot view = (case slot of None \<Rightarrow> True | Some v \<Rightarrow> view = Inr v)"

definition cache_ok :: "SkillTable \<Rightarrow> AggregatedStats \<Rightarrow> bool" where
  "cache_ok tbl s \<longleftrightarrow>
     SortOrderChoice (myOptions s) \<noteq> SortOrder_Max
     \<and> DataSourceChoice (myOptions s) \<noteq> DataSource_Max
     \<and> holds (myAllAgents s) (Inr (GetAllAgents_build (mySourceData s)))
     \<and> holds (myFilteredAgents s)
          (agents_view (mySourceData s) (myOptions s) (myDebugMode s))
     \<and> holds (mySkills s)
          (skills_view tbl (mySourceData s) (myOptions s) (myDebugMode s))
     \<and> holds (myTotal s)
          (total_view tbl (mySourceData s) (myOptions s) (myDebugMode s))
     \<and> holds (myGroupFilterTotals s) (group_filter_totals_view (mySourceData s))
     \<and> (\<forall>pAgentId. holds (myAgentsDetailed s pAgentId)
            (agent_details_view tbl (mySourceData s) (myOptions s) (myDebugMode s) pAgentId))
     \<and> (\<forall>pSkillId. holds (mySkillsDetailed s pSkillId)
            (skill_details_view (mySourceData s) (myOptions s) (myDebugMode s) pSkillId))"

text \<open>Two states of one object: the same data, options and debug flag.\<close>

definition same_object :: "AggregatedStats \<Rightarrow> AggregatedStats \<Rightarrow> bool" where
  "same_object s s' \<longleftrightarrow>
     mySourceData s' = mySourceData s \<and> myOptions s' = myOptions s
     \<and> myDebugMode s' = myDebugMode s"

text \<open>
  The states of an object: the one the constructor leaves, and the one any public
  operation leaves when it is called in such a state and returns.
\<close>

inductive reachable :: "SkillTable \<Rightarrow> AggregatedStats \<Rightarrow> bool" for tbl :: SkillTable where
  constructor: "AggregatedStats_new src opts dbg = Inr s \<Longrightarrow> reachable tbl s"
| after_GetTotal: "reachable tbl s \<Longrightarrow> GetTotal tbl s = Inr (t, s') \<Longrightarrow> reachable tbl s'"
| after_GetStats: "reachable tbl s \<Longrightarrow> GetStats tbl s pDataSource = Inr (v, s') \<Longrightarrow> reachable tbl s'"
| after_GetDetails:
    "reachable tbl s \<Longrightarrow> GetDetails tbl s pDataSource pId = Inr (v, s') \<Longrightarrow> reachable tbl s'"
| after_GetAgents: "reachable tbl s \<Longrightarrow> GetAgents s = Inr (v, s') \<Longrightarrow> reachable tbl s'"
| after_GetSkills: "reachable tbl s \<Longrightarrow> GetSkills tbl s = Inr (v, s') \<Longrightarrow> reachable tbl s'"
| after_GetAgentDetails:
    "reachable tbl s \<Longrightarrow> GetAgentDetails tbl s pAgentId = Inr (v, s') \<Longrightarrow> reachable tbl s'"
| after_GetSkillDetails:
    "reachable tbl s \<Longrightarrow> GetSkillDetails s pSkillId = Inr (v, s') \<Longrightarrow> reachable tbl s'"
| after_GetGroupFilterTotals:
    "reachable tbl s \<Longrightarrow> GetGroupFilterTotals s = Inr (v, s') \<Longrightarrow> reachable tbl s'"

text \<open>
  What the caller gets back: the table (or entry) that the returned reference points to,
  and \<open>None\<close> where an assertion failed.
\<close>

definition value_of :: "error + ('a \<times> AggregatedStats) \<Rightarrow> 'a option" where
  "value_of r = (case r of Inl e \<Rightarrow> None | Inr (v, s) \<Rightarrow> Some v)"

definition healing_sum :: "AggregatedVector \<Rightarrow> u64" where
  "healing_sum v = sum_list (map Healing (Entries v))"

definition hits_sum :: "AggregatedVector \<Rightarrow> u64" where
  "hits_sum v = sum_list (map Hits (Entries v))"

text \<open>
  The sums of what a call returns, \<open>None\<close> where it fails, in 64 bits (\<open>healing_of\<close>,
  \<open>hits_of\<close>) and as natural numbers (\<open>healing_n_of\<close>, \<open>hits_n_of\<close>); whether a call returns at
  all; whether both of two calls return and the sum of the first is at most that of the
  second; and whether no entry of a table has casts.
\<close>

definition healing_of :: "error + (AggregatedVector \<times> AggregatedStats) \<Rightarrow> u64 option" where
  "healing_of r = map_option healing_sum (value_of r)"

definition hits_of :: "error + (AggregatedVector \<times> AggregatedStats) \<Rightarrow> u64 option" where
  "hits_of r = map_option hits_sum (value_of r)"

definition healing_sum_n :: "AggregatedVector \<Rightarrow> nat" where
  "healing_sum_n v = sum_list (map (\<lambda>e. unat (Healing e)) (Entries v))"

definition hits_sum_n :: "AggregatedVector \<Rightarrow> nat" where
  "hits_sum_n v = sum_list (map (\<lambda>e. unat (Hits e)) (Entries v))"

definition healing_n_of :: "error + (AggregatedVector \<times> AggregatedStats) \<Rightarrow> nat option" where
  "healing_n_of r = map_option healing_sum_n (value_of r)"

definition hits_n_of :: "error + (AggregatedVector \<times> AggregatedStats) \<Rightarrow> nat option" where
  "hits_n_of r = map_option hits_sum_n (value_of r)"

definition returns :: "error + 'a \<Rightarrow> bool" where
  "returns r = (case r of Inl e \<Rightarrow> False | Inr x \<Rightarrow> True)"

definition not_above :: "u64 option \<Rightarrow> u64 option \<Rightarrow> bool" where
  "not_above r' r = (case (r', r) of (Some x', Some x) \<Rightarrow> x' \<le> x | _ \<Rightarrow> False)"

definition casts_absent :: "AggregatedVector \<Rightarrow> bool" where
  "casts_absent v = list_all (\<lambda>e. Casts e = None) (Entries v)"

text \<open>
  The records of a list of skills, skill after skill; the records of the agents that
  satisfy a predicate; the agents that the filter of the object lets through; and the
  healing and the ticks of a list of records, added up as the source adds them, in 64
  bits.
\<close>

definition records_of :: "(u32 \<times> SkillStats) list \<Rightarrow> (u64 \<times> AgentStats) list" where
  "records_of skills = concat (map (\<lambda>sk. AgentsHealing (snd sk)) skills)"

definition pick :: "(u64 \<Rightarrow> bool) \<Rightarrow> (u64 \<times> AgentStats) list \<Rightarrow> (u64 \<times> AgentStats) list" where
  "pick P xs = filter (\<lambda>r. P (fst r)) xs"

definition passes :: "HealingStats \<Rightarrow> HealWindowOptions \<Rightarrow> u64 \<Rightarrow> bool" where
  "passes src opts agentId \<longleftrightarrow> \<not> Filter src opts agentId"

definition healing_w :: "(u64 \<times> AgentStats) list \<Rightarrow> u64" where
  "healing_w xs = sum_list (map (\<lambda>r. TotalHealing (snd r)) xs)"

definition ticks_w :: "(u64 \<times> AgentStats) list \<Rightarrow> u64" where
  "ticks_w xs = sum_list (map (\<lambda>r. Ticks (snd r)) xs)"

text \<open>The same sums as natural numbers, that is, without the wrap-around at \<open>2 ^ 64\<close>.\<close>

definition healing_n :: "(u64 \<times> AgentStats) list \<Rightarrow> nat" where
  "healing_n xs = sum_list (map (\<lambda>r. unat (TotalHealing (snd r))) xs)"

definition ticks_n :: "(u64 \<times> AgentStats) list \<Rightarrow> nat" where
  "ticks_n xs = sum_list (map (\<lambda>r. unat (Ticks (snd r))) xs)"

definition healing_volume :: "HealingStats \<Rightarrow> nat" where
  "healing_volume src = healing_n (records_of (SkillsHealing src))"

definition hits_volume :: "HealingStats \<Rightarrow> nat" where
  "hits_volume src = ticks_n (records_of (SkillsHealing src))"

text \<open>The skills that the skill table classifies as indirect healing, and the others.\<close>

definition indirect_skills :: "SkillTable \<Rightarrow> (u32 \<times> SkillStats) list \<Rightarrow> (u32 \<times> SkillStats) list" where
  "indirect_skills tbl skills =
     filter (\<lambda>sk. IsSkillIndirectHealing tbl (fst sk) (SkillName (snd sk))) skills"

definition direct_skills :: "SkillTable \<Rightarrow> (u32 \<times> SkillStats) list \<Rightarrow> (u32 \<times> SkillStats) list" where
  "direct_skills tbl skills =
     filter (\<lambda>sk. \<not> IsSkillIndirectHealing tbl (fst sk) (SkillName (snd sk))) skills"

text \<open>
  The healing and the ticks of the indirect skills, from the agents that pass the filter
  (what \<^verbatim>\<open>GetSkills\<close> collects in \<^verbatim>\<open>totalIndirectHealing\<close> and
  \<^verbatim>\<open>totalIndirectTicks\<close>), and from one agent (what \<^verbatim>\<open>GetAgentDetails\<close> collects).
\<close>

definition indirect_healing :: "SkillTable \<Rightarrow> HealingStats \<Rightarrow> HealWindowOptions \<Rightarrow> u64" where
  "indirect_healing tbl src opts =
     healing_w (pick (passes src opts) (records_of (indirect_skills tbl (SkillsHealing src))))"

definition indirect_ticks :: "SkillTable \<Rightarrow> HealingStats \<Rightarrow> HealWindowOptions \<Rightarrow> u64" where
  "indirect_ticks tbl src opts =
     ticks_w (pick (passes src opts) (records_of (indirect_skills tbl (SkillsHealing src))))"

definition agent_indirect_healing :: "SkillTable \<Rightarrow> HealingStats \<Rightarrow> u64 \<Rightarrow> u64" where
  "agent_indirect_healing tbl src pAgentId =
     healing_w (pick (\<lambda>k. k = pAgentId) (records_of (indirect_skills tbl (SkillsHealing src))))"

definition agent_indirect_ticks :: "SkillTable \<Rightarrow> HealingStats \<Rightarrow> u64 \<Rightarrow> u64" where
  "agent_indirect_ticks tbl src pAgentId =
     ticks_w (pick (\<lambda>k. k = pAgentId) (records_of (indirect_skills tbl (SkillsHealing src))))"

text \<open>
  The agents that the filter of index \<open>i\<close> of \<^verbatim>\<open>GetGroupFilterTotals\<close> lets through, and
  the entry of index \<open>i\<close> once the agents of a list have been added to it.
\<close>

definition group_pass :: "HealingStats \<Rightarrow> nat \<Rightarrow> u64 \<Rightarrow> bool" where
  "group_pass src i agentId =
     (case fakeOptions_switch (GroupFilter_cast i) of
        Inl e \<Rightarrow> False
      | Inr fakeOptions \<Rightarrow> \<not> FilterInternal src (Agents src agentId) fakeOptions)"

definition group_total ::
  "HealingStats \<Rightarrow> (u64 \<times> AgentStats) list \<Rightarrow> nat \<Rightarrow> AggregatedStatsEntry \<Rightarrow> AggregatedStatsEntry" where
  "group_total src m i e =
     e\<lparr>Healing := Healing e + healing_w (pick (group_pass src i) m),
       Hits := Hits e + ticks_w (pick (group_pass src i) m)\<rparr>"

definition group_entry :: "HealingStats \<Rightarrow> nat \<Rightarrow> string \<Rightarrow> AggregatedStatsEntry" where
  "group_entry src i name =
     \<lparr>Id = 0, EntryName = name,
      Healing = healing_w (pick (group_pass src i) (records_of (SkillsHealing src))),
      Hits = ticks_w (pick (group_pass src i) (records_of (SkillsHealing src))),
      Casts = None\<rparr>"

text \<open>
  The invariant of the time stamps, where 0 stands for an event that has not occurred: no
  time stamp that has been set is before \<^verbatim>\<open>EnteredCombatTime\<close>. And the combat time of the
  specification, \<open>(end - enteredCombat) / 1000\<close>, as a rational number.
\<close>

definition timestamps_ok :: "HealingStats \<Rightarrow> bool" where
  "timestamps_ok src \<longleftrightarrow>
     (ExitedCombatTime src \<noteq> 0 \<longrightarrow> EnteredCombatTime src \<le> ExitedCombatTime src)
     \<and> (LastHealEvent src \<noteq> 0 \<longrightarrow> EnteredCombatTime src \<le> LastHealEvent src)
     \<and> (LastDamageEvent src \<noteq> 0 \<longrightarrow> EnteredCombatTime src \<le> LastDamageEvent src)"

definition combat_time_exact :: "AggregatedStats \<Rightarrow> rat" where
  "combat_time_exact s =
     (of_nat (unat (GetCombatTime_end s)) - of_nat (unat (EnteredCombatTime (mySourceData s))))
       / 1000"

text \<open>The second configuration has every exclusion flag that the first one has.\<close>

definition excludes_more :: "HealWindowOptions \<Rightarrow> HealWindowOptions \<Rightarrow> bool" where
  "excludes_more c c' \<longleftrightarrow>
     (ExcludeGroup c \<longrightarrow> ExcludeGroup c') \<and> (ExcludeOffGroup c \<longrightarrow> ExcludeOffGroup c')
     \<and> (ExcludeOffSquad c \<longrightarrow> ExcludeOffSquad c') \<and> (ExcludeMinions c \<longrightarrow> ExcludeMinions c')
     \<and> (ExcludeUnmapped c \<longrightarrow> ExcludeUnmapped c')"

section \<open>Example snapshots\<close>

text \<open>
  The scenario of the specification: the local subgroup is 1; agent 1 (subgroup 1) healed
  100 in 10 ticks with skill 1 and 50 in 5 ticks with skill 2, which is indirect healing;
  agent 2 (subgroup 2) healed 30 in 3 ticks with skill 1; agent 3, who is not in the agent
  map, healed 5 in 1 tick with skill 1. The combat began at 1000 ms and ended at 3000 ms,
  with the last heal at 2800 ms and the last damage at 2900 ms.
\<close>

definition scenario_src :: HealingStats where
  "scenario_src =
     \<lparr>Agents = [1 \<mapsto> \<lparr>Name = ''A'', Subgroup = 1, IsMinion = False\<rparr>,
                 2 \<mapsto> \<lparr>Name = ''B'', Subgroup = 2, IsMinion = False\<rparr>],
      SkillsHealing =
        [(1, \<lparr>SkillName = ''S1'',
              AgentsHealing = [(1, \<lparr>TotalHealing = 100, Ticks = 10\<rparr>),
                               (2, \<lparr>TotalHealing = 30, Ticks = 3\<rparr>),
                               (3, \<lparr>TotalHealing = 5, Ticks = 1\<rparr>)]\<rparr>),
         (2, \<lparr>SkillName = ''S2'',
              AgentsHealing = [(1, \<lparr>TotalHealing = 50, Ticks = 5\<rparr>)]\<rparr>)],
      SubGroup = 1,
      EnteredCombatTime = 1000, ExitedCombatTime = 3000, LastHealEvent = 2800,
      LastDamageEvent = 2900\<rparr>"

definition scenario_tbl :: SkillTable where
  "scenario_tbl = \<lparr>IsSkillIndirectHealing = (\<lambda>skillId name. skillId = 2),
                   IndirectHealingSkillId = 0\<rparr>"

definition scenario_opts :: HealWindowOptions where
  "scenario_opts =
     \<lparr>ExcludeGroup = False, ExcludeOffGroup = True, ExcludeOffSquad = False,
      ExcludeMinions = False, ExcludeUnmapped = True,
      SortOrderChoice = SortOrder_DescendingSize, DataSourceChoice = DataSource_Skills,
      CombatEndConditionChoice = CombatEndCondition_CombatExit\<rparr>"

text \<open>
  A snapshot whose healing does not fit in 64 bits: agent 1, in the local subgroup,
  healed \<open>2 ^ 64 - 1\<close> and agent 2, in another subgroup of the squad, healed 1.
\<close>

definition overflow_src :: HealingStats where
  "overflow_src =
     \<lparr>Agents = [1 \<mapsto> \<lparr>Name = ''A'', Subgroup = 1, IsMinion = False\<rparr>,
                 2 \<mapsto> \<lparr>Name = ''B'', Subgroup = 2, IsMinion = False\<rparr>],
      SkillsHealing =
        [(1, \<lparr>SkillName = ''S1'',
              AgentsHealing = [(1, \<lparr>TotalHealing = 18446744073709551615, Ticks = 1\<rparr>),
                               (2, \<lparr>TotalHealing = 1, Ticks = 1\<rparr>)]\<rparr>)],
      SubGroup = 1,
      EnteredCombatTime = 1000, ExitedCombatTime = 3000, LastHealEvent = 2800,
      LastDamageEvent = 2900\<rparr>"

definition no_exclusion :: HealWindowOptions where
  "no_exclusion =
     \<lparr>ExcludeGroup = False, ExcludeOffGroup = False, ExcludeOffSquad = False,
      ExcludeMinions = False, ExcludeUnmapped = False,
      SortOrderChoice = SortOrder_DescendingSize, DataSourceChoice = DataSource_Skills,
      CombatEndConditionChoice = CombatEndCondition_CombatExit\<rparr>"

text \<open>
  An encounter without groups: the local subgroup is 0 and so is the subgroup of the one
  agent. The options exclude the own group and nothing else.
\<close>

definition ungrouped_src :: HealingStats where
  "ungrouped_src =
     \<lparr>Agents = [1 \<mapsto> \<lparr>Name = ''A'', Subgroup = 0, IsMinion = False\<rparr>],
      SkillsHealing =
        [(1, \<lparr>SkillName = ''S1'',
              AgentsHealing = [(1, \<lparr>TotalHealing = 100, Ticks = 10\<rparr>)]\<rparr>)],
      SubGroup = 0,
      EnteredCombatTime = 1000, ExitedCombatTime = 3000, LastHealEvent = 2800,
      LastDamageEvent = 2900\<rparr>"

definition exclude_group :: HealWindowOptions where
  "exclude_group =
     \<lparr>ExcludeGroup = True, ExcludeOffGroup = False, ExcludeOffSquad = False,
      ExcludeMinions = False, ExcludeUnmapped = False,
      SortOrderChoice = SortOrder_DescendingSize, DataSourceChoice = DataSource_Skills,
      CombatEndConditionChoice = CombatEndCondition_CombatExit\<rparr>"

text \<open>
  A snapshot where one agent healed \<open>2 ^ 63\<close> with each of two skills, neither of them
  indirect healing: the healing of the agent does not fit in 64 bits.
\<close>

definition two_skills_src :: HealingStats where
  "two_skills_src =
     \<lparr>Agents = [1 \<mapsto> \<lparr>Name = ''A'', Subgroup = 1, IsMinion = False\<rparr>],
      SkillsHealing =
        [(1, \<lparr>SkillName = ''S1'',
              AgentsHealing = [(1, \<lparr>TotalHealing = 9223372036854775808, Ticks = 1\<rparr>)]\<rparr>),
         (3, \<lparr>SkillName = ''S3'',
              AgentsHealing = [(1, \<lparr>TotalHealing = 9223372036854775808, Ticks = 1\<rparr>)]\<rparr>)],
      SubGroup = 1,
      EnteredCombatTime = 1000, ExitedCombatTime = 3000, LastHealEvent = 2800,
      LastDamageEvent = 2900\<rparr>"

text \<open>
  The scenario of the specification with time stamps of thirteen digits: the combat began
  at 1700000000000 ms and ended 1500 ms later, with the last heal after 1200 ms and the last
  damage after 1400 ms.
\<close>

definition late_src :: HealingStats where
  "late_src =
     scenario_src\<lparr>EnteredCombatTime := 1700000000000, ExitedCombatTime := 1700000001500,
                  LastHealEvent := 1700000001200, LastDamageEvent := 1700000001400\<rparr>"

section \<open>Properties of the operations\<close>

subsection \<open>What the loops add up\<close>

text \<open>
  Each loop adds to its table, or to its running sums, the records of the agents that
  pass its test: every sum of a table is the sum of such a list of records.
\<close>

lemma healing_w_simps [simp]:
  "healing_w [] = 0" "healing_w (r # xs) = TotalHealing (snd r) + healing_w xs"
  "healing_w (xs @ ys) = healing_w xs + healing_w ys"
  by (simp_all add: healing_w_def)

lemma ticks_w_simps [simp]:
  "ticks_w [] = 0" "ticks_w (r # xs) = Ticks (snd r) + ticks_w xs"
  "ticks_w (xs @ ys) = ticks_w xs + ticks_w ys"
  by (simp_all add: ticks_w_def)

lemma pick_simps [simp]:
  "pick P [] = []"
  "pick P (r # xs) = (if P (fst r) then r # pick P xs else pick P xs)"
  "pick P (xs @ ys) = pick P xs @ pick P ys"
  by (simp_all add: pick_def)

lemma records_of_simps [simp]:
  "records_of [] = []"
  "records_of (sk # sks) = AgentsHealing (snd sk) @ records_of sks"
  by (simp_all add: records_of_def)

lemma indirect_skills_simps [simp]:
  "indirect_skills tbl [] = []"
  "indirect_skills tbl (sk # sks) =
     (if IsSkillIndirectHealing tbl (fst sk) (SkillName (snd sk))
      then sk # indirect_skills tbl sks else indirect_skills tbl sks)"
  by (simp_all add: indirect_skills_def)

lemma direct_skills_simps [simp]:
  "direct_skills tbl [] = []"
  "direct_skills tbl (sk # sks) =
     (if IsSkillIndirectHealing tbl (fst sk) (SkillName (snd sk))
      then direct_skills tbl sks else sk # direct_skills tbl sks)"
  by (simp_all add: direct_skills_def)

lemma GetSkills_agents_sum:
  "GetSkills_agents src opts xs (h, t) =
     (h + healing_w (pick (passes src opts) xs), t + ticks_w (pick (passes src opts) xs))"
  by (induction xs arbitrary: h t) (auto simp: add.assoc passes_def)

lemma healing_sum_Add [simp]:
  "healing_sum (Add v i n h t c) = healing_sum v + h"
  "hits_sum (Add v i n h t c) = hits_sum v + t"
  by (simp_all add: healing_sum_def hits_sum_def Add_def)

lemma healing_sum_new [simp]:
  "healing_sum AggregatedVector_new = 0" "hits_sum AggregatedVector_new = 0"
  by (simp_all add: healing_sum_def hits_sum_def AggregatedVector_new_def)

lemma split_skills:
  "healing_w (pick P (records_of sks)) =
     healing_w (pick P (records_of (direct_skills tbl sks)))
       + healing_w (pick P (records_of (indirect_skills tbl sks)))"
  "ticks_w (pick P (records_of sks)) =
     ticks_w (pick P (records_of (direct_skills tbl sks)))
       + ticks_w (pick P (records_of (indirect_skills tbl sks)))"
  by (induction sks; simp add: add.assoc add.left_commute)+

lemma GetSkills_loop_sum:
  "fst (snd (GetSkills_loop tbl src opts dbg sks (v, ih, it))) =
     ih + healing_w (pick (passes src opts) (records_of (indirect_skills tbl sks)))"
  "snd (snd (GetSkills_loop tbl src opts dbg sks (v, ih, it))) =
     it + ticks_w (pick (passes src opts) (records_of (indirect_skills tbl sks)))"
  "healing_sum (fst (GetSkills_loop tbl src opts dbg sks (v, ih, it))) =
     healing_sum v
       + healing_w (pick (passes src opts)
           (records_of (if dbg then sks else direct_skills tbl sks)))"
  "hits_sum (fst (GetSkills_loop tbl src opts dbg sks (v, ih, it))) =
     hits_sum v
       + ticks_w (pick (passes src opts)
           (records_of (if dbg then sks else direct_skills tbl sks)))"
  by (induction sks arbitrary: v ih it; auto simp: GetSkills_agents_sum add.assoc)+

lemma add_indirect_sum:
  "healing_sum (add_indirect tbl (v, ih, it)) = healing_sum v + ih"
  "hits_sum (add_indirect tbl (v, ih, it)) = hits_sum v + it"
  by (auto simp: add_indirect_def)


lemma GetAgents_loop_sums:
  "healing_sum (GetAgents_loop src opts dbg xs v) = healing_sum v + healing_w (pick (passes src opts) xs)"
  "hits_sum (GetAgents_loop src opts dbg xs v) = hits_sum v + ticks_w (pick (passes src opts) xs)"
  by (induction xs arbitrary: v; auto simp: Let_def Filter_it_def Filter_def passes_def add.assoc)+

lemma GetSkillDetails_loop_eq:
  "GetSkillDetails_loop src opts dbg xs v = GetAgents_loop src opts dbg xs v"
  by (induction xs arbitrary: v) (auto simp: Let_def)

lemma emplace_add_sum:
  "healing_w (pick P (emplace_add k a m)) =
     (if P k then TotalHealing a else 0) + healing_w (pick P m)"
  "ticks_w (pick P (emplace_add k a m)) =
     (if P k then Ticks a else 0) + ticks_w (pick P m)"
  by (induction m; auto simp: add.commute add.left_commute)+

lemma GetAllAgents_agents_sum:
  "healing_w (pick P (GetAllAgents_agents xs m)) = healing_w (pick P m) + healing_w (pick P xs)"
  "ticks_w (pick P (GetAllAgents_agents xs m)) = ticks_w (pick P m) + ticks_w (pick P xs)"
  by (induction xs arbitrary: m; auto simp: emplace_add_sum add.commute add.left_commute)+

lemma GetAllAgents_skills_sum:
  "healing_w (pick P (GetAllAgents_skills sks m)) =
     healing_w (pick P m) + healing_w (pick P (records_of sks))"
  "ticks_w (pick P (GetAllAgents_skills sks m)) =
     ticks_w (pick P m) + ticks_w (pick P (records_of sks))"
  by (induction sks arbitrary: m; auto simp: GetAllAgents_agents_sum add.assoc)+

lemma GetAllAgents_build_sum:
  "healing_w (pick P (GetAllAgents_build src)) = healing_w (pick P (records_of (SkillsHealing src)))"
  "ticks_w (pick P (GetAllAgents_build src)) = ticks_w (pick P (records_of (SkillsHealing src)))"
  by (simp_all add: GetAllAgents_build_def GetAllAgents_skills_sum)

lemma GetAgentDetails_agents_sum:
  "fst (snd (GetAgentDetails_agents tbl dbg p skillId skill xs st)) =
     fst (snd st) + (if IsSkillIndirectHealing tbl skillId (SkillName skill)
                     then healing_w (pick (\<lambda>k. k = p) xs) else 0)"
  "snd (snd (GetAgentDetails_agents tbl dbg p skillId skill xs st)) =
     snd (snd st) + (if IsSkillIndirectHealing tbl skillId (SkillName skill)
                     then ticks_w (pick (\<lambda>k. k = p) xs) else 0)"
  "healing_sum (fst (GetAgentDetails_agents tbl dbg p skillId skill xs st)) =
     healing_sum (fst st)
       + (if IsSkillIndirectHealing tbl skillId (SkillName skill) \<and> \<not> dbg then 0
          else healing_w (pick (\<lambda>k. k = p) xs))"
  "hits_sum (fst (GetAgentDetails_agents tbl dbg p skillId skill xs st)) =
     hits_sum (fst st)
       + (if IsSkillIndirectHealing tbl skillId (SkillName skill) \<and> \<not> dbg then 0
          else ticks_w (pick (\<lambda>k. k = p) xs))"
  by (induction xs arbitrary: st; auto simp: add.assoc)+

lemma GetAgentDetails_skills_Cons:
  "GetAgentDetails_skills tbl dbg p (sk # rest) st =
     GetAgentDetails_skills tbl dbg p rest
       (GetAgentDetails_agents tbl dbg p (fst sk) (snd sk) (AgentsHealing (snd sk)) st)"
  by (cases sk) simp

lemma GetAgentDetails_skills_sum:
  "fst (snd (GetAgentDetails_skills tbl dbg p sks st)) =
     fst (snd st) + healing_w (pick (\<lambda>k. k = p) (records_of (indirect_skills tbl sks)))"
  "snd (snd (GetAgentDetails_skills tbl dbg p sks st)) =
     snd (snd st) + ticks_w (pick (\<lambda>k. k = p) (records_of (indirect_skills tbl sks)))"
  "healing_sum (fst (GetAgentDetails_skills tbl dbg p sks st)) =
     healing_sum (fst st)
       + healing_w (pick (\<lambda>k. k = p) (records_of (if dbg then sks else direct_skills tbl sks)))"
  "hits_sum (fst (GetAgentDetails_skills tbl dbg p sks st)) =
     hits_sum (fst st)
       + ticks_w (pick (\<lambda>k. k = p) (records_of (if dbg then sks else direct_skills tbl sks)))"
  by (induction sks arbitrary: st; simp add: GetAgentDetails_skills_Cons GetAgentDetails_agents_sum add.assoc)+

lemma add_indirect_sum':
  "healing_sum (add_indirect tbl st) = healing_sum (fst st) + fst (snd st)"
  "hits_sum (add_indirect tbl st) = hits_sum (fst st) + snd (snd st)"
  by (cases st; auto simp: add_indirect_def)+


lemma upt_4: "[0..<4] = [0, 1, 2, 3]"
  by (simp add: upt_rec)

lemma group_total_Nil [simp]: "group_total src [] i e = e"
  by (simp add: group_total_def)

lemma group_total_Cons:
  "group_total src (r # m) i e =
     group_total src m i
       (if group_pass src i (fst r)
        then e\<lparr>Healing := Healing e + TotalHealing (snd r), Hits := Hits e + Ticks (snd r)\<rparr>
        else e)"
  by (simp add: group_total_def add.assoc)

lemma GetGroupFilterTotals_filters_unrolled:
  "GetGroupFilterTotals_filters src (Agents src k) agent [0..<4] [e0, e1, e2, e3] =
     Inr [if group_pass src 0 k
          then e0\<lparr>Healing := Healing e0 + TotalHealing agent, Hits := Hits e0 + Ticks agent\<rparr>
          else e0,
          if group_pass src 1 k
          then e1\<lparr>Healing := Healing e1 + TotalHealing agent, Hits := Hits e1 + Ticks agent\<rparr>
          else e1,
          if group_pass src 2 k
          then e2\<lparr>Healing := Healing e2 + TotalHealing agent, Hits := Hits e2 + Ticks agent\<rparr>
          else e2,
          if group_pass src 3 k
          then e3\<lparr>Healing := Healing e3 + TotalHealing agent, Hits := Hits e3 + Ticks agent\<rparr>
          else e3]"
  by (simp add: upt_4 group_pass_def GroupFilter_cast_def fakeOptions_switch_def)

lemma GetGroupFilterTotals_agents_eq:
  "GetGroupFilterTotals_agents src m [e0, e1, e2, e3] =
     Inr [group_total src m 0 e0, group_total src m 1 e1,
          group_total src m 2 e2, group_total src m 3 e3]"
proof (induction m arbitrary: e0 e1 e2 e3)
  case Nil
  show ?case by simp
next
  case (Cons r m)
  obtain k agent where r: "r = (k, agent)" by (cases r)
  show ?case
    unfolding r GetGroupFilterTotals_agents.simps GetGroupFilterTotals_filters_unrolled
    by (simp add: Cons.IH group_total_Cons)
qed

lemma group_filter_totals_view_eq:
  "group_filter_totals_view src =
     Inr \<lparr>Entries = [group_entry src 0 ''Group'', group_entry src 1 ''Squad'',
                     group_entry src 2 ''All (Excluding Summons)'',
                     group_entry src 3 ''All (Including Summons)''],
          HighestHealing =
            max (max (max (max 0 (Healing (group_entry src 0 ''Group'')))
                          (Healing (group_entry src 1 ''Squad'')))
                     (Healing (group_entry src 2 ''All (Excluding Summons)'')))
                (Healing (group_entry src 3 ''All (Including Summons)''))\<rparr>"
  by (simp add: group_filter_totals_view_def GetGroupFilterTotals_build_def
      GROUP_FILTER_STRING_def Add_def AggregatedVector_new_def Let_def
      GetGroupFilterTotals_agents_eq group_total_def group_entry_def GetAllAgents_build_sum)


subsection \<open>Sums that do not wrap around\<close>

lemma healing_n_simps [simp]:
  "healing_n [] = 0" "healing_n (r # xs) = unat (TotalHealing (snd r)) + healing_n xs"
  "healing_n (xs @ ys) = healing_n xs + healing_n ys"
  by (simp_all add: healing_n_def)

lemma ticks_n_simps [simp]:
  "ticks_n [] = 0" "ticks_n (r # xs) = unat (Ticks (snd r)) + ticks_n xs"
  "ticks_n (xs @ ys) = ticks_n xs + ticks_n ys"
  by (simp_all add: ticks_n_def)

lemma unat_sum_no_wrap:
  fixes x y :: u64
  assumes "unat x + n < 2 ^ 64" and "unat y = n"
  shows "unat (x + y) = unat x + n"
  using assms by (simp add: unat_add_lem [THEN iffD1])

lemma unat_healing_w: "healing_n xs < 2 ^ 64 \<Longrightarrow> unat (healing_w xs) = healing_n xs"
  by (induction xs) (auto simp: unat_sum_no_wrap)

lemma unat_ticks_w: "ticks_n xs < 2 ^ 64 \<Longrightarrow> unat (ticks_w xs) = ticks_n xs"
  by (induction xs) (auto simp: unat_sum_no_wrap)

lemma healing_n_pick_mono:
  "(\<And>k. P k \<Longrightarrow> Q k) \<Longrightarrow> healing_n (pick P xs) \<le> healing_n (pick Q xs)"
  by (induction xs) (auto simp: le_SucI trans_le_add2)

lemma ticks_n_pick_mono:
  "(\<And>k. P k \<Longrightarrow> Q k) \<Longrightarrow> ticks_n (pick P xs) \<le> ticks_n (pick Q xs)"
  by (induction xs) (auto simp: le_SucI trans_le_add2)

lemma pick_True [simp]: "pick (\<lambda>k. True) xs = xs"
  by (simp add: pick_def)

lemma healing_n_pick_le: "healing_n (pick P xs) \<le> healing_n xs"
  using healing_n_pick_mono [of P "\<lambda>k. True" xs] by simp

lemma ticks_n_pick_le: "ticks_n (pick P xs) \<le> ticks_n xs"
  using ticks_n_pick_mono [of P "\<lambda>k. True" xs] by simp

lemma healing_w_pick_mono:
  assumes "\<And>k. P k \<Longrightarrow> Q k" and "healing_n xs < 2 ^ 64"
  shows "healing_w (pick P xs) \<le> healing_w (pick Q xs)"
proof -
  have q: "healing_n (pick Q xs) < 2 ^ 64"
    using healing_n_pick_le [of Q xs] assms(2) by simp
  have p: "healing_n (pick P xs) < 2 ^ 64"
    using healing_n_pick_le [of P xs] assms(2) by simp
  show ?thesis
    using healing_n_pick_mono [of P Q xs, OF assms(1)]
    by (simp add: word_le_nat_alt unat_healing_w [OF p] unat_healing_w [OF q])
qed

lemma ticks_w_pick_mono:
  assumes "\<And>k. P k \<Longrightarrow> Q k" and "ticks_n xs < 2 ^ 64"
  shows "ticks_w (pick P xs) \<le> ticks_w (pick Q xs)"
proof -
  have q: "ticks_n (pick Q xs) < 2 ^ 64"
    using ticks_n_pick_le [of Q xs] assms(2) by simp
  have p: "ticks_n (pick P xs) < 2 ^ 64"
    using ticks_n_pick_le [of P xs] assms(2) by simp
  show ?thesis
    using ticks_n_pick_mono [of P Q xs, OF assms(1)]
    by (simp add: word_le_nat_alt unat_ticks_w [OF p] unat_ticks_w [OF q])
qed

subsection \<open>The filter and its flags\<close>

lemma FilterInternal_mono:
  "excludes_more c c' \<Longrightarrow> FilterInternal src a c \<Longrightarrow> FilterInternal src a c'"
  by (auto simp: excludes_more_def FilterInternal_def split: option.splits if_splits)

lemma passes_mono: "excludes_more c c' \<Longrightarrow> passes src c' k \<Longrightarrow> passes src c k"
  using FilterInternal_mono [of c c' src "Agents src k"] by (auto simp: passes_def Filter_def)

lemma group_pass_step:
  "group_pass src 0 k \<Longrightarrow> group_pass src 1 k"
  "group_pass src 1 k \<Longrightarrow> group_pass src 2 k"
  "group_pass src 2 k \<Longrightarrow> group_pass src 3 k"
  by (auto simp: group_pass_def GroupFilter_cast_def fakeOptions_switch_def FilterInternal_def
      HealWindowOptions_default_def split: option.splits if_splits)

subsection \<open>The caches\<close>

text \<open>
  Every operation returns the value of its view, leaves the invariant of the caches in
  place and changes neither the data, nor the options, nor the debug flag.
\<close>

lemma sorted_vector_ok:
  "order \<noteq> SortOrder_Max \<Longrightarrow> \<exists>v'. sorted_vector order v = Inr v'"
  by (cases order) (auto simp: sorted_vector_def Sort_def)

lemma same_object_refl [simp]: "same_object s s"
  by (simp add: same_object_def)

lemma holds_simps [simp]:
  "holds None view" "holds (Some v) view \<longleftrightarrow> view = Inr v"
  by (simp_all add: holds_def)

lemma GetAllAgents_ok:
  assumes "cache_ok tbl s"
  shows "\<exists>s'. GetAllAgents s = (GetAllAgents_build (mySourceData s), s')
           \<and> cache_ok tbl s' \<and> same_object s s'"
  using assms
  by (cases "myAllAgents s")
     (auto simp: GetAllAgents_def cache_ok_def same_object_def Let_def)

lemma GetSkills_ok:
  assumes "cache_ok tbl s"
  shows "\<exists>v s'. GetSkills tbl s = Inr (v, s')
           \<and> skills_view tbl (mySourceData s) (myOptions s) (myDebugMode s) = Inr v
           \<and> cache_ok tbl s' \<and> same_object s s'"
proof (cases "mySkills s")
  case None
  from assms have "SortOrderChoice (myOptions s) \<noteq> SortOrder_Max"
    by (simp add: cache_ok_def)
  then obtain v where v: "skills_view tbl (mySourceData s) (myOptions s) (myDebugMode s) = Inr v"
    unfolding skills_view_def using sorted_vector_ok by blast
  with None assms show ?thesis
    by (auto simp: GetSkills_def skills_view_def cache_ok_def same_object_def)
next
  case (Some v)
  with assms show ?thesis
    by (auto simp: GetSkills_def cache_ok_def)
qed


lemma view_defined:
  assumes "SortOrderChoice opts \<noteq> SortOrder_Max"
  shows "\<exists>v. agents_view src opts dbg = Inr v"
    and "\<exists>v. skills_view tbl src opts dbg = Inr v"
    and "\<exists>t. total_view tbl src opts dbg = Inr t"
    and "\<exists>v. agent_details_view tbl src opts dbg pAgentId = Inr v"
    and "\<exists>v. skill_details_view src opts dbg pSkillId = Inr v"
proof -
  show "\<exists>v. agents_view src opts dbg = Inr v"
    unfolding agents_view_def using sorted_vector_ok [OF assms] by blast
  show sk: "\<exists>v. skills_view tbl src opts dbg = Inr v"
    unfolding skills_view_def using sorted_vector_ok [OF assms] by blast
  from sk show "\<exists>t. total_view tbl src opts dbg = Inr t"
    by (auto simp: total_view_def)
  show "\<exists>v. agent_details_view tbl src opts dbg pAgentId = Inr v"
    unfolding agent_details_view_def using sorted_vector_ok [OF assms] by blast
  show "\<exists>v. skill_details_view src opts dbg pSkillId = Inr v"
    unfolding skill_details_view_def using sorted_vector_ok [OF assms]
    by (cases "GetSkillDetails_build src opts dbg pSkillId") auto
qed

lemma cache_ok_order: "cache_ok tbl s \<Longrightarrow> SortOrderChoice (myOptions s) \<noteq> SortOrder_Max"
  by (simp add: cache_ok_def)

lemma same_object_trans: "same_object s s1 \<Longrightarrow> same_object s1 s2 \<Longrightarrow> same_object s s2"
  by (simp add: same_object_def)

lemma GetAgents_ok:
  assumes "cache_ok tbl s"
  shows "\<exists>v s'. GetAgents s = Inr (v, s')
           \<and> agents_view (mySourceData s) (myOptions s) (myDebugMode s) = Inr v
           \<and> cache_ok tbl s' \<and> same_object s s'"
proof (cases "myFilteredAgents s")
  case None
  obtain v where v: "agents_view (mySourceData s) (myOptions s) (myDebugMode s) = Inr v"
    using view_defined(1) [OF cache_ok_order [OF assms]] by blast
  obtain s1 where s1: "GetAllAgents s = (GetAllAgents_build (mySourceData s), s1)"
    "cache_ok tbl s1" "same_object s s1"
    using GetAllAgents_ok [OF assms] by blast
  have none1: "myFilteredAgents s1 = None"
    using s1(1) None by (auto simp: GetAllAgents_def Let_def split: option.splits)
  have "GetAgents s = Inr (v, s1\<lparr>myFilteredAgents := Some v\<rparr>)"
    using None s1 v by (simp add: GetAgents_def agents_view_def same_object_def)
  moreover have "cache_ok tbl (s1\<lparr>myFilteredAgents := Some v\<rparr>)"
    using s1(2,3) v by (simp add: cache_ok_def same_object_def)
  moreover have "same_object s (s1\<lparr>myFilteredAgents := Some v\<rparr>)"
    using s1(3) by (simp add: same_object_def)
  ultimately show ?thesis using v by blast
next
  case (Some v)
  with assms show ?thesis
    by (auto simp: GetAgents_def cache_ok_def)
qed

lemma GetTotal_ok:
  assumes "cache_ok tbl s"
  shows "\<exists>t s'. GetTotal tbl s = Inr (t, s')
           \<and> total_view tbl (mySourceData s) (myOptions s) (myDebugMode s) = Inr t
           \<and> cache_ok tbl s' \<and> same_object s s'"
proof (cases "myTotal s")
  case None
  obtain v s1 where s1: "GetSkills tbl s = Inr (v, s1)"
    "skills_view tbl (mySourceData s) (myOptions s) (myDebugMode s) = Inr v"
    "cache_ok tbl s1" "same_object s s1"
    using GetSkills_ok [OF assms] by blast
  let ?t = "GetTotal_build v"
  have "GetTotal tbl s = Inr (?t, s1\<lparr>myTotal := Some ?t\<rparr>)"
    using None s1 by (simp add: GetTotal_def Let_def)
  moreover have tv: "total_view tbl (mySourceData s) (myOptions s) (myDebugMode s) = Inr ?t"
    using s1(2) by (simp add: total_view_def)
  moreover have "cache_ok tbl (s1\<lparr>myTotal := Some ?t\<rparr>)"
    using s1(3,4) tv by (simp add: cache_ok_def same_object_def)
  moreover have "same_object s (s1\<lparr>myTotal := Some ?t\<rparr>)"
    using s1(4) by (simp add: same_object_def)
  ultimately show ?thesis by blast
next
  case (Some t)
  with assms show ?thesis
    by (auto simp: GetTotal_def cache_ok_def)
qed

lemma GetAgentDetails_ok:
  assumes "cache_ok tbl s"
  shows "\<exists>v s'. GetAgentDetails tbl s pAgentId = Inr (v, s')
           \<and> agent_details_view tbl (mySourceData s) (myOptions s) (myDebugMode s) pAgentId = Inr v
           \<and> cache_ok tbl s' \<and> same_object s s'"
proof (cases "myAgentsDetailed s pAgentId")
  case None
  obtain v where v:
    "agent_details_view tbl (mySourceData s) (myOptions s) (myDebugMode s) pAgentId = Inr v"
    using view_defined(4) [OF cache_ok_order [OF assms]] by blast
  let ?s' = "s\<lparr>myAgentsDetailed := (myAgentsDetailed s)(pAgentId \<mapsto> v)\<rparr>"
  have "GetAgentDetails tbl s pAgentId = Inr (v, ?s')"
    using None v by (auto simp: GetAgentDetails_def agent_details_view_def)
  moreover have "cache_ok tbl ?s'"
    using assms v by (auto simp: cache_ok_def)
  moreover have "same_object s ?s'"
    by (simp add: same_object_def)
  ultimately show ?thesis using v by blast
next
  case (Some v)
  with assms have "agent_details_view tbl (mySourceData s) (myOptions s) (myDebugMode s) pAgentId = Inr v"
    unfolding cache_ok_def by (metis holds_simps(2))
  with Some assms show ?thesis
    by (auto simp: GetAgentDetails_def)
qed

lemma GetSkillDetails_ok:
  assumes "cache_ok tbl s"
  shows "\<exists>v s'. GetSkillDetails s pSkillId = Inr (v, s')
           \<and> skill_details_view (mySourceData s) (myOptions s) (myDebugMode s) pSkillId = Inr v
           \<and> cache_ok tbl s' \<and> same_object s s'"
proof (cases "mySkillsDetailed s pSkillId")
  case None
  obtain v where v:
    "skill_details_view (mySourceData s) (myOptions s) (myDebugMode s) pSkillId = Inr v"
    using view_defined(5) [OF cache_ok_order [OF assms]] by blast
  let ?s' = "s\<lparr>mySkillsDetailed := (mySkillsDetailed s)(pSkillId \<mapsto> v)\<rparr>"
  have "GetSkillDetails s pSkillId = Inr (v, ?s')"
    using None v
    by (cases "GetSkillDetails_build (mySourceData s) (myOptions s) (myDebugMode s) pSkillId")
       (auto simp: GetSkillDetails_def skill_details_view_def)
  moreover have "cache_ok tbl ?s'"
    using assms v by (auto simp: cache_ok_def)
  moreover have "same_object s ?s'"
    by (simp add: same_object_def)
  ultimately show ?thesis using v by blast
next
  case (Some v)
  with assms have "skill_details_view (mySourceData s) (myOptions s) (myDebugMode s) pSkillId = Inr v"
    unfolding cache_ok_def by (metis holds_simps(2))
  with Some assms show ?thesis
    by (auto simp: GetSkillDetails_def)
qed


lemma GetGroupFilterTotals_ok:
  assumes "cache_ok tbl s"
  shows "\<exists>v s'. GetGroupFilterTotals s = Inr (v, s')
           \<and> group_filter_totals_view (mySourceData s) = Inr v
           \<and> cache_ok tbl s' \<and> same_object s s'"
proof (cases "myGroupFilterTotals s")
  case None
  obtain v where v: "group_filter_totals_view (mySourceData s) = Inr v"
    using group_filter_totals_view_eq by blast
  obtain s1 where s1: "GetAllAgents s = (GetAllAgents_build (mySourceData s), s1)"
    "cache_ok tbl s1" "same_object s s1"
    using GetAllAgents_ok [OF assms] by blast
  let ?s' = "s1\<lparr>myGroupFilterTotals := Some v\<rparr>"
  have "GetGroupFilterTotals s = Inr (v, ?s')"
    using None s1 v by (simp add: GetGroupFilterTotals_def group_filter_totals_view_def same_object_def)
  moreover have "cache_ok tbl ?s'"
    using s1(2,3) v by (simp add: cache_ok_def same_object_def)
  moreover have "same_object s ?s'"
    using s1(3) by (simp add: same_object_def)
  ultimately show ?thesis using v by blast
next
  case (Some v)
  with assms show ?thesis
    by (auto simp: GetGroupFilterTotals_def cache_ok_def)
qed

lemma GetDetails_ok:
  assumes "cache_ok tbl s"
  shows "\<exists>v s'. GetDetails tbl s pDataSource pId = Inr (v, s')
           \<and> agent_details_view tbl (mySourceData s) (myOptions s) (myDebugMode s) pId = Inr v
           \<and> cache_ok tbl s' \<and> same_object s s'"
proof (cases "pDataSource = DataSource_Skills")
  case True
  obtain w s1 where s1: "GetSkillDetails s (ucast pId) = Inr (w, s1)"
    "cache_ok tbl s1" "same_object s s1"
    using GetSkillDetails_ok [OF assms] by blast
  obtain v s2 where s2: "GetAgentDetails tbl s1 pId = Inr (v, s2)"
    "agent_details_view tbl (mySourceData s1) (myOptions s1) (myDebugMode s1) pId = Inr v"
    "cache_ok tbl s2" "same_object s1 s2"
    using GetAgentDetails_ok [OF s1(2)] by blast
  have "GetDetails tbl s pDataSource pId = Inr (v, s2)"
    using True s1(1) s2(1) by (simp add: GetDetails_def)
  moreover have "agent_details_view tbl (mySourceData s) (myOptions s) (myDebugMode s) pId = Inr v"
    using s2(2) s1(3) by (simp add: same_object_def)
  ultimately show ?thesis
    using s2(3) same_object_trans [OF s1(3) s2(4)] by blast
next
  case False
  then have "GetDetails tbl s pDataSource pId = GetAgentDetails tbl s pId"
    by (cases pDataSource) (simp_all add: GetDetails_def)
  then show ?thesis
    using GetAgentDetails_ok [OF assms, of pId] by simp
qed

lemma GetStats_ok:
  assumes "cache_ok tbl s"
  shows "\<exists>v s'. GetStats tbl s pDataSource = Inr (v, s') \<and> cache_ok tbl s' \<and> same_object s s'"
  using GetSkills_ok [OF assms] GetAgents_ok [OF assms] GetGroupFilterTotals_ok [OF assms]
  by (cases pDataSource) (auto simp: GetStats_def)

lemma cache_ok_constructed:
  "SortOrderChoice opts \<noteq> SortOrder_Max \<Longrightarrow> DataSourceChoice opts \<noteq> DataSource_Max \<Longrightarrow>
     cache_ok tbl (constructed src opts dbg)"
  by (simp add: cache_ok_def constructed_def)

lemma AggregatedStats_new_cache_ok:
  "AggregatedStats_new src opts dbg = Inr s \<Longrightarrow> cache_ok tbl s"
  by (auto simp: AggregatedStats_new_def cache_ok_constructed split: if_splits)

text \<open>The invariant holds in every state of an object.\<close>

lemma reachable_cache_ok: "reachable tbl s \<Longrightarrow> cache_ok tbl s"
proof (induction rule: reachable.induct)
  case (constructor src opts dbg s)
  then show ?case by (rule AggregatedStats_new_cache_ok)
next
  case (after_GetTotal s t s')
  with GetTotal_ok [of tbl s] show ?case by auto
next
  case (after_GetStats s pDataSource v s')
  with GetStats_ok [of tbl s pDataSource] show ?case by auto
next
  case (after_GetDetails s pDataSource pId v s')
  with GetDetails_ok [of tbl s pDataSource pId] show ?case by auto
next
  case (after_GetAgents s v s')
  with GetAgents_ok [of tbl s] show ?case by auto
next
  case (after_GetSkills s v s')
  with GetSkills_ok [of tbl s] show ?case by auto
next
  case (after_GetAgentDetails s pAgentId v s')
  with GetAgentDetails_ok [of tbl s pAgentId] show ?case by auto
next
  case (after_GetSkillDetails s pSkillId v s')
  with GetSkillDetails_ok [of tbl s pSkillId] show ?case by auto
next
  case (after_GetGroupFilterTotals s v s')
  with GetGroupFilterTotals_ok [of tbl s] show ?case by auto
qed

subsection \<open>Sorting keeps the entries\<close>

lemma sum_list_insert_sorted:
  "sum_list (map f (insert_sorted lt x xs)) = f x + sum_list (map f xs)"
  for f :: "'a \<Rightarrow> 'b::comm_monoid_add"
  by (induction xs) (auto simp: add.left_commute)

lemma sum_list_std_sort:
  "sum_list (map f (std_sort lt xs)) = sum_list (map f xs)"
  for f :: "'a \<Rightarrow> 'b::comm_monoid_add"
  by (induction xs) (auto simp: sum_list_insert_sorted)

lemma set_insert_sorted: "set (insert_sorted lt x xs) = insert x (set xs)"
  by (induction xs) auto

lemma set_std_sort: "set (std_sort lt xs) = set xs"
  by (induction xs) (auto simp: set_insert_sorted)

lemma sorted_vector_sums:
  assumes "sorted_vector order v = Inr v'"
  shows "healing_sum v' = healing_sum v" and "hits_sum v' = hits_sum v"
    and "casts_absent v' = casts_absent v"
  using assms
  by (cases order; auto simp: sorted_vector_def Sort_def healing_sum_def hits_sum_def
      casts_absent_def list_all_iff sum_list_std_sort set_std_sort)+

subsection \<open>The sums of the views\<close>

lemma GetSkills_build_sums:
  "healing_sum (GetSkills_build tbl src opts dbg) =
     healing_w (pick (passes src opts) (records_of (SkillsHealing src)))
       + (if dbg then indirect_healing tbl src opts else 0)"
  "hits_sum (GetSkills_build tbl src opts dbg) =
     ticks_w (pick (passes src opts) (records_of (SkillsHealing src)))
       + (if dbg then indirect_ticks tbl src opts else 0)"
  using split_skills [of "passes src opts" "SkillsHealing src" tbl]
  by (simp_all add: GetSkills_build_def add_indirect_sum' GetSkills_loop_sum
      indirect_healing_def indirect_ticks_def)

lemma skills_view_sums:
  assumes "skills_view tbl src opts dbg = Inr v"
  shows "healing_sum v =
           healing_w (pick (passes src opts) (records_of (SkillsHealing src)))
             + (if dbg then indirect_healing tbl src opts else 0)"
    and "hits_sum v =
           ticks_w (pick (passes src opts) (records_of (SkillsHealing src)))
             + (if dbg then indirect_ticks tbl src opts else 0)"
  using assms sorted_vector_sums [of "SortOrderChoice opts" "GetSkills_build tbl src opts dbg" v]
  by (simp_all add: skills_view_def GetSkills_build_sums)

lemma agents_view_sums:
  assumes "agents_view src opts dbg = Inr v"
  shows "healing_sum v = healing_w (pick (passes src opts) (records_of (SkillsHealing src)))"
    and "hits_sum v = ticks_w (pick (passes src opts) (records_of (SkillsHealing src)))"
  using assms
    sorted_vector_sums [of "SortOrderChoice opts"
      "GetAgents_build src opts dbg (GetAllAgents_build src)" v]
  by (simp_all add: agents_view_def GetAgents_build_def GetAgents_loop_sums GetAllAgents_build_sum)

lemma GetTotal_loop_sum:
  "GetTotal_loop es (h, t) = (h + sum_list (map Healing es), t + sum_list (map Hits es))"
  by (induction es arbitrary: h t) (auto simp: add.assoc)

lemma GetTotal_build_sums:
  "Healing (GetTotal_build v) = healing_sum v" "Hits (GetTotal_build v) = hits_sum v"
  "Casts (GetTotal_build v) = None" "Id (GetTotal_build v) = 0"
  by (simp_all add: GetTotal_build_def GetTotal_loop_sum healing_sum_def hits_sum_def)

lemma total_view_sums:
  assumes "total_view tbl src opts dbg = Inr t"
  shows "\<exists>v. skills_view tbl src opts dbg = Inr v \<and> Healing t = healing_sum v
           \<and> Hits t = hits_sum v \<and> Casts t = None"
  using assms by (auto simp: total_view_def GetTotal_build_sums split: sum.splits)

lemma GetAgentDetails_build_sums:
  "healing_sum (GetAgentDetails_build tbl src dbg p) =
     healing_w (pick (\<lambda>k. k = p) (records_of (SkillsHealing src)))
       + (if dbg then agent_indirect_healing tbl src p else 0)"
  "hits_sum (GetAgentDetails_build tbl src dbg p) =
     ticks_w (pick (\<lambda>k. k = p) (records_of (SkillsHealing src)))
       + (if dbg then agent_indirect_ticks tbl src p else 0)"
  using split_skills [of "\<lambda>k. k = p" "SkillsHealing src" tbl]
  by (simp_all add: GetAgentDetails_build_def add_indirect_sum' GetAgentDetails_skills_sum
      agent_indirect_healing_def agent_indirect_ticks_def)

lemma agent_details_view_sums:
  assumes "agent_details_view tbl src opts dbg p = Inr v"
  shows "healing_sum v =
           healing_w (pick (\<lambda>k. k = p) (records_of (SkillsHealing src)))
             + (if dbg then agent_indirect_healing tbl src p else 0)"
    and "hits_sum v =
           ticks_w (pick (\<lambda>k. k = p) (records_of (SkillsHealing src)))
             + (if dbg then agent_indirect_ticks tbl src p else 0)"
  using assms
    sorted_vector_sums [of "SortOrderChoice opts" "GetAgentDetails_build tbl src dbg p" v]
  by (simp_all add: agent_details_view_def GetAgentDetails_build_sums)

lemma skill_details_view_sums:
  assumes "skill_details_view src opts dbg k = Inr v"
  shows "healing_sum v =
           (case map_of (SkillsHealing src) k of
              None \<Rightarrow> 0
            | Some skill \<Rightarrow> healing_w (pick (passes src opts) (AgentsHealing skill)))"
    and "hits_sum v =
           (case map_of (SkillsHealing src) k of
              None \<Rightarrow> 0
            | Some skill \<Rightarrow> ticks_w (pick (passes src opts) (AgentsHealing skill)))"
proof -
  show "healing_sum v =
           (case map_of (SkillsHealing src) k of
              None \<Rightarrow> 0
            | Some skill \<Rightarrow> healing_w (pick (passes src opts) (AgentsHealing skill)))"
  proof (cases "map_of (SkillsHealing src) k")
    case None
    with assms show ?thesis
      by (auto simp: skill_details_view_def GetSkillDetails_build_def)
  next
    case (Some skill)
    with assms show ?thesis
      using sorted_vector_sums(1) [of "SortOrderChoice opts"
          "GetAgents_loop src opts dbg (AgentsHealing skill) AggregatedVector_new" v]
      by (simp add: skill_details_view_def GetSkillDetails_build_def GetSkillDetails_loop_eq
          GetAgents_loop_sums)
  qed
  show "hits_sum v =
           (case map_of (SkillsHealing src) k of
              None \<Rightarrow> 0
            | Some skill \<Rightarrow> ticks_w (pick (passes src opts) (AgentsHealing skill)))"
  proof (cases "map_of (SkillsHealing src) k")
    case None
    with assms show ?thesis
      by (auto simp: skill_details_view_def GetSkillDetails_build_def)
  next
    case (Some skill)
    with assms show ?thesis
      using sorted_vector_sums(2) [of "SortOrderChoice opts"
          "GetAgents_loop src opts dbg (AgentsHealing skill) AggregatedVector_new" v]
      by (simp add: skill_details_view_def GetSkillDetails_build_def GetSkillDetails_loop_eq
          GetAgents_loop_sums)
  qed
qed

subsection \<open>No entry has casts\<close>

lemma casts_absent_simps [simp]:
  "casts_absent AggregatedVector_new"
  "casts_absent (Add v i n h t None) = casts_absent v"
  by (simp_all add: casts_absent_def AggregatedVector_new_def Add_def)

lemma casts_absent_GetAgents_loop:
  "casts_absent v \<Longrightarrow> casts_absent (GetAgents_loop src opts dbg xs v)"
  by (induction xs arbitrary: v) (auto simp: Let_def)

lemma casts_absent_GetSkills_loop:
  "casts_absent v \<Longrightarrow> casts_absent (fst (GetSkills_loop tbl src opts dbg sks (v, ih, it)))"
  by (induction sks arbitrary: v ih it) (auto split: prod.splits)

lemma casts_absent_add_indirect:
  "casts_absent (fst st) \<Longrightarrow> casts_absent (add_indirect tbl st)"
  by (cases st) (auto simp: add_indirect_def)

lemma casts_absent_GetAgentDetails_agents:
  "casts_absent (fst st) \<Longrightarrow>
     casts_absent (fst (GetAgentDetails_agents tbl dbg p skillId skill xs st))"
  by (induction xs arbitrary: st) auto

lemma casts_absent_GetAgentDetails_skills:
  "casts_absent (fst st) \<Longrightarrow> casts_absent (fst (GetAgentDetails_skills tbl dbg p sks st))"
  by (induction sks arbitrary: st)
     (simp_all add: GetAgentDetails_skills_Cons casts_absent_GetAgentDetails_agents)

lemma casts_absent_builds:
  "casts_absent (GetAgents_build src opts dbg m)"
  "casts_absent (GetSkills_build tbl src opts dbg)"
  "casts_absent (GetAgentDetails_build tbl src dbg p)"
  "GetSkillDetails_build src opts dbg k = Some b \<Longrightarrow> casts_absent b"
  by (auto simp: GetAgents_build_def GetSkills_build_def GetAgentDetails_build_def
      GetSkillDetails_build_def GetSkillDetails_loop_eq
      intro!: casts_absent_GetAgents_loop casts_absent_add_indirect casts_absent_GetSkills_loop
        casts_absent_GetAgentDetails_skills
      split: option.splits)

lemma casts_absent_views:
  "agents_view src opts dbg = Inr v \<Longrightarrow> casts_absent v"
  "skills_view tbl src opts dbg = Inr v \<Longrightarrow> casts_absent v"
  "agent_details_view tbl src opts dbg p = Inr v \<Longrightarrow> casts_absent v"
  "skill_details_view src opts dbg k = Inr v \<Longrightarrow> casts_absent v"
  "group_filter_totals_view src = Inr v \<Longrightarrow> casts_absent v"
proof -
  show "agents_view src opts dbg = Inr v \<Longrightarrow> casts_absent v"
    unfolding agents_view_def
    by (drule sorted_vector_sums(3)) (simp add: casts_absent_builds)
  show "skills_view tbl src opts dbg = Inr v \<Longrightarrow> casts_absent v"
    unfolding skills_view_def
    by (drule sorted_vector_sums(3)) (simp add: casts_absent_builds)
  show "agent_details_view tbl src opts dbg p = Inr v \<Longrightarrow> casts_absent v"
    unfolding agent_details_view_def
    by (drule sorted_vector_sums(3)) (simp add: casts_absent_builds)
  show "skill_details_view src opts dbg k = Inr v \<Longrightarrow> casts_absent v"
  proof (cases "GetSkillDetails_build src opts dbg k")
    case None
    then show "skill_details_view src opts dbg k = Inr v \<Longrightarrow> casts_absent v"
      by (auto simp: skill_details_view_def)
  next
    case (Some b)
    assume "skill_details_view src opts dbg k = Inr v"
    with Some have "sorted_vector (SortOrderChoice opts) b = Inr v"
      by (simp add: skill_details_view_def)
    from sorted_vector_sums(3) [OF this] casts_absent_builds(4) [OF Some]
    show "casts_absent v" by simp
  qed
  show "group_filter_totals_view src = Inr v \<Longrightarrow> casts_absent v"
    by (auto simp: group_filter_totals_view_eq casts_absent_def group_entry_def)
qed

subsection \<open>What the calls return\<close>

lemma GetSkills_healing:
  assumes "cache_ok tbl s"
  shows "healing_of (GetSkills tbl s) =
           Some (healing_w (pick (passes (mySourceData s) (myOptions s))
                              (records_of (SkillsHealing (mySourceData s))))
                 + (if myDebugMode s then indirect_healing tbl (mySourceData s) (myOptions s)
                    else 0))"
    and "hits_of (GetSkills tbl s) =
           Some (ticks_w (pick (passes (mySourceData s) (myOptions s))
                            (records_of (SkillsHealing (mySourceData s))))
                 + (if myDebugMode s then indirect_ticks tbl (mySourceData s) (myOptions s)
                    else 0))"
proof -
  obtain v s' where v: "GetSkills tbl s = Inr (v, s')"
    "skills_view tbl (mySourceData s) (myOptions s) (myDebugMode s) = Inr v"
    using GetSkills_ok [OF assms] by blast
  show "healing_of (GetSkills tbl s) =
           Some (healing_w (pick (passes (mySourceData s) (myOptions s))
                              (records_of (SkillsHealing (mySourceData s))))
                 + (if myDebugMode s then indirect_healing tbl (mySourceData s) (myOptions s)
                    else 0))"
    using v(1) skills_view_sums(1) [OF v(2)] by (simp add: healing_of_def value_of_def)
  show "hits_of (GetSkills tbl s) =
           Some (ticks_w (pick (passes (mySourceData s) (myOptions s))
                            (records_of (SkillsHealing (mySourceData s))))
                 + (if myDebugMode s then indirect_ticks tbl (mySourceData s) (myOptions s)
                    else 0))"
    using v(1) skills_view_sums(2) [OF v(2)] by (simp add: hits_of_def value_of_def)
qed

lemma GetAgents_healing:
  assumes "cache_ok tbl s"
  shows "healing_of (GetAgents s) =
           Some (healing_w (pick (passes (mySourceData s) (myOptions s))
                              (records_of (SkillsHealing (mySourceData s)))))"
    and "hits_of (GetAgents s) =
           Some (ticks_w (pick (passes (mySourceData s) (myOptions s))
                            (records_of (SkillsHealing (mySourceData s)))))"
proof -
  obtain v s' where v: "GetAgents s = Inr (v, s')"
    "agents_view (mySourceData s) (myOptions s) (myDebugMode s) = Inr v"
    using GetAgents_ok [OF assms] by blast
  show "healing_of (GetAgents s) =
           Some (healing_w (pick (passes (mySourceData s) (myOptions s))
                              (records_of (SkillsHealing (mySourceData s)))))"
    using v(1) agents_view_sums(1) [OF v(2)] by (simp add: healing_of_def value_of_def)
  show "hits_of (GetAgents s) =
           Some (ticks_w (pick (passes (mySourceData s) (myOptions s))
                            (records_of (SkillsHealing (mySourceData s)))))"
    using v(1) agents_view_sums(2) [OF v(2)] by (simp add: hits_of_def value_of_def)
qed

lemma GetTotal_healing:
  assumes "cache_ok tbl s"
  shows "map_option Healing (value_of (GetTotal tbl s)) =
           Some (healing_w (pick (passes (mySourceData s) (myOptions s))
                              (records_of (SkillsHealing (mySourceData s))))
                 + (if myDebugMode s then indirect_healing tbl (mySourceData s) (myOptions s)
                    else 0))"
    and "map_option Hits (value_of (GetTotal tbl s)) =
           Some (ticks_w (pick (passes (mySourceData s) (myOptions s))
                            (records_of (SkillsHealing (mySourceData s))))
                 + (if myDebugMode s then indirect_ticks tbl (mySourceData s) (myOptions s)
                    else 0))"
proof -
  obtain t s' where t: "GetTotal tbl s = Inr (t, s')"
    "total_view tbl (mySourceData s) (myOptions s) (myDebugMode s) = Inr t"
    using GetTotal_ok [OF assms] by blast
  obtain v where v: "skills_view tbl (mySourceData s) (myOptions s) (myDebugMode s) = Inr v"
    "Healing t = healing_sum v" "Hits t = hits_sum v"
    using total_view_sums [OF t(2)] by blast
  show "map_option Healing (value_of (GetTotal tbl s)) =
           Some (healing_w (pick (passes (mySourceData s) (myOptions s))
                              (records_of (SkillsHealing (mySourceData s))))
                 + (if myDebugMode s then indirect_healing tbl (mySourceData s) (myOptions s)
                    else 0))"
    using t(1) v(2) skills_view_sums(1) [OF v(1)] by (simp add: value_of_def)
  show "map_option Hits (value_of (GetTotal tbl s)) =
           Some (ticks_w (pick (passes (mySourceData s) (myOptions s))
                            (records_of (SkillsHealing (mySourceData s))))
                 + (if myDebugMode s then indirect_ticks tbl (mySourceData s) (myOptions s)
                    else 0))"
    using t(1) v(3) skills_view_sums(2) [OF v(1)] by (simp add: value_of_def)
qed

lemma GetAgentDetails_healing:
  assumes "cache_ok tbl s"
  shows "healing_of (GetAgentDetails tbl s p) =
           Some (healing_w (pick (\<lambda>k. k = p) (records_of (SkillsHealing (mySourceData s))))
                 + (if myDebugMode s then agent_indirect_healing tbl (mySourceData s) p else 0))"
    and "hits_of (GetAgentDetails tbl s p) =
           Some (ticks_w (pick (\<lambda>k. k = p) (records_of (SkillsHealing (mySourceData s))))
                 + (if myDebugMode s then agent_indirect_ticks tbl (mySourceData s) p else 0))"
proof -
  obtain v s' where v: "GetAgentDetails tbl s p = Inr (v, s')"
    "agent_details_view tbl (mySourceData s) (myOptions s) (myDebugMode s) p = Inr v"
    using GetAgentDetails_ok [OF assms] by blast
  show "healing_of (GetAgentDetails tbl s p) =
           Some (healing_w (pick (\<lambda>k. k = p) (records_of (SkillsHealing (mySourceData s))))
                 + (if myDebugMode s then agent_indirect_healing tbl (mySourceData s) p else 0))"
    using v(1) agent_details_view_sums(1) [OF v(2)] by (simp add: healing_of_def value_of_def)
  show "hits_of (GetAgentDetails tbl s p) =
           Some (ticks_w (pick (\<lambda>k. k = p) (records_of (SkillsHealing (mySourceData s))))
                 + (if myDebugMode s then agent_indirect_ticks tbl (mySourceData s) p else 0))"
    using v(1) agent_details_view_sums(2) [OF v(2)] by (simp add: hits_of_def value_of_def)
qed

lemma GetSkillDetails_healing:
  assumes "cache_ok tbl s"
  shows "healing_of (GetSkillDetails s k) =
           Some (case map_of (SkillsHealing (mySourceData s)) k of
                   None \<Rightarrow> 0
                 | Some skill \<Rightarrow>
                     healing_w (pick (passes (mySourceData s) (myOptions s)) (AgentsHealing skill)))"
    and "hits_of (GetSkillDetails s k) =
           Some (case map_of (SkillsHealing (mySourceData s)) k of
                   None \<Rightarrow> 0
                 | Some skill \<Rightarrow>
                     ticks_w (pick (passes (mySourceData s) (myOptions s)) (AgentsHealing skill)))"
proof -
  obtain v s' where v: "GetSkillDetails s k = Inr (v, s')"
    "skill_details_view (mySourceData s) (myOptions s) (myDebugMode s) k = Inr v"
    using GetSkillDetails_ok [OF assms] by blast
  show "healing_of (GetSkillDetails s k) =
           Some (case map_of (SkillsHealing (mySourceData s)) k of
                   None \<Rightarrow> 0
                 | Some skill \<Rightarrow>
                     healing_w (pick (passes (mySourceData s) (myOptions s)) (AgentsHealing skill)))"
    using v(1) skill_details_view_sums(1) [OF v(2)] by (simp add: healing_of_def value_of_def)
  show "hits_of (GetSkillDetails s k) =
           Some (case map_of (SkillsHealing (mySourceData s)) k of
                   None \<Rightarrow> 0
                 | Some skill \<Rightarrow>
                     ticks_w (pick (passes (mySourceData s) (myOptions s)) (AgentsHealing skill)))"
    using v(1) skill_details_view_sums(2) [OF v(2)] by (simp add: hits_of_def value_of_def)
qed

lemma GetGroupFilterTotals_value:
  assumes "cache_ok tbl s"
  shows "\<exists>hh. value_of (GetGroupFilterTotals s) =
           Some \<lparr>Entries = [group_entry (mySourceData s) 0 ''Group'',
                            group_entry (mySourceData s) 1 ''Squad'',
                            group_entry (mySourceData s) 2 ''All (Excluding Summons)'',
                            group_entry (mySourceData s) 3 ''All (Including Summons)''],
                 HighestHealing = hh\<rparr>"
proof -
  obtain v s' where v: "GetGroupFilterTotals s = Inr (v, s')"
    "group_filter_totals_view (mySourceData s) = Inr v"
    using GetGroupFilterTotals_ok [OF assms] by blast
  show ?thesis
    using v by (auto simp: value_of_def group_filter_totals_view_eq)
qed

subsection \<open>The entries as natural numbers\<close>

lemma healing_sum_n_Add [simp]:
  "healing_sum_n (Add v i n h t c) = healing_sum_n v + unat h"
  "hits_sum_n (Add v i n h t c) = hits_sum_n v + unat t"
  by (simp_all add: healing_sum_n_def hits_sum_n_def Add_def)

lemma healing_sum_n_new [simp]:
  "healing_sum_n AggregatedVector_new = 0" "hits_sum_n AggregatedVector_new = 0"
  by (simp_all add: healing_sum_n_def hits_sum_n_def AggregatedVector_new_def)

lemma unat_plus_le: "unat (x + y) \<le> unat x + unat y" for x y :: u64
  by (simp add: unat_word_ariths)

lemma unat_healing_w_le: "unat (healing_w xs) \<le> healing_n xs"
proof (induction xs)
  case Nil
  show ?case by simp
next
  case (Cons r xs)
  have "unat (TotalHealing (snd r) + healing_w xs)
          \<le> unat (TotalHealing (snd r)) + unat (healing_w xs)"
    by (rule unat_plus_le)
  with Cons show ?case by simp
qed

lemma unat_ticks_w_le: "unat (ticks_w xs) \<le> ticks_n xs"
proof (induction xs)
  case Nil
  show ?case by simp
next
  case (Cons r xs)
  have "unat (Ticks (snd r) + ticks_w xs) \<le> unat (Ticks (snd r)) + unat (ticks_w xs)"
    by (rule unat_plus_le)
  with Cons show ?case by simp
qed

lemma unat_pick_le:
  "unat (healing_w (pick P xs)) \<le> healing_n xs" "unat (ticks_w (pick P xs)) \<le> ticks_n xs"
  using unat_healing_w_le [of "pick P xs"] healing_n_pick_le [of P xs]
    unat_ticks_w_le [of "pick P xs"] ticks_n_pick_le [of P xs]
  by simp_all

lemma unat_sum_list:
  fixes ws :: "u64 list"
  shows "sum_list (map unat ws) < 2 ^ 64 \<Longrightarrow> unat (sum_list ws) = sum_list (map unat ws)"
  by (induction ws) (auto simp: unat_sum_no_wrap)

lemma unat_healing_sum:
  "healing_sum_n v < 2 ^ 64 \<Longrightarrow> unat (healing_sum v) = healing_sum_n v"
  "hits_sum_n v < 2 ^ 64 \<Longrightarrow> unat (hits_sum v) = hits_sum_n v"
  using unat_sum_list [of "map Healing (Entries v)"] unat_sum_list [of "map Hits (Entries v)"]
  by (simp_all add: healing_sum_def hits_sum_def healing_sum_n_def hits_sum_n_def comp_def)

lemma split_skills_n:
  "healing_n (records_of sks) =
     healing_n (records_of (direct_skills tbl sks)) + healing_n (records_of (indirect_skills tbl sks))"
  "ticks_n (records_of sks) =
     ticks_n (records_of (direct_skills tbl sks)) + ticks_n (records_of (indirect_skills tbl sks))"
  by (induction sks; simp)+

lemma GetSkills_loop_n:
  "healing_sum_n (fst (GetSkills_loop tbl src opts dbg sks (v, ih, it))) =
     healing_sum_n v
       + sum_list (map (\<lambda>sk. unat (healing_w (pick (passes src opts) (AgentsHealing (snd sk)))))
           (if dbg then sks else direct_skills tbl sks))"
  "hits_sum_n (fst (GetSkills_loop tbl src opts dbg sks (v, ih, it))) =
     hits_sum_n v
       + sum_list (map (\<lambda>sk. unat (ticks_w (pick (passes src opts) (AgentsHealing (snd sk)))))
           (if dbg then sks else direct_skills tbl sks))"
  by (induction sks arbitrary: v ih it; auto simp: GetSkills_agents_sum)+

lemma skill_sums_le:
  "sum_list (map (\<lambda>sk. unat (healing_w (pick P (AgentsHealing (snd sk))))) sks)
     \<le> healing_n (records_of sks)"
  "sum_list (map (\<lambda>sk. unat (ticks_w (pick P (AgentsHealing (snd sk))))) sks)
     \<le> ticks_n (records_of sks)"
proof (induction sks)
  case Nil
  { case 1 show ?case by simp }
  { case 2 show ?case by simp }
next
  case (Cons sk sks)
  { case 1
    show ?case
      using Cons.IH(1) unat_pick_le(1) [of P "AgentsHealing (snd sk)"] by simp }
  { case 2
    show ?case
      using Cons.IH(2) unat_pick_le(2) [of P "AgentsHealing (snd sk)"] by simp }
qed

lemma add_indirect_n:
  "healing_sum_n (add_indirect tbl st) = healing_sum_n (fst st) + unat (fst (snd st))"
  "hits_sum_n (add_indirect tbl st) = hits_sum_n (fst st) + unat (snd (snd st))"
  by (cases st; auto simp: add_indirect_def)+

lemma GetSkills_build_n:
  "healing_sum_n (GetSkills_build tbl src opts dbg) \<le> (if dbg then 2 else 1) * healing_volume src"
  "hits_sum_n (GetSkills_build tbl src opts dbg) \<le> (if dbg then 2 else 1) * hits_volume src"
proof -
  let ?sks = "SkillsHealing src"
  let ?P = "passes src opts"
  have i: "unat (healing_w (pick ?P (records_of (indirect_skills tbl ?sks))))
             \<le> healing_n (records_of (indirect_skills tbl ?sks))"
    "unat (ticks_w (pick ?P (records_of (indirect_skills tbl ?sks))))
             \<le> ticks_n (records_of (indirect_skills tbl ?sks))"
    by (rule unat_pick_le)+
  have d: "sum_list (map (\<lambda>sk. unat (healing_w (pick ?P (AgentsHealing (snd sk)))))
             (if dbg then ?sks else direct_skills tbl ?sks))
           \<le> healing_n (records_of (if dbg then ?sks else direct_skills tbl ?sks))"
    "sum_list (map (\<lambda>sk. unat (ticks_w (pick ?P (AgentsHealing (snd sk)))))
             (if dbg then ?sks else direct_skills tbl ?sks))
           \<le> ticks_n (records_of (if dbg then ?sks else direct_skills tbl ?sks))"
    by (rule skill_sums_le)+
  show "healing_sum_n (GetSkills_build tbl src opts dbg) \<le> (if dbg then 2 else 1) * healing_volume src"
    using i(1) d(1) split_skills_n(1) [of ?sks tbl]
    by (cases dbg;
        simp add: GetSkills_build_def add_indirect_n GetSkills_loop_n GetSkills_loop_sum
          healing_volume_def)
  show "hits_sum_n (GetSkills_build tbl src opts dbg) \<le> (if dbg then 2 else 1) * hits_volume src"
    using i(2) d(2) split_skills_n(2) [of ?sks tbl]
    by (cases dbg;
        simp add: GetSkills_build_def add_indirect_n GetSkills_loop_n GetSkills_loop_sum
          hits_volume_def)
qed

lemma GetAgents_loop_n:
  "healing_sum_n (GetAgents_loop src opts dbg xs v) = healing_sum_n v + healing_n (pick (passes src opts) xs)"
  "hits_sum_n (GetAgents_loop src opts dbg xs v) = hits_sum_n v + ticks_n (pick (passes src opts) xs)"
  by (induction xs arbitrary: v; auto simp: Let_def Filter_it_def Filter_def passes_def)+

lemma emplace_add_n:
  "healing_n (emplace_add k a m) \<le> unat (TotalHealing a) + healing_n m"
  "ticks_n (emplace_add k a m) \<le> unat (Ticks a) + ticks_n m"
proof (induction m)
  case Nil
  { case 1 show ?case by simp }
  { case 2 show ?case by simp }
next
  case (Cons r m)
  obtain k' v where r: "r = (k', v)" by (cases r)
  { case 1
    show ?case
      using Cons.IH(1) unat_plus_le [of "TotalHealing v" "TotalHealing a"] by (simp add: r) }
  { case 2
    show ?case
      using Cons.IH(2) unat_plus_le [of "Ticks v" "Ticks a"] by (simp add: r) }
qed

lemma GetAllAgents_agents_n:
  "healing_n (GetAllAgents_agents xs m) \<le> healing_n m + healing_n xs"
  "ticks_n (GetAllAgents_agents xs m) \<le> ticks_n m + ticks_n xs"
proof (induction xs arbitrary: m)
  case Nil
  { case 1 show ?case by simp }
  { case 2 show ?case by simp }
next
  case (Cons r xs)
  obtain k a where r: "r = (k, a)" by (cases r)
  { case 1
    show ?case
      using Cons.IH(1) [of "emplace_add k a m"] emplace_add_n(1) [of k a m] by (simp add: r) }
  { case 2
    show ?case
      using Cons.IH(2) [of "emplace_add k a m"] emplace_add_n(2) [of k a m] by (simp add: r) }
qed

lemma GetAllAgents_skills_n:
  "healing_n (GetAllAgents_skills sks m) \<le> healing_n m + healing_n (records_of sks)"
  "ticks_n (GetAllAgents_skills sks m) \<le> ticks_n m + ticks_n (records_of sks)"
proof (induction sks arbitrary: m)
  case Nil
  { case 1 show ?case by simp }
  { case 2 show ?case by simp }
next
  case (Cons sk sks)
  obtain skillId skill where sk: "sk = (skillId, skill)" by (cases sk)
  { case 1
    show ?case
      using Cons.IH(1) [of "GetAllAgents_agents (AgentsHealing skill) m"]
        GetAllAgents_agents_n(1) [of "AgentsHealing skill" m]
      by (simp add: sk) }
  { case 2
    show ?case
      using Cons.IH(2) [of "GetAllAgents_agents (AgentsHealing skill) m"]
        GetAllAgents_agents_n(2) [of "AgentsHealing skill" m]
      by (simp add: sk) }
qed

lemma GetAgents_build_n:
  "healing_sum_n (GetAgents_build src opts dbg (GetAllAgents_build src)) \<le> healing_volume src"
  "hits_sum_n (GetAgents_build src opts dbg (GetAllAgents_build src)) \<le> hits_volume src"
  using GetAllAgents_skills_n [of "SkillsHealing src" "[]"]
    healing_n_pick_le [of "passes src opts" "GetAllAgents_build src"]
    ticks_n_pick_le [of "passes src opts" "GetAllAgents_build src"]
  by (simp_all add: GetAgents_build_def GetAgents_loop_n GetAllAgents_build_def
      healing_volume_def hits_volume_def)

lemma sorted_vector_sums_n:
  assumes "sorted_vector order v = Inr v'"
  shows "healing_sum_n v' = healing_sum_n v" and "hits_sum_n v' = hits_sum_n v"
  using assms
  by (cases order; auto simp: sorted_vector_def Sort_def healing_sum_n_def hits_sum_n_def
      sum_list_std_sort)+


lemma GetSkills_natural:
  assumes "cache_ok tbl s"
  shows "healing_n_of (GetSkills tbl s) =
           Some (healing_sum_n (GetSkills_build tbl (mySourceData s) (myOptions s) (myDebugMode s)))"
    and "hits_n_of (GetSkills tbl s) =
           Some (hits_sum_n (GetSkills_build tbl (mySourceData s) (myOptions s) (myDebugMode s)))"
proof -
  obtain v s' where v: "GetSkills tbl s = Inr (v, s')"
    "skills_view tbl (mySourceData s) (myOptions s) (myDebugMode s) = Inr v"
    using GetSkills_ok [OF assms] by blast
  note n = sorted_vector_sums_n [OF v(2) [unfolded skills_view_def]]
  show "healing_n_of (GetSkills tbl s) =
           Some (healing_sum_n (GetSkills_build tbl (mySourceData s) (myOptions s) (myDebugMode s)))"
    using v(1) n(1) by (simp add: healing_n_of_def value_of_def)
  show "hits_n_of (GetSkills tbl s) =
           Some (hits_sum_n (GetSkills_build tbl (mySourceData s) (myOptions s) (myDebugMode s)))"
    using v(1) n(2) by (simp add: hits_n_of_def value_of_def)
qed

lemma GetAgents_natural:
  assumes "cache_ok tbl s"
  shows "healing_n_of (GetAgents s) =
           Some (healing_sum_n (GetAgents_build (mySourceData s) (myOptions s) (myDebugMode s)
                                  (GetAllAgents_build (mySourceData s))))"
    and "hits_n_of (GetAgents s) =
           Some (hits_sum_n (GetAgents_build (mySourceData s) (myOptions s) (myDebugMode s)
                               (GetAllAgents_build (mySourceData s))))"
proof -
  obtain v s' where v: "GetAgents s = Inr (v, s')"
    "agents_view (mySourceData s) (myOptions s) (myDebugMode s) = Inr v"
    using GetAgents_ok [OF assms] by blast
  note n = sorted_vector_sums_n [OF v(2) [unfolded agents_view_def]]
  show "healing_n_of (GetAgents s) =
           Some (healing_sum_n (GetAgents_build (mySourceData s) (myOptions s) (myDebugMode s)
                                  (GetAllAgents_build (mySourceData s))))"
    using v(1) n(1) by (simp add: healing_n_of_def value_of_def)
  show "hits_n_of (GetAgents s) =
           Some (hits_sum_n (GetAgents_build (mySourceData s) (myOptions s) (myDebugMode s)
                               (GetAllAgents_build (mySourceData s))))"
    using v(1) n(2) by (simp add: hits_n_of_def value_of_def)
qed

text \<open>
  Where the records of the snapshot add up to less than \<open>2 ^ 64\<close>, the entries of a table
  add up to the same number in 64 bits and as natural numbers.
\<close>

lemma GetSkills_no_wrap:
  assumes "cache_ok tbl s"
  shows "(if myDebugMode s then 2 else 1) * healing_volume (mySourceData s) < 2 ^ 64 \<Longrightarrow>
           healing_n_of (GetSkills tbl s) = map_option unat (healing_of (GetSkills tbl s))"
    and "(if myDebugMode s then 2 else 1) * hits_volume (mySourceData s) < 2 ^ 64 \<Longrightarrow>
           hits_n_of (GetSkills tbl s) = map_option unat (hits_of (GetSkills tbl s))"
proof -
  obtain v s' where v: "GetSkills tbl s = Inr (v, s')"
    "skills_view tbl (mySourceData s) (myOptions s) (myDebugMode s) = Inr v"
    using GetSkills_ok [OF assms] by blast
  note n = sorted_vector_sums_n [OF v(2) [unfolded skills_view_def]]
  note b = GetSkills_build_n [of tbl "mySourceData s" "myOptions s" "myDebugMode s"]
  show "healing_n_of (GetSkills tbl s) = map_option unat (healing_of (GetSkills tbl s))"
    if "(if myDebugMode s then 2 else 1) * healing_volume (mySourceData s) < 2 ^ 64"
  proof -
    from that n(1) b(1) have "healing_sum_n v < 2 ^ 64" by simp
    from unat_healing_sum(1) [OF this] v(1) show ?thesis
      by (simp add: healing_n_of_def healing_of_def value_of_def)
  qed
  show "hits_n_of (GetSkills tbl s) = map_option unat (hits_of (GetSkills tbl s))"
    if "(if myDebugMode s then 2 else 1) * hits_volume (mySourceData s) < 2 ^ 64"
  proof -
    from that n(2) b(2) have "hits_sum_n v < 2 ^ 64" by simp
    from unat_healing_sum(2) [OF this] v(1) show ?thesis
      by (simp add: hits_n_of_def hits_of_def value_of_def)
  qed
qed

lemma GetAgents_no_wrap:
  assumes "cache_ok tbl s"
  shows "healing_volume (mySourceData s) < 2 ^ 64 \<Longrightarrow>
           healing_n_of (GetAgents s) = map_option unat (healing_of (GetAgents s))"
    and "hits_volume (mySourceData s) < 2 ^ 64 \<Longrightarrow>
           hits_n_of (GetAgents s) = map_option unat (hits_of (GetAgents s))"
proof -
  obtain v s' where v: "GetAgents s = Inr (v, s')"
    "agents_view (mySourceData s) (myOptions s) (myDebugMode s) = Inr v"
    using GetAgents_ok [OF assms] by blast
  note n = sorted_vector_sums_n [OF v(2) [unfolded agents_view_def]]
  note b = GetAgents_build_n [of "mySourceData s" "myOptions s" "myDebugMode s"]
  show "healing_n_of (GetAgents s) = map_option unat (healing_of (GetAgents s))"
    if "healing_volume (mySourceData s) < 2 ^ 64"
  proof -
    from that n(1) b(1) have "healing_sum_n v < 2 ^ 64" by simp
    from unat_healing_sum(1) [OF this] v(1) show ?thesis
      by (simp add: healing_n_of_def healing_of_def value_of_def)
  qed
  show "hits_n_of (GetAgents s) = map_option unat (hits_of (GetAgents s))"
    if "hits_volume (mySourceData s) < 2 ^ 64"
  proof -
    from that n(2) b(2) have "hits_sum_n v < 2 ^ 64" by simp
    from unat_healing_sum(2) [OF this] v(1) show ?thesis
      by (simp add: hits_n_of_def hits_of_def value_of_def)
  qed
qed

subsection \<open>The example snapshots\<close>

lemma scenario_filtered_sums:
  "healing_w (pick (passes scenario_src scenario_opts) (records_of (SkillsHealing scenario_src))) = 150"
  "ticks_w (pick (passes scenario_src scenario_opts) (records_of (SkillsHealing scenario_src))) = 15"
  "indirect_healing scenario_tbl scenario_src scenario_opts = 50"
  "indirect_ticks scenario_tbl scenario_src scenario_opts = 5"
  by (simp_all add: scenario_src_def scenario_opts_def scenario_tbl_def passes_def Filter_def
      FilterInternal_def indirect_healing_def indirect_ticks_def)

lemma cache_ok_scenario: "cache_ok tbl (constructed scenario_src scenario_opts dbg)"
  by (rule cache_ok_constructed) (simp_all add: scenario_opts_def)

lemma AggregatedStats_new_scenario:
  "AggregatedStats_new scenario_src scenario_opts dbg = Inr (constructed scenario_src scenario_opts dbg)"
  by (simp add: AggregatedStats_new_def scenario_opts_def)

lemma reachable_constructed:
  "SortOrderChoice opts \<noteq> SortOrder_Max \<Longrightarrow> DataSourceChoice opts \<noteq> DataSource_Max \<Longrightarrow>
     reachable tbl (constructed src opts dbg)"
  by (rule reachable.constructor [of src opts dbg]) (simp add: AggregatedStats_new_def)

lemma reachable_scenario: "reachable tbl (constructed scenario_src scenario_opts dbg)"
  by (rule reachable_constructed) (simp_all add: scenario_opts_def)

lemma constructed_sel [simp]:
  "mySourceData (constructed src opts dbg) = src"
  "myOptions (constructed src opts dbg) = opts"
  "myDebugMode (constructed src opts dbg) = dbg"
  by (simp_all add: constructed_def)

lemma GetGroupFilterTotals_entries:
  assumes "cache_ok tbl s"
  shows "map_option Entries (value_of (GetGroupFilterTotals s)) =
           Some [group_entry (mySourceData s) 0 ''Group'',
                 group_entry (mySourceData s) 1 ''Squad'',
                 group_entry (mySourceData s) 2 ''All (Excluding Summons)'',
                 group_entry (mySourceData s) 3 ''All (Including Summons)'']"
  using GetGroupFilterTotals_value [OF assms] by auto

lemma group_entry_le:
  assumes "healing_volume src < 2 ^ 64"
  shows "Healing (group_entry src 0 n0) \<le> Healing (group_entry src 1 n1)"
    and "Healing (group_entry src 1 n1) \<le> Healing (group_entry src 2 n2)"
    and "Healing (group_entry src 2 n2) \<le> Healing (group_entry src 3 n3)"
proof -
  have n: "healing_n (records_of (SkillsHealing src)) < 2 ^ 64"
    using assms by (simp add: healing_volume_def)
  show "Healing (group_entry src 0 n0) \<le> Healing (group_entry src 1 n1)"
    using healing_w_pick_mono [OF group_pass_step(1) n] by (simp add: group_entry_def)
  show "Healing (group_entry src 1 n1) \<le> Healing (group_entry src 2 n2)"
    using healing_w_pick_mono [OF group_pass_step(2) n] by (simp add: group_entry_def)
  show "Healing (group_entry src 2 n2) \<le> Healing (group_entry src 3 n3)"
    using healing_w_pick_mono [OF group_pass_step(3) n] by (simp add: group_entry_def)
qed

lemma group_entry_hits_le:
  assumes "hits_volume src < 2 ^ 64"
  shows "Hits (group_entry src 0 n0) \<le> Hits (group_entry src 1 n1)"
    and "Hits (group_entry src 1 n1) \<le> Hits (group_entry src 2 n2)"
    and "Hits (group_entry src 2 n2) \<le> Hits (group_entry src 3 n3)"
proof -
  have n: "ticks_n (records_of (SkillsHealing src)) < 2 ^ 64"
    using assms by (simp add: hits_volume_def)
  show "Hits (group_entry src 0 n0) \<le> Hits (group_entry src 1 n1)"
    using ticks_w_pick_mono [OF group_pass_step(1) n] by (simp add: group_entry_def)
  show "Hits (group_entry src 1 n1) \<le> Hits (group_entry src 2 n2)"
    using ticks_w_pick_mono [OF group_pass_step(2) n] by (simp add: group_entry_def)
  show "Hits (group_entry src 2 n2) \<le> Hits (group_entry src 3 n3)"
    using ticks_w_pick_mono [OF group_pass_step(3) n] by (simp add: group_entry_def)
qed

lemma group_entry_name [simp]: "EntryName (group_entry src i n) = n"
  by (simp add: group_entry_def)

lemma scenario_sel:
  "Agents scenario_src k =
     (if k = 2 then Some \<lparr>Name = ''B'', Subgroup = 2, IsMinion = False\<rparr>
      else if k = 1 then Some \<lparr>Name = ''A'', Subgroup = 1, IsMinion = False\<rparr> else None)"
  "SubGroup scenario_src = 1"
  "SkillsHealing scenario_src =
     [(1, \<lparr>SkillName = ''S1'',
           AgentsHealing = [(1, \<lparr>TotalHealing = 100, Ticks = 10\<rparr>),
                            (2, \<lparr>TotalHealing = 30, Ticks = 3\<rparr>),
                            (3, \<lparr>TotalHealing = 5, Ticks = 1\<rparr>)]\<rparr>),
      (2, \<lparr>SkillName = ''S2'',
           AgentsHealing = [(1, \<lparr>TotalHealing = 50, Ticks = 5\<rparr>)]\<rparr>)]"
  by (simp_all add: scenario_src_def)

lemma scenario_group_pass:
  "group_pass scenario_src 0 k \<longleftrightarrow> k = 1"
  "group_pass scenario_src (Suc 0) k \<longleftrightarrow> k = 1 \<or> k = 2"
  "group_pass scenario_src 2 k \<longleftrightarrow> k = 1 \<or> k = 2"
  "group_pass scenario_src 3 k \<longleftrightarrow> k = 1 \<or> k = 2"
  by (simp_all add: group_pass_def GroupFilter_cast_def fakeOptions_switch_def FilterInternal_def
      HealWindowOptions_default_def scenario_sel)

lemma scenario_group_entries:
  "group_entry scenario_src 0 n = \<lparr>Id = 0, EntryName = n, Healing = 150, Hits = 15, Casts = None\<rparr>"
  "group_entry scenario_src (Suc 0) n = \<lparr>Id = 0, EntryName = n, Healing = 180, Hits = 18, Casts = None\<rparr>"
  "group_entry scenario_src 2 n = \<lparr>Id = 0, EntryName = n, Healing = 180, Hits = 18, Casts = None\<rparr>"
  "group_entry scenario_src 3 n = \<lparr>Id = 0, EntryName = n, Healing = 180, Hits = 18, Casts = None\<rparr>"
  by (simp_all add: group_entry_def scenario_group_pass scenario_sel)

lemma overflow_sel:
  "Agents overflow_src k =
     (if k = 2 then Some \<lparr>Name = ''B'', Subgroup = 2, IsMinion = False\<rparr>
      else if k = 1 then Some \<lparr>Name = ''A'', Subgroup = 1, IsMinion = False\<rparr> else None)"
  "SubGroup overflow_src = 1"
  "SkillsHealing overflow_src =
     [(1, \<lparr>SkillName = ''S1'',
           AgentsHealing = [(1, \<lparr>TotalHealing = 18446744073709551615, Ticks = 1\<rparr>),
                            (2, \<lparr>TotalHealing = 1, Ticks = 1\<rparr>)]\<rparr>)]"
  by (simp_all add: overflow_src_def)

lemma overflow_group_pass:
  "group_pass overflow_src 0 k \<longleftrightarrow> k = 1"
  "group_pass overflow_src (Suc 0) k \<longleftrightarrow> k = 1 \<or> k = 2"
  "group_pass overflow_src 2 k \<longleftrightarrow> k = 1 \<or> k = 2"
  "group_pass overflow_src 3 k \<longleftrightarrow> k = 1 \<or> k = 2"
  by (simp_all add: group_pass_def GroupFilter_cast_def fakeOptions_switch_def FilterInternal_def
      HealWindowOptions_default_def overflow_sel)

lemma overflow_group_entries:
  "group_entry overflow_src 0 n =
     \<lparr>Id = 0, EntryName = n, Healing = 18446744073709551615, Hits = 1, Casts = None\<rparr>"
  "group_entry overflow_src (Suc 0) n = \<lparr>Id = 0, EntryName = n, Healing = 0, Hits = 2, Casts = None\<rparr>"
  "group_entry overflow_src 2 n = \<lparr>Id = 0, EntryName = n, Healing = 0, Hits = 2, Casts = None\<rparr>"
  "group_entry overflow_src 3 n = \<lparr>Id = 0, EntryName = n, Healing = 0, Hits = 2, Casts = None\<rparr>"
  by (simp_all add: group_entry_def overflow_group_pass overflow_sel)

lemma cache_ok_no_exclusion: "cache_ok tbl (constructed src no_exclusion dbg)"
  by (rule cache_ok_constructed) (simp_all add: no_exclusion_def)

lemma scenario_volume: "healing_volume scenario_src = 185" "hits_volume scenario_src = 19"
  by (simp_all add: healing_volume_def hits_volume_def scenario_sel)

lemma indirect_records_le:
  "healing_n (records_of (indirect_skills tbl sks)) \<le> healing_n (records_of sks)"
  "ticks_n (records_of (indirect_skills tbl sks)) \<le> ticks_n (records_of sks)"
  by (induction sks; simp)+

lemma skill_records_le:
  "map_of sks k = Some skill \<Longrightarrow> healing_n (AgentsHealing skill) \<le> healing_n (records_of sks)"
  "map_of sks k = Some skill \<Longrightarrow> ticks_n (AgentsHealing skill) \<le> ticks_n (records_of sks)"
  by (induction sks; auto split: if_splits)+

lemma skills_sum_mono:
  assumes "excludes_more c c'"
    and "(if dbg then 2 else 1) * healing_volume src < 2 ^ 64"
  shows "healing_w (pick (passes src c') (records_of (SkillsHealing src)))
           + (if dbg then indirect_healing tbl src c' else 0)
         \<le> healing_w (pick (passes src c) (records_of (SkillsHealing src)))
           + (if dbg then indirect_healing tbl src c else 0)"
proof (cases dbg)
  case False
  with assms(2) have "healing_n (records_of (SkillsHealing src)) < 2 ^ 64"
    by (simp add: healing_volume_def)
  from healing_w_pick_mono [OF passes_mono [OF assms(1)] this] False
  show ?thesis by simp
next
  case True
  let ?R = "records_of (SkillsHealing src)"
  let ?I = "records_of (indirect_skills tbl (SkillsHealing src))"
  from assms(2) True indirect_records_le(1) [of tbl "SkillsHealing src"]
  have "healing_n (?R @ ?I) < 2 ^ 64"
    by (simp add: healing_volume_def)
  from healing_w_pick_mono [OF passes_mono [OF assms(1)] this] True
  show ?thesis by (simp add: indirect_healing_def)
qed

lemma skills_hits_mono:
  assumes "excludes_more c c'"
    and "(if dbg then 2 else 1) * hits_volume src < 2 ^ 64"
  shows "ticks_w (pick (passes src c') (records_of (SkillsHealing src)))
           + (if dbg then indirect_ticks tbl src c' else 0)
         \<le> ticks_w (pick (passes src c) (records_of (SkillsHealing src)))
           + (if dbg then indirect_ticks tbl src c else 0)"
proof (cases dbg)
  case False
  with assms(2) have "ticks_n (records_of (SkillsHealing src)) < 2 ^ 64"
    by (simp add: hits_volume_def)
  from ticks_w_pick_mono [OF passes_mono [OF assms(1)] this] False
  show ?thesis by simp
next
  case True
  let ?R = "records_of (SkillsHealing src)"
  let ?I = "records_of (indirect_skills tbl (SkillsHealing src))"
  from assms(2) True indirect_records_le(2) [of tbl "SkillsHealing src"]
  have "ticks_n (?R @ ?I) < 2 ^ 64"
    by (simp add: hits_volume_def)
  from ticks_w_pick_mono [OF passes_mono [OF assms(1)] this] True
  show ?thesis by (simp add: indirect_ticks_def)
qed

lemma skill_details_sum_mono:
  assumes "excludes_more c c'" and "healing_volume src < 2 ^ 64"
  shows "(case map_of (SkillsHealing src) k of None \<Rightarrow> 0
          | Some skill \<Rightarrow> healing_w (pick (passes src c') (AgentsHealing skill)))
         \<le> (case map_of (SkillsHealing src) k of None \<Rightarrow> 0
             | Some skill \<Rightarrow> healing_w (pick (passes src c) (AgentsHealing skill)))"
proof (cases "map_of (SkillsHealing src) k")
  case None
  then show ?thesis by simp
next
  case (Some skill)
  from skill_records_le(1) [OF Some] assms(2)
  have "healing_n (AgentsHealing skill) < 2 ^ 64"
    by (simp add: healing_volume_def)
  from healing_w_pick_mono [OF passes_mono [OF assms(1)] this] Some
  show ?thesis by simp
qed

lemma skill_details_hits_mono:
  assumes "excludes_more c c'" and "hits_volume src < 2 ^ 64"
  shows "(case map_of (SkillsHealing src) k of None \<Rightarrow> 0
          | Some skill \<Rightarrow> ticks_w (pick (passes src c') (AgentsHealing skill)))
         \<le> (case map_of (SkillsHealing src) k of None \<Rightarrow> 0
             | Some skill \<Rightarrow> ticks_w (pick (passes src c) (AgentsHealing skill)))"
proof (cases "map_of (SkillsHealing src) k")
  case None
  then show ?thesis by simp
next
  case (Some skill)
  from skill_records_le(2) [OF Some] assms(2)
  have "ticks_n (AgentsHealing skill) < 2 ^ 64"
    by (simp add: hits_volume_def)
  from ticks_w_pick_mono [OF passes_mono [OF assms(1)] this] Some
  show ?thesis by simp
qed

lemma not_above_Some [simp]: "not_above (Some x') (Some x) \<longleftrightarrow> x' \<le> x"
  by (simp add: not_above_def)

lemma overflow_passes:
  "passes overflow_src no_exclusion k"
  "passes overflow_src (no_exclusion\<lparr>ExcludeOffGroup := True\<rparr>) k \<longleftrightarrow> k \<noteq> 2"
  by (simp_all add: passes_def Filter_def FilterInternal_def no_exclusion_def overflow_sel)

lemma overflow_filtered_sums:
  "healing_w (pick (passes overflow_src no_exclusion) (records_of (SkillsHealing overflow_src))) = 0"
  "healing_w (pick (passes overflow_src (no_exclusion\<lparr>ExcludeOffGroup := True\<rparr>))
     (records_of (SkillsHealing overflow_src))) = 18446744073709551615"
  by (simp_all add: overflow_passes overflow_sel)

lemma scenario_passes:
  "passes scenario_src scenario_opts k \<longleftrightarrow> k = 1"
  "passes scenario_src (scenario_opts\<lparr>ExcludeOffGroup := False\<rparr>) k \<longleftrightarrow> k = 1 \<or> k = 2"
  by (simp_all add: passes_def Filter_def FilterInternal_def scenario_opts_def scenario_sel)

lemma scenario_squad_sums:
  "healing_w (pick (passes scenario_src (scenario_opts\<lparr>ExcludeOffGroup := False\<rparr>))
     (records_of (SkillsHealing scenario_src))) = 180"
  by (simp add: scenario_passes scenario_sel)

lemma returns_Inr [simp]: "returns (Inr x)"
  by (simp add: returns_def)

lemma GetDetails_value:
  assumes "cache_ok tbl s"
    and "agent_details_view tbl (mySourceData s) (myOptions s) (myDebugMode s) pId = Inr v"
  shows "value_of (GetDetails tbl s pDataSource pId) = Some v"
  using GetDetails_ok [OF assms(1), of pDataSource pId] assms(2)
  by (auto simp: value_of_def)

lemma GetAgentDetails_value:
  assumes "cache_ok tbl s"
    and "agent_details_view tbl (mySourceData s) (myOptions s) (myDebugMode s) pId = Inr v"
  shows "value_of (GetAgentDetails tbl s pId) = Some v"
  using GetAgentDetails_ok [OF assms(1), of pId] assms(2)
  by (auto simp: value_of_def)

lemma GetSkillDetails_value:
  assumes "cache_ok tbl s"
    and "skill_details_view (mySourceData s) (myOptions s) (myDebugMode s) pSkillId = Inr v"
  shows "value_of (GetSkillDetails s pSkillId) = Some v"
  using GetSkillDetails_ok [OF assms(1), of pSkillId] assms(2)
  by (auto simp: value_of_def)

lemma scenario_agent_details:
  "agent_details_view scenario_tbl scenario_src scenario_opts False 1 =
     Inr \<lparr>Entries =
            [\<lparr>Id = 1, EntryName = ''S1'', Healing = 100, Hits = 10, Casts = None\<rparr>,
             \<lparr>Id = 0, EntryName = ''Healing by Damage Dealt'', Healing = 50, Hits = 5,
              Casts = None\<rparr>],
          HighestHealing = 100\<rparr>"
  by (simp add: agent_details_view_def sorted_vector_def Sort_def GetAgentDetails_build_def
      scenario_sel scenario_opts_def scenario_tbl_def add_indirect_def Add_def
      AggregatedVector_new_def skillName_def)

lemma scenario_skill_details:
  "skill_details_view scenario_src scenario_opts False 1 =
     Inr \<lparr>Entries = [\<lparr>Id = 1, EntryName = ''A'', Healing = 100, Hits = 10, Casts = None\<rparr>],
          HighestHealing = 100\<rparr>"
  by (simp add: skill_details_view_def sorted_vector_def Sort_def GetSkillDetails_build_def
      scenario_sel scenario_opts_def Add_def AggregatedVector_new_def agentName_def
      Filter_it_def FilterInternal_def Let_def)

lemma two_skills_sel:
  "Agents two_skills_src = (\<lambda>k. if k = 1 then Some \<lparr>Name = ''A'', Subgroup = 1, IsMinion = False\<rparr> else None)"
  "SubGroup two_skills_src = Suc 0"
  "SkillsHealing two_skills_src =
        [(1, \<lparr>SkillName = ''S1'',
              AgentsHealing = [(1, \<lparr>TotalHealing = 9223372036854775808, Ticks = 1\<rparr>)]\<rparr>),
         (3, \<lparr>SkillName = ''S3'',
              AgentsHealing = [(1, \<lparr>TotalHealing = 9223372036854775808, Ticks = 1\<rparr>)]\<rparr>)]"
  by (auto simp: two_skills_src_def)

lemma two_skills_passes: "passes two_skills_src no_exclusion 1"
  by (simp add: passes_def Filter_def FilterInternal_def two_skills_sel no_exclusion_def)

lemma two_skills_all_agents:
  "GetAllAgents_build two_skills_src = [(1, \<lparr>TotalHealing = 0, Ticks = 2\<rparr>)]"
  by (simp add: GetAllAgents_build_def two_skills_sel)

lemma two_skills_natural:
  "healing_sum_n (GetSkills_build scenario_tbl two_skills_src no_exclusion False)
     = 18446744073709551616"
  "healing_sum_n (GetAgents_build two_skills_src no_exclusion False
                    (GetAllAgents_build two_skills_src)) = 0"
  "healing_w (pick (passes two_skills_src no_exclusion) (records_of (SkillsHealing two_skills_src))) = 0"
  using two_skills_passes
  by (simp_all add: GetSkills_build_def GetAgents_build_def two_skills_all_agents two_skills_sel
        scenario_tbl_def add_indirect_def GetSkills_agents_sum Let_def)


lemma cache_ok_two_skills: "cache_ok tbl (constructed two_skills_src no_exclusion dbg)"
  by (rule cache_ok_no_exclusion)

subsection \<open>The combat time\<close>

lemma GetCombatTime_end_not_before:
  "timestamps_ok (mySourceData s) \<Longrightarrow> EnteredCombatTime (mySourceData s) \<le> GetCombatTime_end s"
  by (simp add: timestamps_ok_def GetCombatTime_end_def Let_def)

lemma GetCombatTime_returns:
  assumes "timestamps_ok (mySourceData s)"
  shows "GetCombatTime s =
           Inr (f32_div (f32_sub (f32_of_u64 (GetCombatTime_end s))
                           (f32_of_u64 (EnteredCombatTime (mySourceData s))))
                  (f32_of_int 1000))"
  using GetCombatTime_end_not_before [OF assms] by (simp add: GetCombatTime_def Let_def)

lemma GetCombatTime_fails:
  "\<not> EnteredCombatTime (mySourceData s) \<le> GetCombatTime_end s \<Longrightarrow>
     GetCombatTime s = Inl AssertionFailed"
  by (simp add: GetCombatTime_def Let_def)

lemma round_f32_values:
  "round_f32 0 = 0" "round_f32 1000 = 1000" "round_f32 2000 = 2000" "round_f32 2 = 2"
  "round_f32 3000 = 3000"
  "round_f32 1700000000000 = 1700000038912" "round_f32 1700000001500 = 1700000038912"
  by (simp_all add: round_f32_def round_pos_def exponent_of_def nearest_even_def
      bit_length.simps Let_def)

lemma round_f32_three_halves: "round_f32 (3 / 2) = 3 / 2"
  by code_simp

lemma bit_length_le: "n < 2 ^ m \<Longrightarrow> bit_length n \<le> int m"
proof (induction m arbitrary: n)
  case 0
  then show ?case by (simp add: bit_length.simps)
next
  case (Suc m)
  from Suc.prems have "n div 2 < 2 ^ m" by simp
  from Suc.IH [OF this] show ?case by (subst bit_length.simps) simp
qed

lemma bit_length_1: "bit_length 1 = 1"
  by (simp add: bit_length.simps)

lemma nearest_even_1: "nearest_even n 1 = n"
  by (simp add: nearest_even_def)

lemma exponent_of_le: "p < 2 ^ 24 \<Longrightarrow> exponent_of p 1 \<le> 23"
  using bit_length_le [of p 24] by (simp add: exponent_of_def bit_length_1 Let_def)

lemma round_pos_exact:
  assumes "p < 2 ^ 24"
  shows "round_pos p 1 = of_int p"
proof (cases "23 \<le> exponent_of p 1")
  case True
  with exponent_of_le [OF assms] have "exponent_of p 1 = 23" by simp
  then show ?thesis by (simp add: round_pos_def nearest_even_1)
next
  case False
  then show ?thesis by (simp add: round_pos_def nearest_even_1)
qed

lemma round_f32_exact:
  assumes "0 \<le> n" and "n < 2 ^ 24"
  shows "round_f32 (of_int n) = of_int n"
  using assms round_pos_exact [of n] by (simp add: round_f32_def quotient_of_int)

lemma round_f32_exact_nat:
  fixes n :: nat
  assumes "n < 2 ^ 24"
  shows "round_f32 (of_nat n) = of_nat n"
  using assms round_f32_exact [of "int n"] by simp

lemma f32_of_u64_exact: "unat w < 2 ^ 24 \<Longrightarrow> f32_of_u64 w = of_nat (unat w)"
  unfolding f32_of_u64_def by (rule round_f32_exact_nat)

text \<open>
  Time stamps below \<open>2 ^ 24\<close> are \<^verbatim>\<open>float\<close>s, and so is their difference: there
  \<^verbatim>\<open>GetCombatTime\<close> returns the \<^verbatim>\<open>float\<close> nearest to the combat time of the specification.
\<close>

lemma GetCombatTime_small:
  assumes "timestamps_ok (mySourceData s)" and "unat (GetCombatTime_end s) < 2 ^ 24"
  shows "GetCombatTime s = Inr (round_f32 (combat_time_exact s))"
proof -
  let ?e = "GetCombatTime_end s"
  let ?b = "EnteredCombatTime (mySourceData s)"
  from GetCombatTime_end_not_before [OF assms(1)] have le: "unat ?b \<le> unat ?e"
    by (simp add: word_le_nat_alt)
  with assms(2) have b: "unat ?b < 2 ^ 24" by simp
  have d: "(of_nat (unat ?e) :: rat) - of_nat (unat ?b) = of_nat (unat ?e - unat ?b)"
    using le by (simp only: of_nat_diff)
  have small: "unat ?e - unat ?b < 2 ^ 24"
    using assms(2) by simp
  have sub: "f32_sub (f32_of_u64 ?e) (f32_of_u64 ?b) = of_nat (unat ?e) - of_nat (unat ?b)"
    by (simp only: f32_sub_def f32_of_u64_exact [OF assms(2)] f32_of_u64_exact [OF b] d
        round_f32_exact_nat [OF small])
  have k: "f32_of_int 1000 = 1000"
    by (simp add: f32_of_int_def round_f32_values)
  show ?thesis
    by (simp only: GetCombatTime_returns [OF assms(1)] sub k f32_div_def combat_time_exact_def)
qed

lemma late_sel:
  "EnteredCombatTime late_src = 1700000000000" "ExitedCombatTime late_src = 1700000001500"
  "LastHealEvent late_src = 1700000001200" "LastDamageEvent late_src = 1700000001400"
  by (simp_all add: late_src_def)

lemma scenario_times:
  "EnteredCombatTime scenario_src = 1000" "ExitedCombatTime scenario_src = 3000"
  "LastHealEvent scenario_src = 2800" "LastDamageEvent scenario_src = 2900"
  by (simp_all add: scenario_src_def)

lemma scenario_end_condition:
  "CombatEndConditionChoice scenario_opts = CombatEndCondition_CombatExit"
  by (simp add: scenario_opts_def)

lemma timestamps_ok_scenario: "timestamps_ok scenario_src"
  by (simp add: timestamps_ok_def scenario_times)

lemma scenario_combat_time:
  "GetCombatTime (constructed scenario_src scenario_opts dbg) = Inr 2"
  by (simp add: GetCombatTime_def GetCombatTime_end_def Let_def scenario_times
      scenario_end_condition f32_of_u64_def f32_of_int_def f32_sub_def f32_div_def
      round_f32_values)

section \<open>The claims\<close>

text \<open>
  C1. The claim: for every snapshot and every filter configuration, the healing of the
  entries of \<^verbatim>\<open>GetSkills\<close> adds up to the healing of the entries of \<^verbatim>\<open>GetAgents\<close>, and
  both to the healing of \<^verbatim>\<open>GetTotal\<close>; likewise for the hits. It fails in debug mode,
  where \<^verbatim>\<open>GetSkills\<close> adds an indirect skill to the synthetic entry and keeps its own
  entry as well: in the scenario of the specification the skills add up to 200 healing in
  20 hits and the agents to 150 in 15, in 64 bits and as natural numbers. With debug mode off it fails for the sums as natural
  numbers: where one agent healed \<open>2 ^ 63\<close> with each of two skills, the two entries of
  \<^verbatim>\<open>GetSkills\<close> add up to \<open>2 ^ 64\<close>, while the one entry of \<^verbatim>\<open>GetAgents\<close>, which
  \<^verbatim>\<open>GetAllAgents\<close> has added up in 64 bits, is 0, and so is the healing of \<^verbatim>\<open>GetTotal\<close>.
\<close>

theorem conservation_fails:
  "AggregatedStats_new scenario_src scenario_opts True
     = Inr (constructed scenario_src scenario_opts True)
   \<and> healing_of (GetSkills scenario_tbl (constructed scenario_src scenario_opts True)) = Some 200
   \<and> healing_of (GetAgents (constructed scenario_src scenario_opts True)) = Some 150
   \<and> hits_of (GetSkills scenario_tbl (constructed scenario_src scenario_opts True)) = Some 20
   \<and> hits_of (GetAgents (constructed scenario_src scenario_opts True)) = Some 15
   \<and> healing_n_of (GetSkills scenario_tbl (constructed scenario_src scenario_opts True))
       = Some 200
   \<and> healing_n_of (GetAgents (constructed scenario_src scenario_opts True)) = Some 150
   \<and> AggregatedStats_new two_skills_src no_exclusion False
       = Inr (constructed two_skills_src no_exclusion False)
   \<and> healing_n_of (GetSkills scenario_tbl (constructed two_skills_src no_exclusion False))
       = Some 18446744073709551616
   \<and> healing_n_of (GetAgents (constructed two_skills_src no_exclusion False)) = Some 0
   \<and> map_option Healing
        (value_of (GetTotal scenario_tbl (constructed two_skills_src no_exclusion False)))
       = Some 0"
  by (simp add: GetSkills_healing [OF cache_ok_scenario] GetAgents_healing [OF cache_ok_scenario]
      GetSkills_no_wrap [OF cache_ok_scenario] GetAgents_no_wrap [OF cache_ok_scenario]
      scenario_volume scenario_filtered_sums AggregatedStats_new_scenario
      GetSkills_natural [OF cache_ok_two_skills] GetAgents_natural [OF cache_ok_two_skills]
      GetTotal_healing [OF cache_ok_two_skills] two_skills_natural)
     (simp add: AggregatedStats_new_def no_exclusion_def)

text \<open>
  C1, amended. In whatever states the object is when the three operations are called, in
  either mode, none of them fails, and the healing of \<^verbatim>\<open>GetTotal\<close> is the healing of the
  entries of \<^verbatim>\<open>GetSkills\<close>, added up in 64 bits. This number is the healing of the entries of
  \<^verbatim>\<open>GetAgents\<close>, added up in 64 bits, plus, in debug mode only, the healing of the indirect
  skills from the agents that pass the filter: with debug mode off the three are equal.
  Where the healing of all records of the snapshot, added up as natural numbers, is below
  \<open>2 ^ 64\<close> (twice that healing in debug mode for \<^verbatim>\<open>GetSkills\<close>, which then counts an
  indirect skill twice), the entries add up to the same number as natural numbers as they
  do in 64 bits. Likewise for the hits.
\<close>

theorem conservation_across_groupings:
  assumes "reachable tbl s" and "reachable tbl s'" and "reachable tbl s''"
    and "same_object s s'" and "same_object s s''"
  shows "\<exists>healing hits agents_healing agents_hits.
           healing_of (GetSkills tbl s) = Some healing
           \<and> map_option Healing (value_of (GetTotal tbl s'')) = Some healing
           \<and> healing_of (GetAgents s') = Some agents_healing
           \<and> healing = agents_healing
                + (if myDebugMode s then indirect_healing tbl (mySourceData s) (myOptions s)
                   else 0)
           \<and> hits_of (GetSkills tbl s) = Some hits
           \<and> map_option Hits (value_of (GetTotal tbl s'')) = Some hits
           \<and> hits_of (GetAgents s') = Some agents_hits
           \<and> hits = agents_hits
                + (if myDebugMode s then indirect_ticks tbl (mySourceData s) (myOptions s)
                   else 0)
           \<and> (myDebugMode s = False \<longrightarrow> agents_healing = healing \<and> agents_hits = hits)
           \<and> ((if myDebugMode s then 2 else 1) * healing_volume (mySourceData s) < 2 ^ 64 \<longrightarrow>
                 healing_n_of (GetSkills tbl s) = Some (unat healing))
           \<and> (healing_volume (mySourceData s) < 2 ^ 64 \<longrightarrow>
                 healing_n_of (GetAgents s') = Some (unat agents_healing))
           \<and> ((if myDebugMode s then 2 else 1) * hits_volume (mySourceData s) < 2 ^ 64 \<longrightarrow>
                 hits_n_of (GetSkills tbl s) = Some (unat hits))
           \<and> (hits_volume (mySourceData s) < 2 ^ 64 \<longrightarrow>
                 hits_n_of (GetAgents s') = Some (unat agents_hits))"
proof -
  note ok = reachable_cache_ok [OF assms(1)] and ok' = reachable_cache_ok [OF assms(2)]
    and ok'' = reachable_cache_ok [OF assms(3)]
  from assms(4) have same: "mySourceData s' = mySourceData s" "myOptions s' = myOptions s"
    by (simp_all add: same_object_def)
  let ?h = "healing_w (pick (passes (mySourceData s) (myOptions s))
                         (records_of (SkillsHealing (mySourceData s))))"
  let ?t = "ticks_w (pick (passes (mySourceData s) (myOptions s))
                       (records_of (SkillsHealing (mySourceData s))))"
  let ?ih = "if myDebugMode s then indirect_healing tbl (mySourceData s) (myOptions s) else 0"
  let ?it = "if myDebugMode s then indirect_ticks tbl (mySourceData s) (myOptions s) else 0"
  have skills: "healing_of (GetSkills tbl s) = Some (?h + ?ih)"
    "hits_of (GetSkills tbl s) = Some (?t + ?it)"
    by (simp_all add: GetSkills_healing [OF ok])
  have total: "map_option Healing (value_of (GetTotal tbl s'')) = Some (?h + ?ih)"
    "map_option Hits (value_of (GetTotal tbl s'')) = Some (?t + ?it)"
    using assms(5) by (simp_all add: GetTotal_healing [OF ok''] same_object_def)
  have agents: "healing_of (GetAgents s') = Some ?h" "hits_of (GetAgents s') = Some ?t"
    using assms(4) by (simp_all add: GetAgents_healing [OF ok'] same_object_def)
  have n1: "(if myDebugMode s then 2 else 1) * healing_volume (mySourceData s) < 2 ^ 64 \<longrightarrow>
              healing_n_of (GetSkills tbl s) = Some (unat (?h + ?ih))"
    using GetSkills_no_wrap(1) [OF ok] skills(1) by simp
  have n2: "healing_volume (mySourceData s) < 2 ^ 64 \<longrightarrow>
              healing_n_of (GetAgents s') = Some (unat ?h)"
    using GetAgents_no_wrap(1) [OF ok'] agents(1) same(1) by simp
  have n3: "(if myDebugMode s then 2 else 1) * hits_volume (mySourceData s) < 2 ^ 64 \<longrightarrow>
              hits_n_of (GetSkills tbl s) = Some (unat (?t + ?it))"
    using GetSkills_no_wrap(2) [OF ok] skills(2) by simp
  have n4: "hits_volume (mySourceData s) < 2 ^ 64 \<longrightarrow>
              hits_n_of (GetAgents s') = Some (unat ?t)"
    using GetAgents_no_wrap(2) [OF ok'] agents(2) same(1) by simp
  have off: "myDebugMode s = False \<longrightarrow> ?h = ?h + ?ih \<and> ?t = ?t + ?it"
    by simp
  from skills total agents off n1 n2 n3 n4 show ?thesis by blast
qed

theorem conservation_across_groupings_witness:
  "reachable scenario_tbl (constructed scenario_src scenario_opts False)
   \<and> same_object (constructed scenario_src scenario_opts False)
        (constructed scenario_src scenario_opts False)
   \<and> myDebugMode (constructed scenario_src scenario_opts False) = False
   \<and> healing_volume scenario_src < 2 ^ 64 \<and> hits_volume scenario_src < 2 ^ 64
   \<and> healing_of (GetSkills scenario_tbl (constructed scenario_src scenario_opts False)) = Some 150
   \<and> healing_of (GetAgents (constructed scenario_src scenario_opts False)) = Some 150
   \<and> map_option Healing (value_of (GetTotal scenario_tbl (constructed scenario_src scenario_opts False)))
       = Some 150
   \<and> healing_n_of (GetSkills scenario_tbl (constructed scenario_src scenario_opts False)) = Some 150
   \<and> healing_n_of (GetAgents (constructed scenario_src scenario_opts False)) = Some 150
   \<and> hits_of (GetSkills scenario_tbl (constructed scenario_src scenario_opts False)) = Some 15
   \<and> hits_of (GetAgents (constructed scenario_src scenario_opts False)) = Some 15
   \<and> map_option Hits (value_of (GetTotal scenario_tbl (constructed scenario_src scenario_opts False)))
       = Some 15
   \<and> hits_n_of (GetSkills scenario_tbl (constructed scenario_src scenario_opts False)) = Some 15
   \<and> hits_n_of (GetAgents (constructed scenario_src scenario_opts False)) = Some 15"
proof -
  let ?s = "constructed scenario_src scenario_opts False"
  have ok: "reachable scenario_tbl ?s" by (rule reachable_scenario)
  have same: "same_object ?s ?s" by simp
  have vol: "healing_volume scenario_src < 2 ^ 64" "hits_volume scenario_src < 2 ^ 64"
    by (simp_all add: scenario_volume)
  have skills: "healing_of (GetSkills scenario_tbl ?s) = Some 150"
    "hits_of (GetSkills scenario_tbl ?s) = Some 15"
    by (simp_all add: GetSkills_healing [OF cache_ok_scenario] scenario_filtered_sums)
  from conservation_across_groupings [OF ok ok ok same same] skills ok same vol
  show ?thesis by auto
qed

text \<open>
  C2. The claim: \<^verbatim>\<open>GetDetails\<close> with the data source Skills returns the table of
  \<^verbatim>\<open>GetSkillDetails\<close> for the id. In the code the case \<^verbatim>\<open>DataSource::Skills\<close> calls
  \<^verbatim>\<open>GetSkillDetails\<close> without returning its result and falls through to the case
  \<^verbatim>\<open>DataSource::Agents\<close>. In the scenario of the specification, \<^verbatim>\<open>GetDetails\<close> for Skills
  and id 1 returns the two entries of \<^verbatim>\<open>GetAgentDetails\<close> of agent 1 (skill S1 and the
  synthetic entry), not the one entry of \<^verbatim>\<open>GetSkillDetails\<close> of skill 1 (agent A).
\<close>

theorem GetDetails_Skills_falls_through:
  "map_option (map (\<lambda>e. (Id e, EntryName e, Healing e, Hits e)) \<circ> Entries)
     (value_of (GetDetails scenario_tbl (constructed scenario_src scenario_opts False)
        DataSource_Skills 1))
   = Some [(1, ''S1'', 100, 10), (0, ''Healing by Damage Dealt'', 50, 5)]
   \<and> map_option (map (\<lambda>e. (Id e, EntryName e, Healing e, Hits e)) \<circ> Entries)
       (value_of (GetSkillDetails (constructed scenario_src scenario_opts False) 1))
     = Some [(1, ''A'', 100, 10)]
   \<and> value_of (GetDetails scenario_tbl (constructed scenario_src scenario_opts False)
        DataSource_Skills 1)
     = value_of (GetAgentDetails scenario_tbl (constructed scenario_src scenario_opts False) 1)"
  by (simp add: GetDetails_value [OF cache_ok_scenario, where v = "\<lparr>Entries =
            [\<lparr>Id = 1, EntryName = ''S1'', Healing = 100, Hits = 10, Casts = None\<rparr>,
             \<lparr>Id = 0, EntryName = ''Healing by Damage Dealt'', Healing = 50, Hits = 5,
              Casts = None\<rparr>],
          HighestHealing = 100\<rparr>"]
      GetAgentDetails_value [OF cache_ok_scenario, where v = "\<lparr>Entries =
            [\<lparr>Id = 1, EntryName = ''S1'', Healing = 100, Hits = 10, Casts = None\<rparr>,
             \<lparr>Id = 0, EntryName = ''Healing by Damage Dealt'', Healing = 50, Hits = 5,
              Casts = None\<rparr>],
          HighestHealing = 100\<rparr>"]
      GetSkillDetails_value [OF cache_ok_scenario, where v =
        "\<lparr>Entries = [\<lparr>Id = 1, EntryName = ''A'', Healing = 100, Hits = 10, Casts = None\<rparr>],
          HighestHealing = 100\<rparr>"]
      scenario_agent_details scenario_skill_details)

text \<open>
  C3. The claim: the debug flag does not change the numbers; with the same snapshot and
  options, \<^verbatim>\<open>GetTotal\<close> and the sums of every view are the same with the flag on and off.
  It fails for \<^verbatim>\<open>GetTotal\<close>, which adds up the entries of \<^verbatim>\<open>GetSkills\<close>, and these hold an
  indirect skill twice in debug mode: in the scenario of the specification the total is 150
  healing in 15 hits with the flag off, and 200 healing in 20 hits with the flag on.
\<close>

theorem debug_mode_changes_total:
  "map_option Healing (value_of (GetTotal scenario_tbl (constructed scenario_src scenario_opts False)))
     = Some 150
   \<and> map_option Healing (value_of (GetTotal scenario_tbl (constructed scenario_src scenario_opts True)))
     = Some 200
   \<and> map_option Hits (value_of (GetTotal scenario_tbl (constructed scenario_src scenario_opts False)))
     = Some 15
   \<and> map_option Hits (value_of (GetTotal scenario_tbl (constructed scenario_src scenario_opts True)))
     = Some 20"
  by (simp add: GetTotal_healing [OF cache_ok_scenario] scenario_filtered_sums)

text \<open>
  C3, amended. Take two objects with the same snapshot and options, the first with the
  debug flag off and the second with the flag on, each in any state it can reach. No
  operation fails. \<^verbatim>\<open>GetAgents\<close> and \<^verbatim>\<open>GetSkillDetails\<close> have the same sums of healing and
  of hits in both, and \<^verbatim>\<open>GetGroupFilterTotals\<close> returns the same table. For \<^verbatim>\<open>GetSkills\<close>
  and \<^verbatim>\<open>GetTotal\<close> the sums with the flag on are the sums with the flag off plus the
  healing (the ticks) of the indirect skills from the agents that pass the filter, and for
  \<^verbatim>\<open>GetAgentDetails\<close> plus the healing (the ticks) of the indirect skills of that agent.
\<close>

theorem debug_mode_effect:
  assumes "reachable tbl s" and "reachable tbl s'"
    and "mySourceData s' = mySourceData s" and "myOptions s' = myOptions s"
    and "myDebugMode s = False" and "myDebugMode s' = True"
  shows "(\<exists>healing hits.
            healing_of (GetAgents s) = Some healing \<and> healing_of (GetAgents s') = Some healing
            \<and> hits_of (GetAgents s) = Some hits \<and> hits_of (GetAgents s') = Some hits)
         \<and> (\<forall>pSkillId. \<exists>healing hits.
               healing_of (GetSkillDetails s pSkillId) = Some healing
               \<and> healing_of (GetSkillDetails s' pSkillId) = Some healing
               \<and> hits_of (GetSkillDetails s pSkillId) = Some hits
               \<and> hits_of (GetSkillDetails s' pSkillId) = Some hits)
         \<and> (\<exists>v. value_of (GetGroupFilterTotals s) = Some v
                 \<and> value_of (GetGroupFilterTotals s') = Some v)
         \<and> (\<exists>healing hits.
               healing_of (GetSkills tbl s) = Some healing
               \<and> healing_of (GetSkills tbl s')
                   = Some (healing + indirect_healing tbl (mySourceData s) (myOptions s))
               \<and> hits_of (GetSkills tbl s) = Some hits
               \<and> hits_of (GetSkills tbl s')
                   = Some (hits + indirect_ticks tbl (mySourceData s) (myOptions s)))
         \<and> (\<exists>healing hits.
               map_option Healing (value_of (GetTotal tbl s)) = Some healing
               \<and> map_option Healing (value_of (GetTotal tbl s'))
                   = Some (healing + indirect_healing tbl (mySourceData s) (myOptions s))
               \<and> map_option Hits (value_of (GetTotal tbl s)) = Some hits
               \<and> map_option Hits (value_of (GetTotal tbl s'))
                   = Some (hits + indirect_ticks tbl (mySourceData s) (myOptions s)))
         \<and> (\<forall>pAgentId. \<exists>healing hits.
               healing_of (GetAgentDetails tbl s pAgentId) = Some healing
               \<and> healing_of (GetAgentDetails tbl s' pAgentId)
                   = Some (healing + agent_indirect_healing tbl (mySourceData s) pAgentId)
               \<and> hits_of (GetAgentDetails tbl s pAgentId) = Some hits
               \<and> hits_of (GetAgentDetails tbl s' pAgentId)
                   = Some (hits + agent_indirect_ticks tbl (mySourceData s) pAgentId))"
proof -
  note ok = reachable_cache_ok [OF assms(1)] and ok' = reachable_cache_ok [OF assms(2)]
  obtain v s1 where v: "GetGroupFilterTotals s = Inr (v, s1)"
    "group_filter_totals_view (mySourceData s) = Inr v"
    using GetGroupFilterTotals_ok [OF ok] by blast
  obtain v' s1' where v': "GetGroupFilterTotals s' = Inr (v', s1')"
    "group_filter_totals_view (mySourceData s') = Inr v'"
    using GetGroupFilterTotals_ok [OF ok'] by blast
  have "\<exists>v. value_of (GetGroupFilterTotals s) = Some v
           \<and> value_of (GetGroupFilterTotals s') = Some v"
    using v v' assms(3) by (simp add: value_of_def)
  then show ?thesis
    using assms(3-6)
    by (simp add: GetAgents_healing [OF ok] GetAgents_healing [OF ok']
        GetSkillDetails_healing [OF ok] GetSkillDetails_healing [OF ok']
        GetSkills_healing [OF ok] GetSkills_healing [OF ok']
        GetTotal_healing [OF ok] GetTotal_healing [OF ok']
        GetAgentDetails_healing [OF ok] GetAgentDetails_healing [OF ok']
        cong: option.case_cong)
qed

theorem debug_mode_effect_witness:
  "reachable scenario_tbl (constructed scenario_src scenario_opts False)
   \<and> reachable scenario_tbl (constructed scenario_src scenario_opts True)
   \<and> mySourceData (constructed scenario_src scenario_opts True)
       = mySourceData (constructed scenario_src scenario_opts False)
   \<and> myOptions (constructed scenario_src scenario_opts True)
       = myOptions (constructed scenario_src scenario_opts False)
   \<and> myDebugMode (constructed scenario_src scenario_opts False) = False
   \<and> myDebugMode (constructed scenario_src scenario_opts True) = True
   \<and> healing_of (GetAgents (constructed scenario_src scenario_opts False)) = Some 150
   \<and> healing_of (GetAgents (constructed scenario_src scenario_opts True)) = Some 150
   \<and> healing_of (GetSkills scenario_tbl (constructed scenario_src scenario_opts False)) = Some 150
   \<and> healing_of (GetSkills scenario_tbl (constructed scenario_src scenario_opts True))
       = Some (150 + 50)"
proof -
  let ?s = "constructed scenario_src scenario_opts False"
  let ?s' = "constructed scenario_src scenario_opts True"
  have ok: "reachable scenario_tbl ?s" and ok': "reachable scenario_tbl ?s'"
    by (rule reachable_scenario)+
  have src: "mySourceData ?s' = mySourceData ?s" and opts: "myOptions ?s' = myOptions ?s"
    and off: "myDebugMode ?s = False" and on: "myDebugMode ?s' = True"
    by simp_all
  have a: "healing_of (GetAgents ?s) = Some 150"
    by (simp add: GetAgents_healing [OF cache_ok_scenario] scenario_filtered_sums)
  have b: "healing_of (GetSkills scenario_tbl ?s) = Some 150"
    by (simp add: GetSkills_healing [OF cache_ok_scenario] scenario_filtered_sums)
  from debug_mode_effect [OF ok ok' src opts off on] a b ok ok'
  show ?thesis by (auto simp: scenario_filtered_sums)
qed

text \<open>
  C4. The claim: an agent that is in the agent map, is not a minion and has subgroup 0,
  while the local subgroup is 0 as well, is not excluded under any options, also where
  \<^verbatim>\<open>ExcludeGroup\<close> is set. It fails: the last test of \<^verbatim>\<open>FilterInternal\<close> compares the two
  subgroups, which are equal, and excludes the agent where \<^verbatim>\<open>ExcludeGroup\<close> is set.
\<close>

theorem FilterInternal_ungrouped_excluded:
  "Agents ungrouped_src 1 = Some \<lparr>Name = ''A'', Subgroup = 0, IsMinion = False\<rparr>
   \<and> SubGroup ungrouped_src = 0
   \<and> FilterInternal ungrouped_src (Agents ungrouped_src 1) exclude_group = True
   \<and> Filter ungrouped_src exclude_group 1 = True"
  by (simp add: ungrouped_src_def exclude_group_def FilterInternal_def Filter_def)

text \<open>
  C4, amended. Such an agent is excluded exactly where \<^verbatim>\<open>ExcludeGroup\<close> is set: the other
  four flags have no effect on it.
\<close>

theorem FilterInternal_ungrouped:
  assumes "Agents src agentId = Some a" and "IsMinion a = False"
    and "Subgroup a = 0" and "SubGroup src = 0"
  shows "FilterInternal src (Agents src agentId) pFilter = ExcludeGroup pFilter
         \<and> Filter src pFilter agentId = ExcludeGroup pFilter"
  using assms by (simp add: FilterInternal_def Filter_def)

theorem FilterInternal_ungrouped_witness:
  "Agents ungrouped_src 1 = Some \<lparr>Name = ''A'', Subgroup = 0, IsMinion = False\<rparr>
   \<and> IsMinion \<lparr>Name = ''A'', Subgroup = 0, IsMinion = False\<rparr> = False
   \<and> Subgroup \<lparr>Name = ''A'', Subgroup = 0, IsMinion = False\<rparr> = 0
   \<and> SubGroup ungrouped_src = 0
   \<and> FilterInternal ungrouped_src (Agents ungrouped_src 1) no_exclusion = False
   \<and> Filter ungrouped_src no_exclusion 1 = False"
proof -
  have a: "Agents ungrouped_src 1 = Some \<lparr>Name = ''A'', Subgroup = 0, IsMinion = False\<rparr>"
    and g: "SubGroup ungrouped_src = 0"
    by (simp_all add: ungrouped_src_def)
  show ?thesis
    using FilterInternal_ungrouped [OF a _ _ g, of no_exclusion] a g
    by (simp add: no_exclusion_def)
qed

text \<open>
  C5. The claim: for every snapshot the four entries of \<^verbatim>\<open>GetGroupFilterTotals\<close> have
  non-decreasing healing (and hits) in the order Group, Squad, All (Excluding Summons), All
  (Including Summons). The totals are added up in 64 bits without a check, so the claim
  fails where a later entry wraps around: with \<open>2 ^ 64 - 1\<close> healing from the own group and
  1 from another group of the squad, Group is \<open>2 ^ 64 - 1\<close> and Squad is 0.
\<close>

theorem group_filter_totals_wrap_around:
  "map_option (\<lambda>v. (map Healing (Entries v), Healing (Entries v ! 0) \<le> Healing (Entries v ! 1)))
     (value_of (GetGroupFilterTotals (constructed overflow_src no_exclusion False)))
   = Some ([18446744073709551615, 0, 0, 0], False)"
proof -
  have "map_option Entries (value_of (GetGroupFilterTotals (constructed overflow_src no_exclusion False)))
          = Some [group_entry overflow_src 0 ''Group'', group_entry overflow_src 1 ''Squad'',
                  group_entry overflow_src 2 ''All (Excluding Summons)'',
                  group_entry overflow_src 3 ''All (Including Summons)'']"
    using GetGroupFilterTotals_entries [OF cache_ok_no_exclusion [of scenario_tbl overflow_src False]]
    by simp
  then show ?thesis
    by (auto simp: overflow_group_entries)
qed

text \<open>
  C5, amended. \<^verbatim>\<open>GetGroupFilterTotals\<close> never fails and returns four entries with the
  names Group, Squad, All (Excluding Summons) and All (Including Summons), in this order.
  Where the healing of all records of the snapshot, added up as natural numbers, is below
  \<open>2 ^ 64\<close>, the healing of the four entries is non-decreasing in this order; where the
  ticks of all records are below \<open>2 ^ 64\<close>, so are the hits.
\<close>

theorem group_filter_totals_ordered:
  assumes "reachable tbl s"
  shows "\<exists>e0 e1 e2 e3.
           map_option Entries (value_of (GetGroupFilterTotals s)) = Some [e0, e1, e2, e3]
           \<and> EntryName e0 = ''Group'' \<and> EntryName e1 = ''Squad''
           \<and> EntryName e2 = ''All (Excluding Summons)''
           \<and> EntryName e3 = ''All (Including Summons)''
           \<and> (healing_volume (mySourceData s) < 2 ^ 64 \<longrightarrow>
                Healing e0 \<le> Healing e1 \<and> Healing e1 \<le> Healing e2 \<and> Healing e2 \<le> Healing e3)
           \<and> (hits_volume (mySourceData s) < 2 ^ 64 \<longrightarrow>
                Hits e0 \<le> Hits e1 \<and> Hits e1 \<le> Hits e2 \<and> Hits e2 \<le> Hits e3)"
proof -
  let ?src = "mySourceData s"
  let ?e0 = "group_entry ?src 0 ''Group''"
  let ?e1 = "group_entry ?src 1 ''Squad''"
  let ?e2 = "group_entry ?src 2 ''All (Excluding Summons)''"
  let ?e3 = "group_entry ?src 3 ''All (Including Summons)''"
  have e: "map_option Entries (value_of (GetGroupFilterTotals s)) = Some [?e0, ?e1, ?e2, ?e3]"
    by (rule GetGroupFilterTotals_entries [OF reachable_cache_ok [OF assms]])
  have n: "EntryName ?e0 = ''Group'' \<and> EntryName ?e1 = ''Squad''
           \<and> EntryName ?e2 = ''All (Excluding Summons)''
           \<and> EntryName ?e3 = ''All (Including Summons)''"
    by (simp add: group_entry_def)
  have h: "healing_volume ?src < 2 ^ 64 \<longrightarrow>
             Healing ?e0 \<le> Healing ?e1 \<and> Healing ?e1 \<le> Healing ?e2 \<and> Healing ?e2 \<le> Healing ?e3"
    using group_entry_le [of ?src] by blast
  have t: "hits_volume ?src < 2 ^ 64 \<longrightarrow>
             Hits ?e0 \<le> Hits ?e1 \<and> Hits ?e1 \<le> Hits ?e2 \<and> Hits ?e2 \<le> Hits ?e3"
    using group_entry_hits_le [of ?src] by blast
  from e n h t show ?thesis by blast
qed

theorem group_filter_totals_ordered_witness:
  "reachable scenario_tbl (constructed scenario_src scenario_opts False)
   \<and> healing_volume (mySourceData (constructed scenario_src scenario_opts False)) < 2 ^ 64
   \<and> hits_volume (mySourceData (constructed scenario_src scenario_opts False)) < 2 ^ 64
   \<and> (\<exists>e0 e1 e2 e3.
         map_option Entries
           (value_of (GetGroupFilterTotals (constructed scenario_src scenario_opts False)))
           = Some [e0, e1, e2, e3]
         \<and> Healing e0 \<le> Healing e1 \<and> Healing e1 \<le> Healing e2 \<and> Healing e2 \<le> Healing e3
         \<and> Hits e0 \<le> Hits e1 \<and> Hits e1 \<le> Hits e2 \<and> Hits e2 \<le> Hits e3)"
proof -
  have ok: "reachable scenario_tbl (constructed scenario_src scenario_opts False)"
    by (rule reachable_scenario)
  have h: "healing_volume (mySourceData (constructed scenario_src scenario_opts False)) < 2 ^ 64"
    and t: "hits_volume (mySourceData (constructed scenario_src scenario_opts False)) < 2 ^ 64"
    by (simp_all add: scenario_volume)
  from group_filter_totals_ordered [OF ok] h t ok show ?thesis
    by blast
qed

text \<open>
  C6. The claim: in the scenario of the specification \<^verbatim>\<open>GetGroupFilterTotals\<close> gives 150
  healing for Group, 180 for Squad and 185 for both All entries, the 5 of the unmapped
  agent being part of the last two. It fails: all four filters of
  \<^verbatim>\<open>GetGroupFilterTotals\<close> set \<^verbatim>\<open>ExcludeUnmapped\<close>, so the unmapped agent is in none of the
  four totals, and both All entries are 180.
\<close>

theorem scenario_group_filter_totals:
  "map_option (map Healing \<circ> Entries)
     (value_of (GetGroupFilterTotals (constructed scenario_src scenario_opts False)))
   = Some [150, 180, 180, 180]
   \<and> map_option (map Healing \<circ> Entries)
       (value_of (GetGroupFilterTotals (constructed scenario_src scenario_opts False)))
     \<noteq> Some [150, 180, 185, 185]"
proof -
  have "map_option Entries (value_of (GetGroupFilterTotals (constructed scenario_src scenario_opts False)))
          = Some [group_entry scenario_src 0 ''Group'', group_entry scenario_src 1 ''Squad'',
                  group_entry scenario_src 2 ''All (Excluding Summons)'',
                  group_entry scenario_src 3 ''All (Including Summons)'']"
    using GetGroupFilterTotals_entries [OF cache_ok_scenario [of scenario_tbl False]] by simp
  then show ?thesis
    by (auto simp: scenario_group_entries)
qed

text \<open>
  C6, amended. Whatever the options, the debug flag and the state reached of an object
  that holds the snapshot of the scenario, \<^verbatim>\<open>GetGroupFilterTotals\<close> gives 150
  healing in 15 hits for Group and 180 healing in 18 hits for Squad and for both All
  entries; the unmapped agent 3 passes none of the four filters.
\<close>

theorem scenario_group_filter_totals_amended:
  assumes "reachable tbl s" and "mySourceData s = scenario_src"
  shows "map_option (map (\<lambda>e. (EntryName e, Healing e, Hits e)) \<circ> Entries)
           (value_of (GetGroupFilterTotals s))
         = Some [(''Group'', 150, 15), (''Squad'', 180, 18),
                 (''All (Excluding Summons)'', 180, 18), (''All (Including Summons)'', 180, 18)]
         \<and> \<not> group_pass (mySourceData s) 0 3 \<and> \<not> group_pass (mySourceData s) 1 3
         \<and> \<not> group_pass (mySourceData s) 2 3 \<and> \<not> group_pass (mySourceData s) 3 3"
proof -
  have "map_option Entries (value_of (GetGroupFilterTotals s))
          = Some [group_entry scenario_src 0 ''Group'', group_entry scenario_src 1 ''Squad'',
                  group_entry scenario_src 2 ''All (Excluding Summons)'',
                  group_entry scenario_src 3 ''All (Including Summons)'']"
    using GetGroupFilterTotals_entries [OF reachable_cache_ok [OF assms(1)]] assms(2) by simp
  then show ?thesis
    by (auto simp: scenario_group_entries assms(2) scenario_group_pass)
qed

theorem scenario_group_filter_totals_amended_witness:
  "reachable scenario_tbl (constructed scenario_src scenario_opts False)
   \<and> mySourceData (constructed scenario_src scenario_opts False) = scenario_src
   \<and> map_option (map (\<lambda>e. (EntryName e, Healing e, Hits e)) \<circ> Entries)
       (value_of (GetGroupFilterTotals (constructed scenario_src scenario_opts False)))
     = Some [(''Group'', 150, 15), (''Squad'', 180, 18),
             (''All (Excluding Summons)'', 180, 18), (''All (Including Summons)'', 180, 18)]"
proof -
  have ok: "reachable scenario_tbl (constructed scenario_src scenario_opts False)"
    by (rule reachable_scenario)
  have src: "mySourceData (constructed scenario_src scenario_opts False) = scenario_src"
    by simp
  from scenario_group_filter_totals_amended [OF ok src] ok src show ?thesis
    by blast
qed

text \<open>
  C7. The claim: turning one exclusion flag on, the others fixed, never moves an agent from
  excluded to included, and so never increases the healing or the hits of any view. The
  first half holds. The second fails, because the sums are added up in 64 bits without a
  check: with \<open>2 ^ 64 - 1\<close> healing from the own group and 1 from another group of the
  squad, \<^verbatim>\<open>GetTotal\<close> is 0 with no flag set and \<open>2 ^ 64 - 1\<close> once \<^verbatim>\<open>ExcludeOffGroup\<close> is
  turned on.
\<close>

theorem exclusion_flag_increases_total:
  "excludes_more no_exclusion (no_exclusion\<lparr>ExcludeOffGroup := True\<rparr>)
   \<and> map_option Healing (value_of (GetTotal scenario_tbl (constructed overflow_src no_exclusion False)))
       = Some 0
   \<and> map_option Healing
         (value_of (GetTotal scenario_tbl
            (constructed overflow_src (no_exclusion\<lparr>ExcludeOffGroup := True\<rparr>) False)))
       = Some 18446744073709551615"
proof -
  have ok: "cache_ok scenario_tbl (constructed overflow_src no_exclusion False)"
    by (rule cache_ok_no_exclusion)
  have ok': "cache_ok scenario_tbl
               (constructed overflow_src (no_exclusion\<lparr>ExcludeOffGroup := True\<rparr>) False)"
    by (rule cache_ok_constructed) (simp_all add: no_exclusion_def)
  show ?thesis
    by (simp add: GetTotal_healing [OF ok] GetTotal_healing [OF ok'] overflow_filtered_sums)
       (simp add: excludes_more_def)
qed

text \<open>
  C7, amended. Take two objects with the same snapshot and debug flag, each in any state it
  can reach, where the options of the second have every exclusion flag of the first
  (turning one flag on is the case in point). Then every agent that \<^verbatim>\<open>FilterInternal\<close>
  excludes under the first options is excluded under the second. No operation fails. Where
  the healing of all records, added up as natural numbers (twice in debug mode for
  \<^verbatim>\<open>GetSkills\<close> and \<^verbatim>\<open>GetTotal\<close>, which then count an indirect skill twice), is below
  \<open>2 ^ 64\<close>, the healing of \<^verbatim>\<open>GetAgents\<close>, \<^verbatim>\<open>GetSkillDetails\<close>, \<^verbatim>\<open>GetSkills\<close> and \<^verbatim>\<open>GetTotal\<close>
  of the second object is at most that of the first; likewise for the hits. The sums of
  \<^verbatim>\<open>GetAgentDetails\<close> and the table of \<^verbatim>\<open>GetGroupFilterTotals\<close>, which do not use the flags
  of the object, are the same in both.
\<close>

theorem filter_monotonicity:
  assumes "reachable tbl s" and "reachable tbl s'"
    and "mySourceData s' = mySourceData s" and "myDebugMode s' = myDebugMode s"
    and "excludes_more (myOptions s) (myOptions s')"
  shows "(\<forall>pAgent. FilterInternal (mySourceData s) pAgent (myOptions s) \<longrightarrow>
                   FilterInternal (mySourceData s) pAgent (myOptions s'))
         \<and> (healing_volume (mySourceData s) < 2 ^ 64 \<longrightarrow>
               not_above (healing_of (GetAgents s')) (healing_of (GetAgents s))
               \<and> (\<forall>pSkillId. not_above (healing_of (GetSkillDetails s' pSkillId))
                                       (healing_of (GetSkillDetails s pSkillId))))
         \<and> ((if myDebugMode s then 2 else 1) * healing_volume (mySourceData s) < 2 ^ 64 \<longrightarrow>
               not_above (healing_of (GetSkills tbl s')) (healing_of (GetSkills tbl s))
               \<and> not_above (map_option Healing (value_of (GetTotal tbl s')))
                            (map_option Healing (value_of (GetTotal tbl s))))
         \<and> (hits_volume (mySourceData s) < 2 ^ 64 \<longrightarrow>
               not_above (hits_of (GetAgents s')) (hits_of (GetAgents s))
               \<and> (\<forall>pSkillId. not_above (hits_of (GetSkillDetails s' pSkillId))
                                       (hits_of (GetSkillDetails s pSkillId))))
         \<and> ((if myDebugMode s then 2 else 1) * hits_volume (mySourceData s) < 2 ^ 64 \<longrightarrow>
               not_above (hits_of (GetSkills tbl s')) (hits_of (GetSkills tbl s))
               \<and> not_above (map_option Hits (value_of (GetTotal tbl s')))
                            (map_option Hits (value_of (GetTotal tbl s))))
         \<and> (\<forall>pAgentId. \<exists>healing hits.
               healing_of (GetAgentDetails tbl s pAgentId) = Some healing
               \<and> healing_of (GetAgentDetails tbl s' pAgentId) = Some healing
               \<and> hits_of (GetAgentDetails tbl s pAgentId) = Some hits
               \<and> hits_of (GetAgentDetails tbl s' pAgentId) = Some hits)
         \<and> (\<exists>v. value_of (GetGroupFilterTotals s) = Some v
                 \<and> value_of (GetGroupFilterTotals s') = Some v)"
proof -
  note ok = reachable_cache_ok [OF assms(1)] and ok' = reachable_cache_ok [OF assms(2)]
  let ?src = "mySourceData s"
  let ?c = "myOptions s"
  let ?c' = "myOptions s'"
  let ?dbg = "myDebugMode s"
  have f: "\<forall>pAgent. FilterInternal ?src pAgent ?c \<longrightarrow> FilterInternal ?src pAgent ?c'"
    using FilterInternal_mono [OF assms(5)] by blast
  have a: "healing_volume ?src < 2 ^ 64 \<longrightarrow>
             not_above (healing_of (GetAgents s')) (healing_of (GetAgents s))
             \<and> (\<forall>pSkillId. not_above (healing_of (GetSkillDetails s' pSkillId))
                                     (healing_of (GetSkillDetails s pSkillId)))"
    using skills_sum_mono [OF assms(5), of False ?src tbl]
      skill_details_sum_mono [OF assms(5), of ?src]
    by (simp add: GetAgents_healing [OF ok] GetAgents_healing [OF ok']
        GetSkillDetails_healing [OF ok] GetSkillDetails_healing [OF ok'] assms(3)
        cong: option.case_cong)
  have b: "(if ?dbg then 2 else 1) * healing_volume ?src < 2 ^ 64 \<longrightarrow>
             not_above (healing_of (GetSkills tbl s')) (healing_of (GetSkills tbl s))
             \<and> not_above (map_option Healing (value_of (GetTotal tbl s')))
                          (map_option Healing (value_of (GetTotal tbl s)))"
    using skills_sum_mono [OF assms(5), of ?dbg ?src tbl]
    by (cases "myDebugMode s";
        simp add: GetSkills_healing [OF ok] GetSkills_healing [OF ok']
          GetTotal_healing [OF ok] GetTotal_healing [OF ok'] assms(3,4))
  have c: "hits_volume ?src < 2 ^ 64 \<longrightarrow>
             not_above (hits_of (GetAgents s')) (hits_of (GetAgents s))
             \<and> (\<forall>pSkillId. not_above (hits_of (GetSkillDetails s' pSkillId))
                                     (hits_of (GetSkillDetails s pSkillId)))"
    using skills_hits_mono [OF assms(5), of False ?src tbl]
      skill_details_hits_mono [OF assms(5), of ?src]
    by (simp add: GetAgents_healing [OF ok] GetAgents_healing [OF ok']
        GetSkillDetails_healing [OF ok] GetSkillDetails_healing [OF ok'] assms(3)
        cong: option.case_cong)
  have d: "(if ?dbg then 2 else 1) * hits_volume ?src < 2 ^ 64 \<longrightarrow>
             not_above (hits_of (GetSkills tbl s')) (hits_of (GetSkills tbl s))
             \<and> not_above (map_option Hits (value_of (GetTotal tbl s')))
                          (map_option Hits (value_of (GetTotal tbl s)))"
    using skills_hits_mono [OF assms(5), of ?dbg ?src tbl]
    by (cases "myDebugMode s";
        simp add: GetSkills_healing [OF ok] GetSkills_healing [OF ok']
          GetTotal_healing [OF ok] GetTotal_healing [OF ok'] assms(3,4))
  have e: "\<forall>pAgentId. \<exists>healing hits.
             healing_of (GetAgentDetails tbl s pAgentId) = Some healing
             \<and> healing_of (GetAgentDetails tbl s' pAgentId) = Some healing
             \<and> hits_of (GetAgentDetails tbl s pAgentId) = Some hits
             \<and> hits_of (GetAgentDetails tbl s' pAgentId) = Some hits"
    by (simp add: GetAgentDetails_healing [OF ok] GetAgentDetails_healing [OF ok']
        assms(3,4))
  obtain v s1 where v: "GetGroupFilterTotals s = Inr (v, s1)"
    "group_filter_totals_view (mySourceData s) = Inr v"
    using GetGroupFilterTotals_ok [OF ok] by blast
  obtain v' s1' where v': "GetGroupFilterTotals s' = Inr (v', s1')"
    "group_filter_totals_view (mySourceData s') = Inr v'"
    using GetGroupFilterTotals_ok [OF ok'] by blast
  have g: "\<exists>v. value_of (GetGroupFilterTotals s) = Some v
             \<and> value_of (GetGroupFilterTotals s') = Some v"
    using v v' assms(3) by (simp add: value_of_def)
  from f a b c d e g show ?thesis by blast
qed

theorem filter_monotonicity_witness:
  "reachable scenario_tbl
     (constructed scenario_src (scenario_opts\<lparr>ExcludeOffGroup := False\<rparr>) False)
   \<and> reachable scenario_tbl (constructed scenario_src scenario_opts False)
   \<and> excludes_more (scenario_opts\<lparr>ExcludeOffGroup := False\<rparr>) scenario_opts
   \<and> healing_volume scenario_src < 2 ^ 64
   \<and> healing_of (GetAgents (constructed scenario_src (scenario_opts\<lparr>ExcludeOffGroup := False\<rparr>) False))
       = Some 180
   \<and> healing_of (GetAgents (constructed scenario_src scenario_opts False)) = Some 150
   \<and> not_above (healing_of (GetAgents (constructed scenario_src scenario_opts False)))
        (healing_of (GetAgents
           (constructed scenario_src (scenario_opts\<lparr>ExcludeOffGroup := False\<rparr>) False)))
   \<and> not_above (healing_of (GetSkills scenario_tbl (constructed scenario_src scenario_opts False)))
        (healing_of (GetSkills scenario_tbl
           (constructed scenario_src (scenario_opts\<lparr>ExcludeOffGroup := False\<rparr>) False)))"
proof -
  let ?s = "constructed scenario_src (scenario_opts\<lparr>ExcludeOffGroup := False\<rparr>) False"
  let ?s' = "constructed scenario_src scenario_opts False"
  have ok: "reachable scenario_tbl ?s"
    by (rule reachable_constructed) (simp_all add: scenario_opts_def)
  have ok': "reachable scenario_tbl ?s'"
    by (rule reachable_scenario)
  have src: "mySourceData ?s' = mySourceData ?s" and dbg: "myDebugMode ?s' = myDebugMode ?s"
    by simp_all
  have more: "excludes_more (myOptions ?s) (myOptions ?s')"
    by (simp add: excludes_more_def)
  have vol: "healing_volume scenario_src < 2 ^ 64"
    by (simp add: scenario_volume)
  have a: "healing_of (GetAgents ?s) = Some 180" and a': "healing_of (GetAgents ?s') = Some 150"
    by (simp_all add: GetAgents_healing [OF reachable_cache_ok [OF ok]]
        GetAgents_healing [OF reachable_cache_ok [OF ok']] scenario_squad_sums
        scenario_filtered_sums)
  from filter_monotonicity [OF ok ok' src dbg more] ok ok' more vol a a'
  show ?thesis by simp
qed

text \<open>
  C8. The claim: \<^verbatim>\<open>GetCombatTime\<close> returns \<open>(end - enteredCombat) / 1000\<close>, where \<open>end\<close> is
  chosen by the end condition, and under the invariant of the snapshot \<open>enteredCombat\<close> is
  not after \<open>end\<close>. The choice of \<open>end\<close> is the one of the claim (\<open>GetCombatTime_end\<close>), and
  under the invariant the assertion holds (lemmas \<open>GetCombatTime_end_not_before\<close> and
  \<open>GetCombatTime_returns\<close>). For time stamps below \<open>2 ^ 24\<close> the result is the \<^verbatim>\<open>float\<close>
  nearest to the one of the claim (lemma \<open>GetCombatTime_small\<close>). For larger ones it need
  not be: the code converts \<^verbatim>\<open>end\<close> and \<^verbatim>\<open>EnteredCombatTime\<close> to \<^verbatim>\<open>float\<close> before it
  subtracts, and a \<^verbatim>\<open>float\<close> has 24 significant bits. For a combat that began at
  1700000000000 ms and ended 1500 ms later, with the end condition \<^verbatim>\<open>CombatExit\<close> and every
  time stamp after the beginning, both time stamps become 1700000038912 and
  \<^verbatim>\<open>GetCombatTime\<close> returns 0, where the claim says 1.5, which is itself a \<^verbatim>\<open>float\<close>.
\<close>

theorem GetCombatTime_rounds_before_subtracting:
  "AggregatedStats_new late_src scenario_opts False
     = Inr (constructed late_src scenario_opts False)
   \<and> EnteredCombatTime late_src = 1700000000000
   \<and> ExitedCombatTime late_src = 1700000001500
   \<and> LastHealEvent late_src = 1700000001200
   \<and> LastDamageEvent late_src = 1700000001400
   \<and> CombatEndConditionChoice scenario_opts = CombatEndCondition_CombatExit
   \<and> GetCombatTime_end (constructed late_src scenario_opts False) = 1700000001500
   \<and> combat_time_exact (constructed late_src scenario_opts False) = 3 / 2
   \<and> round_f32 (combat_time_exact (constructed late_src scenario_opts False)) = 3 / 2
   \<and> f32_of_u64 1700000000000 = 1700000038912
   \<and> f32_of_u64 1700000001500 = 1700000038912
   \<and> GetCombatTime (constructed late_src scenario_opts False) = Inr 0"
  by (simp add: AggregatedStats_new_def GetCombatTime_def GetCombatTime_end_def Let_def
      combat_time_exact_def late_sel scenario_end_condition f32_of_u64_def f32_of_int_def
      f32_sub_def f32_div_def round_f32_values round_f32_three_halves)
     (simp add: scenario_opts_def)

text \<open>
  C9. For a skill id that is not in \<^verbatim>\<open>SkillsHealing\<close> (the synthetic id of the indirect
  healing entry is one whenever the snapshot has no skill with that id), \<^verbatim>\<open>GetSkillDetails\<close>
  returns the empty table, whether it was cached or not; and on an object that the
  constructor has made, in whatever state it has reached, every view operation returns: none
  of the assertions of the source fails. The assertion of \<^verbatim>\<open>GetCombatTime\<close> is about the
  time stamps of the snapshot, and \<^verbatim>\<open>GetCombatTime\<close> returns where these satisfy the
  invariant of the snapshot.
\<close>

theorem unknown_skill_details_empty:
  assumes "reachable tbl s"
    and "map_of (SkillsHealing (mySourceData s)) pSkillId = None"
  shows "value_of (GetSkillDetails s pSkillId) = Some AggregatedVector_new
         \<and> Entries AggregatedVector_new = []
         \<and> returns (GetTotal tbl s) \<and> returns (GetAgents s) \<and> returns (GetSkills tbl s)
         \<and> returns (GetGroupFilterTotals s)
         \<and> (\<forall>pAgentId. returns (GetAgentDetails tbl s pAgentId))
         \<and> (\<forall>k. returns (GetSkillDetails s k))
         \<and> (\<forall>pDataSource. returns (GetStats tbl s pDataSource))
         \<and> (\<forall>pDataSource pId. returns (GetDetails tbl s pDataSource pId))
         \<and> (timestamps_ok (mySourceData s) \<longrightarrow> returns (GetCombatTime s))"
proof -
  note ok = reachable_cache_ok [OF assms(1)]
  have "skill_details_view (mySourceData s) (myOptions s) (myDebugMode s) pSkillId
          = Inr AggregatedVector_new"
    using assms(2) by (simp add: skill_details_view_def GetSkillDetails_build_def)
  from GetSkillDetails_value [OF ok this]
  have 1: "value_of (GetSkillDetails s pSkillId) = Some AggregatedVector_new" .
  have 2: "Entries AggregatedVector_new = []"
    by (simp add: AggregatedVector_new_def)
  have 3: "returns (GetTotal tbl s)" "returns (GetAgents s)" "returns (GetSkills tbl s)"
    "returns (GetGroupFilterTotals s)"
    using GetTotal_ok [OF ok] GetAgents_ok [OF ok] GetSkills_ok [OF ok]
      GetGroupFilterTotals_ok [OF ok]
    by auto
  have 4: "\<forall>pAgentId. returns (GetAgentDetails tbl s pAgentId)"
    using GetAgentDetails_ok [OF ok] by (metis returns_Inr)
  have 5: "\<forall>k. returns (GetSkillDetails s k)"
    using GetSkillDetails_ok [OF ok] by (metis returns_Inr)
  have 6: "\<forall>pDataSource. returns (GetStats tbl s pDataSource)"
    using GetStats_ok [OF ok] by (metis returns_Inr)
  have 7: "\<forall>pDataSource pId. returns (GetDetails tbl s pDataSource pId)"
    using GetDetails_ok [OF ok] by (metis returns_Inr)
  have 8: "timestamps_ok (mySourceData s) \<longrightarrow> returns (GetCombatTime s)"
    by (simp add: GetCombatTime_returns)
  from 1 2 3 4 5 6 7 8 show ?thesis by blast
qed

theorem unknown_skill_details_empty_witness:
  "reachable scenario_tbl (constructed scenario_src scenario_opts False)
   \<and> map_of (SkillsHealing (mySourceData (constructed scenario_src scenario_opts False)))
        (IndirectHealingSkillId scenario_tbl) = None
   \<and> value_of (GetSkillDetails (constructed scenario_src scenario_opts False)
        (IndirectHealingSkillId scenario_tbl)) = Some \<lparr>Entries = [], HighestHealing = 0\<rparr>
   \<and> returns (GetTotal scenario_tbl (constructed scenario_src scenario_opts False))
   \<and> timestamps_ok scenario_src
   \<and> returns (GetCombatTime (constructed scenario_src scenario_opts False))"
proof -
  have ok: "reachable scenario_tbl (constructed scenario_src scenario_opts False)"
    by (rule reachable_scenario)
  have absent: "map_of (SkillsHealing (mySourceData (constructed scenario_src scenario_opts False)))
                  (IndirectHealingSkillId scenario_tbl) = None"
    by (simp add: scenario_sel scenario_tbl_def)
  from unknown_skill_details_empty [OF ok absent] ok absent timestamps_ok_scenario
  show ?thesis
    by (simp add: AggregatedVector_new_def)
qed

text \<open>
  C10. On an object that the constructor has made, in whatever state it has reached, every
  view operation returns, the entry of \<^verbatim>\<open>GetTotal\<close> has no casts, and neither has any entry
  of the tables of \<^verbatim>\<open>GetAgents\<close>, \<^verbatim>\<open>GetSkills\<close>, \<^verbatim>\<open>GetAgentDetails\<close>, \<^verbatim>\<open>GetSkillDetails\<close> and
  \<^verbatim>\<open>GetGroupFilterTotals\<close>.
\<close>

theorem casts_always_absent:
  assumes "reachable tbl s"
  shows "(\<exists>t. value_of (GetTotal tbl s) = Some t \<and> Casts t = None)
         \<and> (\<exists>v. value_of (GetAgents s) = Some v \<and> casts_absent v)
         \<and> (\<exists>v. value_of (GetSkills tbl s) = Some v \<and> casts_absent v)
         \<and> (\<forall>pAgentId. \<exists>v. value_of (GetAgentDetails tbl s pAgentId) = Some v \<and> casts_absent v)
         \<and> (\<forall>pSkillId. \<exists>v. value_of (GetSkillDetails s pSkillId) = Some v \<and> casts_absent v)
         \<and> (\<exists>v. value_of (GetGroupFilterTotals s) = Some v \<and> casts_absent v)"
proof -
  note ok = reachable_cache_ok [OF assms]
  have 1: "\<exists>t. value_of (GetTotal tbl s) = Some t \<and> Casts t = None"
    using GetTotal_ok [OF ok] total_view_sums by (fastforce simp: value_of_def)
  have 2: "\<exists>v. value_of (GetAgents s) = Some v \<and> casts_absent v"
    using GetAgents_ok [OF ok] casts_absent_views(1) by (fastforce simp: value_of_def)
  have 3: "\<exists>v. value_of (GetSkills tbl s) = Some v \<and> casts_absent v"
    using GetSkills_ok [OF ok] casts_absent_views(2) by (fastforce simp: value_of_def)
  have 4: "\<exists>v. value_of (GetAgentDetails tbl s pAgentId) = Some v \<and> casts_absent v"
    for pAgentId
    using GetAgentDetails_ok [OF ok, of pAgentId] casts_absent_views(3)
    by (fastforce simp: value_of_def)
  have 5: "\<exists>v. value_of (GetSkillDetails s pSkillId) = Some v \<and> casts_absent v"
    for pSkillId
    using GetSkillDetails_ok [OF ok, of pSkillId] casts_absent_views(4)
    by (fastforce simp: value_of_def)
  have 6: "\<exists>v. value_of (GetGroupFilterTotals s) = Some v \<and> casts_absent v"
    using GetGroupFilterTotals_ok [OF ok] casts_absent_views(5)
    by (fastforce simp: value_of_def)
  from 1 2 3 4 5 6 show ?thesis by blast
qed

theorem casts_always_absent_witness:
  "reachable scenario_tbl (constructed scenario_src scenario_opts True)
   \<and> (\<exists>v. value_of (GetSkills scenario_tbl (constructed scenario_src scenario_opts True)) = Some v
          \<and> casts_absent v)
   \<and> (\<exists>t. value_of (GetTotal scenario_tbl (constructed scenario_src scenario_opts True)) = Some t
          \<and> Casts t = None)"
proof -
  have ok: "reachable scenario_tbl (constructed scenario_src scenario_opts True)"
    by (rule reachable_scenario)
  from casts_always_absent [OF ok] ok show ?thesis
    by blast
qed

end
